(* ===== verification/Econ_Prelude.thy ===== *)
theory Econ_Prelude
  imports Complex_Main "HOL-Library.Word"
begin

text \<open>
  Shared vocabulary of the economy development (src/src/economy.c).
  It names the C scalar types of the model, writes out the C conversions that
  the economy code relies on (truncating \<open>double\<close> to integer casts, the
  \<open>+0.5\<close> rounding idiom, signed 64-bit and 32-bit multiplication that
  wraps around), and the first-match linear search that every
  \<open>for (i=0; i<n; i++) if (...) break;\<close> loop of the file performs.
  The generic lemmas on these are collected in \<open>econ_simps\<close>.
\<close>

named_theorems econ_simps "generic rewrite rules of the economy model"

type_synonym credits = int \<comment> \<open>\<open>credits_t\<close>, a signed 64-bit integer\<close>
type_synonym ntime = int \<comment> \<open>\<open>ntime_t\<close>, a signed 64-bit integer\<close>

subsection \<open>C conversions\<close>

text \<open>\<open>(credits_t) x\<close> for a \<open>double\<close> \<open>x\<close>: C truncates towards zero.\<close>

definition c_trunc :: "real \<Rightarrow> int" where
  "c_trunc x = (if 0 \<le> x then \<lfloor>x\<rfloor> else \<lceil>x\<rceil>)"

text \<open>The rounding idiom \<open>(credits_t)(x + 0.5)\<close> used for every price and mean.\<close>

definition econ_round :: "real \<Rightarrow> credits" where
  "econ_round x = c_trunc (x + 1/2)"

text \<open>
  Signed multiplication of two C integers of the given width, as the hardware
  computes it (two's complement wrap-around; overflow is undefined in ISO C).
\<close>

definition int64_mul :: "int \<Rightarrow> int \<Rightarrow> int" where
  "int64_mul a b = sint (word_of_int a * word_of_int b :: 64 word)"

definition int32_mul :: "int \<Rightarrow> int \<Rightarrow> int" where
  "int32_mul a b = sint (word_of_int a * word_of_int b :: 32 word)"

text \<open>
  A C string that may be \<open>NULL\<close>; comparing it with \<open>strcmp\<close> dereferences
  it, which the model returns as the fault \<open>NullDeref\<close>. A \<open>double\<close> division
  by zero does not stop the C program, but produces an infinity or NaN, which
  the reals of the model do not contain: the model stops there with
  \<open>NonFinite\<close>.
\<close>

datatype c_fault = NullDeref | NonFinite

definition c_fdiv :: "real \<Rightarrow> real \<Rightarrow> c_fault + real" where
  "c_fdiv x y = (if y = 0 then Inl NonFinite else Inr (x / y))"

definition c_streq :: "string option \<Rightarrow> string option \<Rightarrow> c_fault + bool" where
  "c_streq a b = (case (a, b) of (Some x, Some y) \<Rightarrow> Inr (x = y) | _ \<Rightarrow> Inl NullDeref)"

subsection \<open>First-match search\<close>

text \<open>
  \<open>find_idx P xs\<close> is the index at which \<open>for (i=0; i<n; i++) if (P xs[i]) break;\<close>
  stops, or \<open>None\<close> when the loop runs off the end (\<open>i >= n\<close>).
\<close>

fun find_idx :: "('a \<Rightarrow> bool) \<Rightarrow> 'a list \<Rightarrow> nat option" where
  "find_idx P [] = None"
| "find_idx P (x # xs) = (if P x then Some 0 else map_option Suc (find_idx P xs))"

text \<open>The same loop when evaluating the test may fault.\<close>

fun find_idx_e :: "('a \<Rightarrow> 'e + bool) \<Rightarrow> 'a list \<Rightarrow> 'e + nat option" where
  "find_idx_e P [] = Inr None"
| "find_idx_e P (x # xs) =
     (case P x of
        Inl e \<Rightarrow> Inl e
      | Inr b \<Rightarrow> if b then Inr (Some 0) else map_sum id (map_option Suc) (find_idx_e P xs))"

subsection \<open>Fallible sequencing\<close>

text \<open>
  Sequencing of fallible steps: the first fault ends the computation, as an
  early return or a crash ends the C function.
\<close>

definition sbind :: "'e + 'a \<Rightarrow> ('a \<Rightarrow> 'e + 'b) \<Rightarrow> 'e + 'b" where
  "sbind m f = (case m of Inl e \<Rightarrow> Inl e | Inr x \<Rightarrow> f x)"

text \<open>A \<open>for\<close> loop over a list whose body updates the state and may fault.\<close>

primrec fold_e :: "('a \<Rightarrow> 'b \<Rightarrow> 'e + 'b) \<Rightarrow> 'a list \<Rightarrow> 'b \<Rightarrow> 'e + 'b" where
  "fold_e f [] b = Inr b"
| "fold_e f (x # xs) b = sbind (f x b) (fold_e f xs)"

text \<open>A \<open>for\<close> loop that rewrites every element of an array in place and may fault.\<close>

primrec map_e :: "('a \<Rightarrow> 'e + 'b) \<Rightarrow> 'a list \<Rightarrow> 'e + 'b list" where
  "map_e f [] = Inr []"
| "map_e f (x # xs) = sbind (f x) (\<lambda>y. sbind (map_e f xs) (\<lambda>ys. Inr (y # ys)))"

subsection \<open>Lemmas on the conversions\<close>

lemma c_trunc_nonneg [econ_simps]: "0 \<le> x \<Longrightarrow> c_trunc x = \<lfloor>x\<rfloor>"
  by (simp add: c_trunc_def)

lemma c_trunc_of_int [simp]: "c_trunc (of_int k) = k"
  by (simp add: c_trunc_def)

lemma econ_round_nonneg_floor [econ_simps]:
  "- (1/2) \<le> x \<Longrightarrow> econ_round x = \<lfloor>x + 1/2\<rfloor>"
  by (simp add: econ_round_def c_trunc_def)

lemma econ_round_of_nat [simp]: "econ_round (of_nat k) = int k"
  by (simp add: econ_round_def c_trunc_def)

lemma econ_round_of_int_nonneg [econ_simps]: "0 \<le> k \<Longrightarrow> econ_round (of_int k) = k"
  by (simp add: econ_round_def c_trunc_def)

lemma econ_round_neg_int:
  assumes "k < 0"
  shows "econ_round (of_int k) = k + 1"
proof -
  from assms have "of_int k + 1/2 < (0::real)" by linarith
  moreover have "\<lceil>of_int k + 1/2 :: real\<rceil> = k + 1"
    by linarith
  ultimately show ?thesis by (simp add: econ_round_def c_trunc_def)
qed

lemma econ_round_nonneg [econ_simps]: "- (1/2) \<le> x \<Longrightarrow> 0 \<le> econ_round x"
  by (simp add: econ_round_nonneg_floor)

lemma econ_round_mono_ge:
  "of_int k \<le> x \<Longrightarrow> 0 \<le> k \<Longrightarrow> k \<le> econ_round x"
  by (simp add: econ_round_def c_trunc_def le_floor_iff)

lemma econ_round_le:
  "x \<le> of_int k \<Longrightarrow> 0 \<le> x \<Longrightarrow> econ_round x \<le> k"
  by (simp add: econ_round_def c_trunc_def floor_le_iff)

lemma sint_word_of_int_64: "sint (word_of_int x :: 64 word) = signed_take_bit 63 x"
  by (simp add: sint_sbintrunc')

lemma sint_word_of_int_32: "sint (word_of_int x :: 32 word) = signed_take_bit 31 x"
  by (simp add: sint_sbintrunc')

lemma int64_mul_eq [econ_simps]: "int64_mul a b = signed_take_bit 63 (a * b)"
  by (simp add: int64_mul_def sint_word_of_int_64 flip: of_int_mult)

lemma int32_mul_eq [econ_simps]: "int32_mul a b = signed_take_bit 31 (a * b)"
  by (simp add: int32_mul_def sint_word_of_int_32 flip: of_int_mult)

lemma int64_mul_exact:
  "- (2 ^ 63) \<le> a * b \<Longrightarrow> a * b < 2 ^ 63 \<Longrightarrow> int64_mul a b = a * b"
  by (simp add: int64_mul_eq signed_take_bit_int_eq_self)

lemma int32_mul_exact:
  "- (2 ^ 31) \<le> a * b \<Longrightarrow> a * b < 2 ^ 31 \<Longrightarrow> int32_mul a b = a * b"
  by (simp add: int32_mul_eq signed_take_bit_int_eq_self)

subsection \<open>Lemmas on the search\<close>

lemma find_idx_None_iff [econ_simps]: "find_idx P xs = None \<longleftrightarrow> (\<forall>x\<in>set xs. \<not> P x)"
  by (induction xs) auto

lemma find_idx_Some:
  "find_idx P xs = Some i \<Longrightarrow> i < length xs \<and> P (xs ! i) \<and> (\<forall>j<i. \<not> P (xs ! j))"
proof (induction xs arbitrary: i)
  case Nil
  then show ?case by simp
next
  case (Cons x xs)
  show ?case
  proof (cases "P x")
    case True
    with Cons.prems show ?thesis by simp
  next
    case False
    with Cons.prems obtain i' where i': "find_idx P xs = Some i'" and "i = Suc i'"
      by auto
    with Cons.IH [OF i'] False show ?thesis
      by (auto simp: less_Suc_eq_0_disj)
  qed
qed

lemma find_idx_first:
  "i < length xs \<Longrightarrow> P (xs ! i) \<Longrightarrow> \<forall>j<i. \<not> P (xs ! j) \<Longrightarrow> find_idx P xs = Some i"
proof (induction xs arbitrary: i)
  case Nil
  then show ?case by simp
next
  case (Cons x xs)
  show ?case
  proof (cases i)
    case 0
    with Cons.prems show ?thesis by simp
  next
    case (Suc n)
    with Cons.prems have "\<not> P x" and "\<forall>j<n. \<not> P (xs ! j)"
      by (auto dest: spec [of _ 0] spec [of _ "Suc _"])
    moreover from Suc Cons.prems have "n < length xs" and "P (xs ! n)" by auto
    ultimately show ?thesis using Suc Cons.IH by simp
  qed
qed

lemma find_idx_distinct:
  "distinct (map f xs) \<Longrightarrow> i < length xs \<Longrightarrow> find_idx (\<lambda>y. f y = f (xs ! i)) xs = Some i"
  by (rule find_idx_first) (auto simp: nth_eq_iff_index_eq distinct_conv_nth)

lemma find_idx_map [econ_simps]: "find_idx P (map f xs) = find_idx (P \<circ> f) xs"
  by (induction xs) auto

lemma find_idx_e_total:
  "(\<And>x. x \<in> set xs \<Longrightarrow> P x = Inr (Q x)) \<Longrightarrow> find_idx_e P xs = Inr (find_idx Q xs)"
  by (induction xs) auto

lemma find_idx_e_Some_less: "find_idx_e P xs = Inr (Some i) \<Longrightarrow> i < length xs"
proof (induction xs arbitrary: i)
  case (Cons x xs)
  then show ?case
    by (cases "find_idx_e P xs") (auto split: sum.splits if_splits)
qed simp

lemma c_streq_Some [simp]: "c_streq (Some a) (Some b) = Inr (a = b)"
  by (simp add: c_streq_def)

lemma c_streq_None [simp]: "c_streq None b = Inl NullDeref" "c_streq a None = Inl NullDeref"
  by (simp_all add: c_streq_def split: option.split)

lemma find_idx_cong:
  "(\<And>x. x \<in> set xs \<Longrightarrow> P x = Q x) \<Longrightarrow> find_idx P xs = find_idx Q xs"
  by (induction xs) auto

subsection \<open>Lemmas on fallible sequencing\<close>

lemma sbind_simps [simp]: "sbind (Inl e) f = Inl e" "sbind (Inr x) f = f x"
  by (simp_all add: sbind_def)

lemma sbind_Inr_iff: "sbind m f = Inr y \<longleftrightarrow> (\<exists>x. m = Inr x \<and> f x = Inr y)"
  by (cases m) simp_all

lemma c_fdiv_nz [simp]: "y \<noteq> 0 \<Longrightarrow> c_fdiv x y = Inr (x / y)"
  by (simp add: c_fdiv_def)

lemma c_fdiv_zero [simp]: "c_fdiv x 0 = Inl NonFinite"
  by (simp add: c_fdiv_def)

lemma map_e_total:
  "(\<And>x. x \<in> set xs \<Longrightarrow> f x = Inr (g x)) \<Longrightarrow> map_e f xs = Inr (map g xs)"
  by (induction xs) simp_all

lemma fold_e_total:
  "(\<And>x b. x \<in> set xs \<Longrightarrow> f x b = Inr (g x b)) \<Longrightarrow> fold_e f xs b = Inr (fold g xs b)"
  by (induction xs arbitrary: b) simp_all

lemma map_e_Inr:
  "map_e f xs = Inr ys \<Longrightarrow> length ys = length xs \<and> (\<forall>i<length xs. f (xs ! i) = Inr (ys ! i))"
proof (induction xs arbitrary: ys)
  case (Cons x xs)
  then obtain y ys' where "f x = Inr y" "map_e f xs = Inr ys'" "ys = y # ys'"
    by (auto simp: sbind_Inr_iff)
  with Cons.IH [of ys'] show ?case by (auto simp: nth_Cons split: nat.split)
qed simp

lemma map_e_no_fault: "\<forall>y\<in>set xs. \<forall>e. f y \<noteq> Inl e \<Longrightarrow> \<exists>ys. map_e f xs = Inr ys"
proof (induction xs)
  case (Cons x xs)
  then obtain ys where "map_e f xs = Inr ys" by auto
  moreover obtain y where "f x = Inr y" using Cons.prems by (cases "f x") auto
  ultimately show ?case by simp
qed simp

lemma sbind_assoc: "sbind (sbind m f) g = sbind m (\<lambda>x. sbind (f x) g)"
  by (cases m) simp_all

lemma fold_e_append: "fold_e f (xs @ ys) b = sbind (fold_e f xs b) (fold_e f ys)"
proof (induction xs arbitrary: b)
  case (Cons x xs)
  then show ?case by (cases "f x b") simp_all
qed simp

lemma fold_e_concat_map:
  "fold_e f (concat (map g (x # xs))) b = sbind (fold_e f (g x) b) (fold_e f (concat (map g xs)))"
  by (simp add: fold_e_append)

lemma map_upt_update:
  "k < n \<Longrightarrow> (map g [0..<n])[k := v] = map (\<lambda>k'. if k' = k then v else g k') [0..<n]"
  by (rule nth_equalityI) auto

text \<open>Past the end a list reads the same unspecified element as any list of its length.\<close>

lemma nth_map_past: "length xs \<le> k \<Longrightarrow> map f xs ! k = xs ! k"
proof (induction xs arbitrary: k)
  case (Cons x xs)
  then show ?case by (cases k) simp_all
qed simp

lemma map_upt_nth: "map (\<lambda>k. f (xs ! k)) [0..<length xs] = map f xs"
  by (rule nth_equalityI) simp_all

lemma sbind_fold_e_Nil: "sbind m (fold_e f []) = m"
  by (cases m) simp_all

lemma fold_e_inv:
  "(\<And>x s s'. x \<in> set xs \<Longrightarrow> f x s = Inr s' \<Longrightarrow> I s' = I s) \<Longrightarrow> fold_e f xs s = Inr s' \<Longrightarrow> I s' = I s"
proof (induction xs arbitrary: s)
  case (Cons x xs)
  then show ?case by (cases "f x s") (fastforce simp: sbind_def)+
qed simp

end
