(* ===== verification/Commodity.thy ===== *)
theory Commodity
  imports Econ_Prelude
begin

text \<open>
  The commodity catalog (src/src/economy.c, \<open>commodity_parse\<close>,
  \<open>commodity_load\<close>, \<open>commodity_get\<close>, \<open>commodity_getW\<close>,
  \<open>commodity_compareTech\<close>). The catalog state is the pair of global arrays
  \<open>commodity_stack\<close> and \<open>econ_comm\<close> (the stack indices of the priced
  commodities). A commodity's name is a C string that may be \<open>NULL\<close> when the
  XML entry has no \<open>name\<close> element; a string comparison that reaches such a
  name dereferences \<open>NULL\<close>, which the model returns as a fault.
  The XML document is modelled by its element children, already decoded
  (the libxml2 reader and the texture loader are not part of the model).
\<close>

subsection \<open>Data\<close>

record commodity =
  commodity_name :: "string option"
  commodity_price :: int
  population_modifier :: real
  period :: real
  planet_modifier :: "(string option \<times> real) list"  \<comment> \<open>\<open>CommodityModifier\<close> list, head first\<close>
  faction_modifier :: "(string option \<times> real) list"
  lastPurchasePrice :: credits

text \<open>The children of a \<open><commodity>\<close> element, with their decoded contents.\<close>

datatype commodity_node =
    XName string
  | XDescription string
  | XPrice int
  | XGfxSpace
  | XGfxStore
  | XPopulationModifier real
  | XPeriod real
  | XPlanetModifier "string option" real \<comment> \<open>the \<open>type\<close> attribute may be absent\<close>
  | XFactionModifier "string option" real
  | XOtherNode string

text \<open>The children of the \<open><Commodities>\<close> root.\<close>

datatype catalog_node = XCommodity "commodity_node list" | XUnknown string

datatype catalog_doc = CatalogDoc (root_name: string) (root_children: "catalog_node list")

datatype load_error = NoFile | InvalidXML | MissingRoot | NoElements

record catalog =
  commodity_stack :: "commodity list"
  econ_comm :: "nat list"

subsection \<open>Parsing one commodity\<close>

text \<open>\<open>memset\<close> to zero, then the two defaults set before the loop.\<close>

definition commodity_init :: commodity where
  "commodity_init = \<lparr>commodity_name = None, commodity_price = 0, population_modifier = 0,
     period = 200, planet_modifier = [], faction_modifier = [], lastPurchasePrice = 0\<rparr>"

text \<open>
  One iteration of the parse loop. \<open>xmlr_strd\<close>/\<open>xmlr_int\<close>/\<open>xmlr_float\<close>
  overwrite the field, so the last occurrence wins; a modifier node allocates a
  new list cell and pushes it in front of the list.
\<close>

fun commodity_parse_node :: "commodity \<Rightarrow> commodity_node \<Rightarrow> commodity" where
  "commodity_parse_node c (XName s) = c\<lparr>commodity_name := Some s\<rparr>"
| "commodity_parse_node c (XPrice p) = c\<lparr>commodity_price := p\<rparr>"
| "commodity_parse_node c (XPopulationModifier x) = c\<lparr>population_modifier := x\<rparr>"
| "commodity_parse_node c (XPeriod x) = c\<lparr>period := x\<rparr>"
| "commodity_parse_node c (XPlanetModifier t v) = c\<lparr>planet_modifier := (t, v) # planet_modifier c\<rparr>"
| "commodity_parse_node c (XFactionModifier t v) = c\<lparr>faction_modifier := (t, v) # faction_modifier c\<rparr>"
| "commodity_parse_node c (XDescription _) = c"
| "commodity_parse_node c XGfxSpace = c"
| "commodity_parse_node c XGfxStore = c"
| "commodity_parse_node c (XOtherNode _) = c"

definition commodity_parse :: "commodity_node list \<Rightarrow> commodity" where
  "commodity_parse ns = fold (\<lambda>n c. commodity_parse_node c n) ns commodity_init"

subsection \<open>Loading the catalog\<close>

text \<open>
  One \<open><commodity>\<close> element: the stack grows by one, and the new index is
  appended to \<open>econ_comm\<close> when the price is positive. Unknown elements only warn.
\<close>

fun commodity_load_node :: "catalog \<Rightarrow> catalog_node \<Rightarrow> catalog" where
  "commodity_load_node cat (XCommodity ns) =
     (let c = commodity_parse ns; k = length (commodity_stack cat)
      in cat\<lparr>commodity_stack := commodity_stack cat @ [c],
             econ_comm := (if 0 < commodity_price c then econ_comm cat @ [k] else econ_comm cat)\<rparr>)"
| "commodity_load_node cat (XUnknown _) = cat"

text \<open>
  \<open>commodity_load\<close>. The input is what \<open>ndata_read\<close> and \<open>xmlParseMemory\<close>
  deliver: \<open>None\<close> when the file cannot be read, \<open>Some None\<close> when it is not
  XML. These return \<open>-1\<close>; a wrong or empty root is \<open>ERR\<close> (the process aborts).
  All four are errors of the model.
\<close>

definition commodity_load :: "catalog \<Rightarrow> catalog_doc option option \<Rightarrow> load_error + catalog" where
  "commodity_load cat f =
     (case f of
        None \<Rightarrow> Inl NoFile
      | Some None \<Rightarrow> Inl InvalidXML
      | Some (Some (CatalogDoc r cs)) \<Rightarrow>
          if r \<noteq> ''Commodities'' then Inl MissingRoot
          else if cs = [] then Inl NoElements
          else Inr (fold (\<lambda>n c. commodity_load_node c n) cs cat))"

subsection \<open>Lookup by name\<close>

text \<open>\<open>strcmp(commodity_stack[i].name, name) == 0\<close>; \<open>None\<close> stands for \<open>NULL\<close>.\<close>

fun commodity_getW_from :: "commodity list \<Rightarrow> string \<Rightarrow> nat \<Rightarrow> c_fault + nat option" where
  "commodity_getW_from [] s i = Inr None"
| "commodity_getW_from (c # cs) s i =
     (case commodity_name c of
        None \<Rightarrow> Inl NullDeref
      | Some n \<Rightarrow> if n = s then Inr (Some i) else commodity_getW_from cs s (Suc i))"

definition commodity_getW :: "catalog \<Rightarrow> string \<Rightarrow> c_fault + nat option" where
  "commodity_getW cat s = commodity_getW_from (commodity_stack cat) s 0"

text \<open>\<open>commodity_get\<close> returns the same pointer and only adds a warning on a miss.\<close>

definition commodity_get :: "catalog \<Rightarrow> string \<Rightarrow> c_fault + nat option" where
  "commodity_get cat s = commodity_getW cat s"

subsection \<open>Ordering\<close>

text \<open>
  \<open>strcmp\<close> of glibc: the difference of the first two differing bytes, read as
  \<open>unsigned char\<close>; the end of a C string is its terminating \<open>NUL\<close> byte.
\<close>

fun c_strcmp :: "string \<Rightarrow> string \<Rightarrow> int" where
  "c_strcmp [] [] = 0"
| "c_strcmp [] (y # _) = - of_char y"
| "c_strcmp (x # _) [] = of_char x"
| "c_strcmp (x # xs) (y # ys) = (if x = y then c_strcmp xs ys else of_char x - of_char y)"

text \<open>\<open>commodity_compareTech\<close>: higher price first, then by name.\<close>

definition commodity_compareTech :: "commodity \<Rightarrow> commodity \<Rightarrow> c_fault + int" where
  "commodity_compareTech c1 c2 =
     (if commodity_price c1 < commodity_price c2 then Inr 1
      else if commodity_price c1 > commodity_price c2 then Inr (-1)
      else case (commodity_name c1, commodity_name c2) of
             (Some n1, Some n2) \<Rightarrow> Inr (c_strcmp n1 n2)
           | _ \<Rightarrow> Inl NullDeref)"

subsection \<open>The priced set\<close>

definition catalog_inv :: "catalog \<Rightarrow> bool" where
  "catalog_inv cat \<longleftrightarrow>
     econ_comm cat = filter (\<lambda>k. 0 < commodity_price (commodity_stack cat ! k)) [0..<length (commodity_stack cat)]"

subsection \<open>Freeing the catalog\<close>

text \<open>
  \<open>commodity_free\<close> frees every commodity and the stack and sets the stack to
  \<open>NULL\<close> and its count to 0. It also frees \<open>econ_comm\<close>, but sets neither it to
  \<open>NULL\<close> nor \<open>econ_nprices\<close> to 0: the field is left unchanged here, and after
  the call it is a dangling pointer. No operation of the model reads it
  afterwards; a second \<open>commodity_load\<close> would \<open>realloc\<close> the freed block, which
  is undefined behaviour and not modelled.
\<close>

definition commodity_free :: "catalog \<Rightarrow> catalog" where
  "commodity_free cat = cat\<lparr>commodity_stack := []\<rparr>"

text \<open>The \<open><commodity>\<close> elements of a document, in order.\<close>

fun commodity_elems :: "catalog_node list \<Rightarrow> commodity_node list list" where
  "commodity_elems [] = []"
| "commodity_elems (XCommodity ns # cs) = ns # commodity_elems cs"
| "commodity_elems (XUnknown _ # cs) = commodity_elems cs"

subsection \<open>Lemmas\<close>

lemma filter_upt_nth_snoc:
  "filter (\<lambda>k. P ((xs @ [x]) ! k)) [0..<length xs] = filter (\<lambda>k. P (xs ! k)) [0..<length xs]"
  by (rule filter_cong) (auto simp: nth_append)

lemma commodity_load_node_inv: "catalog_inv cat \<Longrightarrow> catalog_inv (commodity_load_node cat n)"
  by (cases n) (simp_all add: catalog_inv_def Let_def filter_upt_nth_snoc [where P = "\<lambda>c. 0 < commodity_price c"])

lemma fold_load_node_inv:
  "catalog_inv cat \<Longrightarrow> catalog_inv (fold (\<lambda>n c. commodity_load_node c n) ns cat)"
  by (induction ns arbitrary: cat) (simp_all add: commodity_load_node_inv)

lemma commodity_load_priced:
  assumes "catalog_inv cat" and "commodity_load cat f = Inr cat'"
  shows "econ_comm cat' = filter (\<lambda>k. 0 < commodity_price (commodity_stack cat' ! k)) [0..<length (commodity_stack cat')]"
  using assms fold_load_node_inv
  by (auto simp: commodity_load_def catalog_inv_def split: option.splits catalog_doc.splits if_splits)

lemma commodity_getW_from_named:
  "\<forall>c\<in>set cs. commodity_name c \<noteq> None \<Longrightarrow>
   commodity_getW_from cs s i = Inr (map_option ((+) i) (find_idx (\<lambda>c. commodity_name c = Some s) cs))"
proof (induction cs arbitrary: i)
  case (Cons c cs)
  have "(+) (Suc i) = (\<lambda>k. Suc (i + k))" by (rule ext) simp
  with Cons show ?case by (auto simp: option.map_comp comp_def)
qed simp

lemma of_char_int_nonneg [simp]: "0 \<le> (of_char c :: int)"
proof -
  have "int (of_char c) = of_char c" by (rule of_nat_of_char)
  then show ?thesis by (metis of_nat_0_le_iff)
qed

lemma of_char_int_zero: "(of_char c :: int) = 0 \<longleftrightarrow> c = CHR 0x00"
proof -
  have "(of_char c :: int) = 0 \<longleftrightarrow> of_char c = (of_char (CHR 0x00) :: int)" by simp
  also have "\<dots> \<longleftrightarrow> c = CHR 0x00" by (rule of_char_eq_iff)
  finally show ?thesis .
qed

lemma of_char_int_pos:
  assumes "CHR 0x00 \<noteq> c"
  shows "0 < (of_char c :: int)"
proof -
  from assms have "(of_char c :: int) \<noteq> 0" by (simp only: of_char_int_zero) simp
  with of_char_int_nonneg [of c] show ?thesis by linarith
qed

lemma c_strcmp_antisym: "c_strcmp b a = - c_strcmp a b"
  by (induction a b rule: c_strcmp.induct) simp_all

lemma c_strcmp_eq_0:
  "CHR 0x00 \<notin> set a \<Longrightarrow> CHR 0x00 \<notin> set b \<Longrightarrow> c_strcmp a b = 0 \<longleftrightarrow> a = b"
  by (induction a b rule: c_strcmp.induct) (auto simp: of_char_int_zero)

lemma c_strcmp_trans:
  "CHR 0x00 \<notin> set b \<Longrightarrow> CHR 0x00 \<notin> set c \<Longrightarrow> c_strcmp a b < 0 \<Longrightarrow> c_strcmp b c < 0 \<Longrightarrow> c_strcmp a c < 0"
proof (induction a b arbitrary: c rule: c_strcmp.induct)
  case (1 c)
  then show ?case by simp
next
  case (2 y ys)
  then show ?case using of_char_int_nonneg [of y] by (cases c) (auto simp: of_char_int_pos)
next
  case (3 x xs)
  then show ?case using of_char_int_nonneg [of x] by simp
next
  case (4 x xs y ys)
  then show ?case
    by (cases c) (auto split: if_splits simp: of_char_int_pos)
qed
subsection \<open>Parsing: the last occurrence wins\<close>

lemma fold_parse_price:
  "commodity_price (fold (\<lambda>n c. commodity_parse_node c n) ns c) =
   last (commodity_price c # [p. XPrice p \<leftarrow> ns])"
proof (induction ns arbitrary: c)
  case (Cons n ns)
  then show ?case by (cases n) (simp_all split: list.split)
qed simp

lemma fold_parse_planet_modifier:
  "planet_modifier (fold (\<lambda>n c. commodity_parse_node c n) ns c) =
   rev [(t, v). XPlanetModifier t v \<leftarrow> ns] @ planet_modifier c"
proof (induction ns arbitrary: c)
  case (Cons n ns)
  then show ?case by (cases n) simp_all
qed simp

lemma fold_parse_faction_modifier:
  "faction_modifier (fold (\<lambda>n c. commodity_parse_node c n) ns c) =
   rev [(t, v). XFactionModifier t v \<leftarrow> ns] @ faction_modifier c"
proof (induction ns arbitrary: c)
  case (Cons n ns)
  then show ?case by (cases n) simp_all
qed simp

lemma fold_load_node_stack:
  "commodity_stack (fold (\<lambda>n c. commodity_load_node c n) cs cat) =
   commodity_stack cat @ map commodity_parse (commodity_elems cs)"
  by (induction cs arbitrary: cat rule: commodity_elems.induct) (simp_all add: Let_def)

lemma fold_load_node_comm:
  "econ_comm (fold (\<lambda>n c. commodity_load_node c n) cs cat) =
   econ_comm cat @ filter (\<lambda>k. 0 < commodity_price (commodity_stack (fold (\<lambda>n c. commodity_load_node c n) cs cat) ! k))
                          [length (commodity_stack cat)..<length (commodity_stack (fold (\<lambda>n c. commodity_load_node c n) cs cat))]"
proof (induction cs arbitrary: cat rule: commodity_elems.induct)
  case (2 ns cs)
  let ?F = "\<lambda>cat. fold (\<lambda>n c. commodity_load_node c n) cs cat"
  let ?c = "commodity_parse ns" and ?st = "commodity_stack cat"
  let ?cat1 = "commodity_load_node cat (XCommodity ns)"
  let ?P = "\<lambda>k. 0 < commodity_price (commodity_stack (?F ?cat1) ! k)"
  have st1: "commodity_stack ?cat1 = ?st @ [?c]" by (simp add: Let_def)
  have fin: "commodity_stack (?F ?cat1) = ?st @ ?c # map commodity_parse (commodity_elems cs)"
    using st1 by (simp add: fold_load_node_stack)
  have c: "?P (length ?st) \<longleftrightarrow> 0 < commodity_price ?c" using fin by simp
  have upt: "[length ?st..<length (commodity_stack (?F ?cat1))] = length ?st # [Suc (length ?st)..<length (commodity_stack (?F ?cat1))]"
    using fin by (subst upt_conv_Cons) simp_all
  have "econ_comm (?F ?cat1) = econ_comm ?cat1 @ filter ?P [Suc (length ?st)..<length (commodity_stack (?F ?cat1))]"
    using "2" st1 by simp
  also have "econ_comm ?cat1 = econ_comm cat @ (if 0 < commodity_price ?c then [length ?st] else [])"
    by (simp add: Let_def)
  finally show ?case using c by (simp only: fold.simps comp_apply upt) (simp del: upt_Suc)
qed simp_all

lemma commodity_getW_from_null:
  "j < length cs \<Longrightarrow> commodity_name (cs ! j) = None \<Longrightarrow>
   \<forall>i<j. commodity_name (cs ! i) \<noteq> None \<and> commodity_name (cs ! i) \<noteq> Some s \<Longrightarrow>
   commodity_getW_from cs s k = Inl NullDeref"
proof (induction cs arbitrary: j k)
  case (Cons c cs)
  show ?case
  proof (cases j)
    case 0
    with Cons.prems show ?thesis by simp
  next
    case (Suc j')
    from Cons.prems(3) Suc obtain n where n: "commodity_name c = Some n" "n \<noteq> s"
      by (metis (no_types) nth_Cons_0 option.exhaust zero_less_Suc)
    have "\<forall>i<j'. commodity_name (cs ! i) \<noteq> None \<and> commodity_name (cs ! i) \<noteq> Some s"
      using Cons.prems(3) Suc by auto
    with Cons.IH [of j'] Cons.prems(1,2) Suc n show ?thesis by simp
  qed
qed simp

subsection \<open>Properties of the catalog\<close>

text \<open>
  C16: Loading a document whose root is \<open>Commodities\<close> and which has elements
  succeeds; the stack grows by the parsed \<open><commodity>\<close> elements in document
  order, and \<open>econ_comm\<close> is then exactly the list of stack indices whose
  price is positive, in increasing order.
\<close>

theorem commodity_load_result:
  assumes "catalog_inv cat" and "cs \<noteq> []"
  shows "\<exists>cat'. commodity_load cat (Some (Some (CatalogDoc ''Commodities'' cs))) = Inr cat' \<and>
     commodity_stack cat' = commodity_stack cat @ map commodity_parse (commodity_elems cs) \<and>
     econ_comm cat' = filter (\<lambda>k. 0 < commodity_price (commodity_stack cat' ! k)) [0..<length (commodity_stack cat')]"
  using assms fold_load_node_inv [OF assms(1), of cs] fold_load_node_stack [of cs cat]
  by (simp add: commodity_load_def catalog_inv_def)

text \<open>
  C37: \<open>commodity_getW\<close> returns the index of the first commodity of the given
  name when no name is \<open>NULL\<close>; a \<open>NULL\<close> name met before any match is passed
  to \<open>strcmp\<close>.
\<close>

theorem commodity_getW_spec:
  "((\<forall>c\<in>set (commodity_stack cat). commodity_name c \<noteq> None) \<longrightarrow>
      commodity_getW cat s = Inr (find_idx (\<lambda>c. commodity_name c = Some s) (commodity_stack cat))) \<and>
   (j < length (commodity_stack cat) \<and> commodity_name (commodity_stack cat ! j) = None \<and>
    (\<forall>i<j. commodity_name (commodity_stack cat ! i) \<noteq> None \<and> commodity_name (commodity_stack cat ! i) \<noteq> Some s)
    \<longrightarrow> commodity_getW cat s = Inl NullDeref)"
proof (intro conjI impI)
  assume "\<forall>c\<in>set (commodity_stack cat). commodity_name c \<noteq> None"
  moreover have "(+) (0::nat) = (\<lambda>x. x)" by (rule ext) simp
  ultimately have "commodity_getW_from (commodity_stack cat) s 0 =
      Inr (find_idx (\<lambda>c. commodity_name c = Some s) (commodity_stack cat))"
    using commodity_getW_from_named [of "commodity_stack cat" s 0] by (simp add: option.map_ident)
  then show "commodity_getW cat s = Inr (find_idx (\<lambda>c. commodity_name c = Some s) (commodity_stack cat))"
    by (simp add: commodity_getW_def)
next
  assume "j < length (commodity_stack cat) \<and> commodity_name (commodity_stack cat ! j) = None \<and>
    (\<forall>i<j. commodity_name (commodity_stack cat ! i) \<noteq> None \<and> commodity_name (commodity_stack cat ! i) \<noteq> Some s)"
  then show "commodity_getW cat s = Inl NullDeref"
    unfolding commodity_getW_def by (blast intro: commodity_getW_from_null)
qed

text \<open>
  C38: On commodities whose names are C strings (no \<open>NUL\<close> byte)
  \<open>commodity_compareTech\<close> is a consistent \<open>qsort\<close> comparator: swapping the
  arguments negates the result, it returns 0 exactly for equal price and name,
  a price difference gives -1 or +1, and "sorts before" (a negative result)
  is transitive. A tie on the price returns the byte difference of glibc's
  \<open>strcmp\<close>, which need not be -1 or +1.
\<close>

theorem commodity_compareTech_comparator:
  assumes "commodity_name a = Some na" and "commodity_name b = Some nb" and "commodity_name c = Some nc"
    and "CHR 0x00 \<notin> set na" and "CHR 0x00 \<notin> set nb" and "CHR 0x00 \<notin> set nc"
  shows "(\<exists>r. commodity_compareTech a b = Inr r \<and> commodity_compareTech b a = Inr (- r)) \<and>
         (commodity_compareTech a b = Inr 0 \<longleftrightarrow> commodity_price a = commodity_price b \<and> na = nb) \<and>
         (commodity_price a \<noteq> commodity_price b \<longrightarrow> commodity_compareTech a b \<in> {Inr 1, Inr (-1)}) \<and>
         (\<forall>r s. commodity_compareTech a b = Inr r \<longrightarrow> commodity_compareTech b c = Inr s \<longrightarrow> r < 0 \<longrightarrow> s < 0 \<longrightarrow>
            (\<exists>u<0. commodity_compareTech a c = Inr u))"
proof (intro conjI impI allI)
  show "\<exists>r. commodity_compareTech a b = Inr r \<and> commodity_compareTech b a = Inr (- r)"
    using assms(1,2) c_strcmp_antisym [of na nb] by (auto simp: commodity_compareTech_def)
  show "commodity_compareTech a b = Inr 0 \<longleftrightarrow> commodity_price a = commodity_price b \<and> na = nb"
    using assms(1,2,4,5) by (auto simp: commodity_compareTech_def c_strcmp_eq_0)
  show "commodity_price a \<noteq> commodity_price b \<Longrightarrow> commodity_compareTech a b \<in> {Inr 1, Inr (-1)}"
    by (auto simp: commodity_compareTech_def)
next
  fix r s
  assume ab: "commodity_compareTech a b = Inr r" and bc: "commodity_compareTech b c = Inr s"
    and "r < 0" and "s < 0"
  then show "\<exists>u<0. commodity_compareTech a c = Inr u"
    using assms c_strcmp_trans [of nb nc na]
    by (auto simp: commodity_compareTech_def split: if_splits)
qed

end
