(* ===== verification/Universe.thy ===== *)
theory Universe
  imports Commodity
begin

text \<open>
  The state the economy code reads and writes besides the catalog: the
  \<open>CommodityPrice\<close> entries of every planet (the price fields), the planets and
  the star systems of \<open>systems_stack\<close>, as declared in the headers (economy.h,
  space.h, which are not part of the sources). Planets are stored inside their
  system: every planet of naev belongs to exactly one system, and no property
  here depends on aliasing. A planet's \<open>commodities\<close> are pointers into
  \<open>commodity_stack\<close>, modelled as indices; a jump's target is the index of the
  target system (its \<open>id\<close>). Also here: the simulated-time conversion of
  ntime.c and the well-formedness of a universe.
\<close>

record CommodityPrice =
  cp_name :: "string option"
  price :: real
  planetPeriod :: real
  sysPeriod :: real
  planetVariation :: real
  sysVariation :: real
  updateTime :: ntime
  cp_sum :: real
  cp_sum2 :: real
  cnt :: int

record Planet =
  planet_name :: string
  planet_class :: string
  planet_faction :: int
  population :: nat
  presenceRange :: int
  gfx_exterior :: string
  commodities :: "nat list"
  commodityPrice :: "CommodityPrice list"

record StarSystem =
  sys_name :: string
  sys_id :: nat
  nebu_density :: real
  nebu_volatility :: real
  interference :: real
  radius :: real
  sys_faction :: int
  jumps :: "nat list"
  planets :: "Planet list"
  prices :: "real list option"
  averagePrice :: "CommodityPrice list"

subsection \<open>Simulated time\<close>

text \<open>
  ntime.c: \<open>ntime_convertSTU\<close> divides by \<open>NT_STU_DIV\<close> (1000) and one STP is
  \<open>NT_STP_STU\<close> (10000) STU, so \<open>1e7\<close> ntime units are one STP, as the comment
  in \<open>economy_getPriceAtTime\<close> says.
\<close>

definition NT_STU_DIV :: real where "NT_STU_DIV = 1000"

definition NT_STP_STU :: real where "NT_STP_STU = 10000"

definition ntime_convertSTU :: "ntime \<Rightarrow> real" where
  "ntime_convertSTU t = real_of_int t / NT_STU_DIV"

text \<open>\<open>planet->commodities[j]->name\<close>: the name of the \<open>j\<close>-th commodity a planet trades.\<close>

definition comm_name :: "catalog \<Rightarrow> Planet \<Rightarrow> nat \<Rightarrow> string option" where
  "comm_name cat p j = commodity_name (commodity_stack cat ! (commodities p ! j))"

subsection \<open>Well-formedness\<close>

text \<open>
  What the loaders of space.c guarantee: a planet has one price entry per
  commodity it trades, its commodity pointers point into the stack at named
  commodities, systems are numbered by their position, and jumps target
  existing systems.
\<close>

definition wf_planet :: "catalog \<Rightarrow> Planet \<Rightarrow> bool" where
  "wf_planet cat p \<longleftrightarrow>
     length (commodityPrice p) = length (commodities p) \<and>
     (\<forall>j\<in>set (commodities p). j < length (commodity_stack cat) \<and>
        commodity_name (commodity_stack cat ! j) \<noteq> None)"

definition wf_systems :: "catalog \<Rightarrow> StarSystem list \<Rightarrow> bool" where
  "wf_systems cat ss \<longleftrightarrow>
     (\<forall>i<length ss. sys_id (ss ! i) = i \<and>
        (\<forall>t\<in>set (jumps (ss ! i)). t < length ss) \<and>
        (\<forall>p\<in>set (planets (ss ! i)). wf_planet cat p))"

lemma ntime_stp: "ntime_convertSTU t / NT_STP_STU = real_of_int t / 10000000"
  by (simp add: ntime_convertSTU_def NT_STU_DIV_def NT_STP_STU_def)

end
