(* ===== verification/Price_Eval.thy ===== *)
theory Price_Eval
  imports Universe
begin

text \<open>
  The price evaluator (src/src/economy.c, \<open>economy_getPriceAtTime\<close> and
  \<open>economy_getPrice\<close>): two lookups, then the closed-form price of the planet's
  \<open>CommodityPrice\<close> entry at the simulated time, rounded by the \<open>+0.5\<close> cast.
  A lookup miss warns and returns 0; only a \<open>NULL\<close> name met by \<open>strcmp\<close>
  is a fault. A zero period makes the price NaN, which the cast turns into
  \<open>INT64_MIN\<close>. The current time \<open>ntime_get()\<close> is a parameter.
\<close>

text \<open>The loop over \<open>econ_comm\<close>: the position of the stack index \<open>k\<close>, if priced.\<close>

definition economy_commIndex :: "catalog \<Rightarrow> nat \<Rightarrow> nat option" where
  "economy_commIndex cat k = find_idx (\<lambda>c. c = k) (econ_comm cat)"

text \<open>The loop over the planet's commodities, comparing names with \<open>strcmp\<close>.\<close>

definition planet_commodityIndex :: "catalog \<Rightarrow> Planet \<Rightarrow> string option \<Rightarrow> c_fault + nat option" where
  "planet_commodityIndex cat p n =
     find_idx_e (\<lambda>j. c_streq (commodity_name (commodity_stack cat ! j)) n) (commodities p)"

text \<open>
  The price formula of one entry at time \<open>t\<close> (in STP). A zero period makes
  \<open>2*M_PI*t/period\<close> infinite (or NaN when \<open>t = 0\<close>) and its sine NaN, so the
  whole sum is NaN, whatever the amplitudes: \<open>None\<close>.
\<close>

definition price_at :: "CommodityPrice \<Rightarrow> real \<Rightarrow> real option" where
  "price_at cp t =
     (if sysPeriod cp = 0 \<or> planetPeriod cp = 0 then None
      else Some (price cp + sysVariation cp * sin (2 * pi * t / sysPeriod cp)
                 + planetVariation cp * sin (2 * pi * t / planetPeriod cp)))"

text \<open>
  \<open>(credits_t) (price+0.5)\<close>: the truncation of \<open>econ_round\<close> on a number.
  The conversion of NaN is undefined in C; the \<open>cvttsd2si\<close> instruction that
  x86-64 compilers emit for it returns \<open>INT64_MIN\<close>, the value of the model.
\<close>

definition credits_of_price :: "real option \<Rightarrow> credits" where
  "credits_of_price r = (case r of None \<Rightarrow> - (2 ^ 63) | Some x \<Rightarrow> econ_round x)"

definition economy_getPriceAtTime :: "catalog \<Rightarrow> nat \<Rightarrow> Planet \<Rightarrow> ntime \<Rightarrow> c_fault + credits" where
  "economy_getPriceAtTime cat k p tme =
     (let t = ntime_convertSTU tme / NT_STP_STU in
      case economy_commIndex cat k of
        None \<Rightarrow> Inr 0
      | Some _ \<Rightarrow>
          (case planet_commodityIndex cat p (commodity_name (commodity_stack cat ! k)) of
             Inl e \<Rightarrow> Inl e
           | Inr None \<Rightarrow> Inr 0
           | Inr (Some i) \<Rightarrow> Inr (credits_of_price (price_at (commodityPrice p ! i) t))))"

definition economy_getPrice :: "catalog \<Rightarrow> nat \<Rightarrow> Planet \<Rightarrow> ntime \<Rightarrow> c_fault + credits" where
  "economy_getPrice cat k p now = economy_getPriceAtTime cat k p now"

subsection \<open>Lemmas\<close>

lemma planet_commodityIndex_wf:
  assumes "wf_planet cat p" and "n \<noteq> None"
  shows "planet_commodityIndex cat p n =
           Inr (find_idx (\<lambda>j. commodity_name (commodity_stack cat ! j) = n) (commodities p))"
  unfolding planet_commodityIndex_def
proof (rule find_idx_e_total)
  fix j assume "j \<in> set (commodities p)"
  with assms show "c_streq (commodity_name (commodity_stack cat ! j)) n =
                   Inr (commodity_name (commodity_stack cat ! j) = n)"
    by (auto simp: wf_planet_def)
qed

lemma economy_commIndex_None: "economy_commIndex cat k = None \<longleftrightarrow> k \<notin> set (econ_comm cat)"
  by (auto simp: economy_commIndex_def econ_simps)

lemma sin_shift_int: "sin (x + 2 * pi * of_int m) = sin x"
  by (simp add: sin_add)

lemma price_at_finite:
  "sysPeriod cp \<noteq> 0 \<Longrightarrow> planetPeriod cp \<noteq> 0 \<Longrightarrow>
   price_at cp t = Some (price cp + sysVariation cp * sin (2 * pi * t / sysPeriod cp)
                          + planetVariation cp * sin (2 * pi * t / planetPeriod cp))"
  by (simp add: price_at_def)

lemma price_at_shift:
  assumes "0 < planetPeriod cp" and "0 < sysPeriod cp"
    and "d = of_int m1 * planetPeriod cp" and "d = of_int m2 * sysPeriod cp"
  shows "price_at cp (t + d) = price_at cp t"
proof -
  have "2 * pi * (t + d) / planetPeriod cp = 2 * pi * t / planetPeriod cp + 2 * pi * of_int m1"
    using assms(1,3) by (simp add: field_simps)
  moreover have "2 * pi * (t + d) / sysPeriod cp = 2 * pi * t / sysPeriod cp + 2 * pi * of_int m2"
    using assms(2,4) by (simp add: field_simps)
  ultimately show ?thesis
    using assms(1,2) by (simp add: price_at_finite sin_shift_int)
qed

lemma price_at_dev:
  assumes "price_at cp t = Some x" and "0 \<le> planetVariation cp" and "0 \<le> sysVariation cp"
  shows "\<bar>x - price cp\<bar> \<le> planetVariation cp + sysVariation cp"
proof -
  have "\<bar>sysVariation cp * sin (2 * pi * t / sysPeriod cp)\<bar> \<le> sysVariation cp"
    using assms(3) by (simp add: abs_mult mult_left_le)
  moreover have "\<bar>planetVariation cp * sin (2 * pi * t / planetPeriod cp)\<bar> \<le> planetVariation cp"
    using assms(2) by (simp add: abs_mult mult_left_le)
  ultimately show ?thesis
    using assms(1) by (auto simp: price_at_def split: if_splits)
qed

lemma getPriceAtTime_entry:
  assumes "wf_planet cat p" and "k \<in> set (econ_comm cat)"
    and "commodity_name (commodity_stack cat ! k) \<noteq> None"
    and "find_idx (\<lambda>j. commodity_name (commodity_stack cat ! j) = commodity_name (commodity_stack cat ! k))
           (commodities p) = Some i"
  shows "economy_getPriceAtTime cat k p tme =
           Inr (credits_of_price (price_at (commodityPrice p ! i) (real_of_int tme / 10000000)))"
proof -
  from assms(2) obtain x where "economy_commIndex cat k = Some x"
    by (cases "economy_commIndex cat k") (auto simp: economy_commIndex_None)
  with assms show ?thesis
    by (simp add: economy_getPriceAtTime_def planet_commodityIndex_wf ntime_stp)
qed

subsection \<open>Properties of the evaluator\<close>

text \<open>C1: when the commodity is priced, the planet trades it and both periods of the matching entry are non-zero, the price at time t is the rounded closed-form price of the first matching entry, with t converted from ntime to STP (1e7 units per STP).\<close>

theorem economy_getPriceAtTime_found:
  assumes "wf_planet cat p" and "k \<in> set (econ_comm cat)"
    and "commodity_name (commodity_stack cat ! k) \<noteq> None"
    and "find_idx (\<lambda>j. commodity_name (commodity_stack cat ! j) = commodity_name (commodity_stack cat ! k))
           (commodities p) = Some i"
    and "sysPeriod (commodityPrice p ! i) \<noteq> 0" and "planetPeriod (commodityPrice p ! i) \<noteq> 0"
  shows "economy_getPriceAtTime cat k p tme =
           Inr (econ_round (price (commodityPrice p ! i)
             + sysVariation (commodityPrice p ! i) * sin (2 * pi * (real_of_int tme / 10000000) / sysPeriod (commodityPrice p ! i))
             + planetVariation (commodityPrice p ! i) * sin (2 * pi * (real_of_int tme / 10000000) / planetPeriod (commodityPrice p ! i))))"
  using getPriceAtTime_entry [OF assms(1-4)] assms(5,6) by (simp add: price_at_finite credits_of_price_def)

text \<open>C22: a lookup miss is not a fault: an unpriced commodity, or one the planet does not trade, gives price 0.\<close>

theorem economy_getPriceAtTime_miss:
  "(k \<notin> set (econ_comm cat) \<longrightarrow> economy_getPriceAtTime cat k p tme = Inr 0) \<and>
   (wf_planet cat p \<and> commodity_name (commodity_stack cat ! k) \<noteq> None \<and>
    (\<forall>j\<in>set (commodities p). commodity_name (commodity_stack cat ! j) \<noteq> commodity_name (commodity_stack cat ! k))
    \<longrightarrow> economy_getPriceAtTime cat k p tme = Inr 0)"
proof (intro conjI impI)
  assume "k \<notin> set (econ_comm cat)"
  then have "economy_commIndex cat k = None" by (simp add: economy_commIndex_None)
  then show "economy_getPriceAtTime cat k p tme = Inr 0"
    by (simp add: economy_getPriceAtTime_def)
next
  assume a: "wf_planet cat p \<and> commodity_name (commodity_stack cat ! k) \<noteq> None \<and>
    (\<forall>j\<in>set (commodities p). commodity_name (commodity_stack cat ! j) \<noteq> commodity_name (commodity_stack cat ! k))"
  then have "planet_commodityIndex cat p (commodity_name (commodity_stack cat ! k)) = Inr None"
    by (simp add: planet_commodityIndex_wf econ_simps)
  then show "economy_getPriceAtTime cat k p tme = Inr 0"
    by (simp add: economy_getPriceAtTime_def split: option.split)
qed

text \<open>C2: with non-zero periods and non-negative amplitudes whose sum is at most the base price, the price returned is non-negative and within the amplitudes (plus half a credit of rounding) of the base price.\<close>

theorem economy_getPriceAtTime_bounds:
  assumes "economy_getPriceAtTime cat k p tme = Inr r"
    and "find_idx (\<lambda>j. commodity_name (commodity_stack cat ! j) = commodity_name (commodity_stack cat ! k))
           (commodities p) = Some i"
    and "wf_planet cat p" and "k \<in> set (econ_comm cat)"
    and "commodity_name (commodity_stack cat ! k) \<noteq> None"
    and "sysPeriod (commodityPrice p ! i) \<noteq> 0" and "planetPeriod (commodityPrice p ! i) \<noteq> 0"
    and "0 \<le> planetVariation (commodityPrice p ! i)" and "0 \<le> sysVariation (commodityPrice p ! i)"
    and "planetVariation (commodityPrice p ! i) + sysVariation (commodityPrice p ! i) \<le> price (commodityPrice p ! i)"
  shows "0 \<le> r \<and> \<bar>of_int r - price (commodityPrice p ! i)\<bar>
                    \<le> planetVariation (commodityPrice p ! i) + sysVariation (commodityPrice p ! i) + 1/2"
proof -
  let ?cp = "commodityPrice p ! i" and ?t = "real_of_int tme / 10000000"
  obtain x where x: "price_at ?cp ?t = Some x"
    using assms(6,7) by (simp add: price_at_def)
  have r: "r = econ_round x"
    using assms(1) getPriceAtTime_entry [OF assms(3,4,5,2)] x by (simp add: credits_of_price_def)
  have dev: "\<bar>x - price ?cp\<bar> \<le> planetVariation ?cp + sysVariation ?cp"
    using x assms(8,9) by (rule price_at_dev)
  then have "0 \<le> x" using assms(10) by linarith
  then have "r = \<lfloor>x + 1/2\<rfloor>"
    using r by (simp add: econ_round_nonneg_floor)
  with dev \<open>0 \<le> x\<close> show ?thesis
    by linarith
qed

text \<open>C3: shifting the time by a common multiple of both periods leaves the price unchanged.\<close>

theorem economy_getPriceAtTime_periodic:
  assumes "wf_planet cat p" and "k \<in> set (econ_comm cat)"
    and "commodity_name (commodity_stack cat ! k) \<noteq> None"
    and "find_idx (\<lambda>j. commodity_name (commodity_stack cat ! j) = commodity_name (commodity_stack cat ! k))
           (commodities p) = Some i"
    and "0 < planetPeriod (commodityPrice p ! i)" and "0 < sysPeriod (commodityPrice p ! i)"
    and "real_of_int d / 10000000 = of_int m1 * planetPeriod (commodityPrice p ! i)"
    and "real_of_int d / 10000000 = of_int m2 * sysPeriod (commodityPrice p ! i)"
  shows "economy_getPriceAtTime cat k p (tme + d) = economy_getPriceAtTime cat k p tme"
proof -
  have t: "real_of_int (tme + d) / 10000000 = real_of_int tme / 10000000 + real_of_int d / 10000000"
    by (simp add: add_divide_distrib)
  have "price_at (commodityPrice p ! i) (real_of_int tme / 10000000 + real_of_int d / 10000000) =
        price_at (commodityPrice p ! i) (real_of_int tme / 10000000)"
    using assms(5-8) by (rule price_at_shift)
  then show ?thesis
    using getPriceAtTime_entry [OF assms(1-4), of "tme + d"]
      getPriceAtTime_entry [OF assms(1-4), of tme]
    by (simp only: t)
qed

text \<open>C23: the +0.5 cast rounds towards zero below -0.5: a price formula that evaluates to a negative whole number v is returned as v + 1, not as round(v) = v.\<close>

theorem economy_getPriceAtTime_negative_rounding:
  assumes "wf_planet cat p" and "k \<in> set (econ_comm cat)"
    and "commodity_name (commodity_stack cat ! k) \<noteq> None"
    and "find_idx (\<lambda>j. commodity_name (commodity_stack cat ! j) = commodity_name (commodity_stack cat ! k))
           (commodities p) = Some i"
    and "price_at (commodityPrice p ! i) (real_of_int tme / 10000000) = Some (of_int v)" and "v < 0"
  shows "economy_getPriceAtTime cat k p tme = Inr (v + 1)"
  using getPriceAtTime_entry [OF assms(1-4)] assms(5,6) by (simp add: credits_of_price_def econ_round_neg_int)

text \<open>C36: a zero period of the matching entry (a catalog period of -100 gives a zero planet period) makes the price formula NaN at every time, and the price returned is the cast of NaN, INT64_MIN, not a price.\<close>

theorem economy_getPriceAtTime_zero_period:
  assumes "wf_planet cat p" and "k \<in> set (econ_comm cat)"
    and "commodity_name (commodity_stack cat ! k) \<noteq> None"
    and "find_idx (\<lambda>j. commodity_name (commodity_stack cat ! j) = commodity_name (commodity_stack cat ! k))
           (commodities p) = Some i"
    and "sysPeriod (commodityPrice p ! i) = 0 \<or> planetPeriod (commodityPrice p ! i) = 0"
  shows "economy_getPriceAtTime cat k p tme = Inr (- 9223372036854775808)"
  using getPriceAtTime_entry [OF assms(1-4)] assms(5) by (simp add: credits_of_price_def price_at_def)

end
