(* ===== verification/Observation.thy ===== *)
theory Observation
  imports Price_Eval
begin

text \<open>
  The observation tracker (src/src/economy.c): \<open>economy_averageSeenPricesAtTime\<close>
  and \<open>economy_averageSeenPrices\<close> accumulate count, sum and sum of squares of the
  prices the player sees at a planet; \<open>economy_getAveragePlanetPrice\<close> and
  \<open>economy_getAveragePrice\<close> read mean and standard deviation back;
  \<open>economy_clearKnown\<close> resets them. The squares are \<open>credits_t\<close> products and
  \<open>cnt*cnt\<close> is an \<open>int\<close> product, both wrapping (\<open>int64_mul\<close>,
  \<open>int32_mul\<close>). A standard deviation that C computes as NaN or infinity
  (\<open>sqrt\<close> of a negative number, division by a zero \<open>int\<close>) is \<open>None\<close>.
\<close>

subsection \<open>C arithmetic on doubles\<close>

text \<open>\<open>None\<close> stands for a non-finite double (NaN or an infinity), which
  every later operation keeps non-finite.\<close>

definition c_sqrt :: "real \<Rightarrow> real option" where
  "c_sqrt x = (if x < 0 then None else Some (sqrt x))"

definition c_div_int :: "real \<Rightarrow> int \<Rightarrow> real option" where
  "c_div_int x n = (if n = 0 then None else Some (x / of_int n))"

subsection \<open>Recording what the player sees\<close>

text \<open>
  One iteration of the loop of \<open>economy_averageSeenPricesAtTime\<close>: the guard
  compares with the current time \<open>now\<close> (\<open>ntime_get()\<close>), the timestamp and
  count are written first, then the price at \<open>tupdate\<close> is read from the planet
  and added.
\<close>

definition seen_step :: "catalog \<Rightarrow> ntime \<Rightarrow> ntime \<Rightarrow> nat \<Rightarrow> Planet \<Rightarrow> c_fault + Planet" where
  "seen_step cat now tupdate i p =
     (let cp = commodityPrice p ! i in
      if updateTime cp < now then
        (let cp1 = cp\<lparr>updateTime := now, cnt := cnt cp + 1\<rparr>;
             p1 = p\<lparr>commodityPrice := (commodityPrice p)[i := cp1]\<rparr>
         in case economy_getPriceAtTime cat (commodities p ! i) p1 tupdate of
              Inl e \<Rightarrow> Inl e
            | Inr pr \<Rightarrow>
                Inr (p\<lparr>commodityPrice := (commodityPrice p)[i :=
                       cp1\<lparr>cp_sum := cp_sum cp + of_int pr,
                           cp_sum2 := cp_sum2 cp + of_int (int64_mul pr pr)\<rparr>]\<rparr>))
      else Inr p)"

fun seen_loop :: "catalog \<Rightarrow> ntime \<Rightarrow> ntime \<Rightarrow> nat list \<Rightarrow> Planet \<Rightarrow> c_fault + Planet" where
  "seen_loop cat now tupdate [] p = Inr p"
| "seen_loop cat now tupdate (i # is) p =
     (case seen_step cat now tupdate i p of
        Inl e \<Rightarrow> Inl e
      | Inr p' \<Rightarrow> seen_loop cat now tupdate is p')"

definition economy_averageSeenPricesAtTime :: "catalog \<Rightarrow> ntime \<Rightarrow> Planet \<Rightarrow> ntime \<Rightarrow> c_fault + Planet" where
  "economy_averageSeenPricesAtTime cat now p tupdate =
     seen_loop cat now tupdate [0..<length (commodities p)] p"

text \<open>\<open>economy_averageSeenPrices\<close> prices at \<open>ntime_get()\<close> itself.\<close>

definition economy_averageSeenPrices :: "catalog \<Rightarrow> ntime \<Rightarrow> Planet \<Rightarrow> c_fault + Planet" where
  "economy_averageSeenPrices cat now p = economy_averageSeenPricesAtTime cat now p now"

subsection \<open>Mean and standard deviation at one planet\<close>

text \<open>
  The result triple is the return code, \<open>*mean\<close> and \<open>*std\<close>.
  \<open>sum2/cnt - (sum*sum)/(cnt*cnt)\<close> divides by the wrapped \<open>int\<close> product.
\<close>

definition obs_std :: "CommodityPrice \<Rightarrow> real option" where
  "obs_std cp =
     (let n2 = int32_mul (cnt cp) (cnt cp) in
      case c_div_int (cp_sum cp * cp_sum cp) n2 of
        None \<Rightarrow> None
      | Some q \<Rightarrow> c_sqrt (cp_sum2 cp / of_int (cnt cp) - q))"

definition economy_getAveragePlanetPrice ::
  "catalog \<Rightarrow> nat \<Rightarrow> Planet \<Rightarrow> c_fault + (int \<times> credits \<times> real option)" where
  "economy_getAveragePlanetPrice cat k p =
     (case economy_commIndex cat k of
        None \<Rightarrow> Inr (-1, 0, Some 0)
      | Some _ \<Rightarrow>
          (case planet_commodityIndex cat p (commodity_name (commodity_stack cat ! k)) of
             Inl e \<Rightarrow> Inl e
           | Inr None \<Rightarrow> Inr (-1, 0, Some 0)
           | Inr (Some i) \<Rightarrow>
               (let cp = commodityPrice p ! i in
                if 0 < cnt cp
                then Inr (0, econ_round (cp_sum cp / of_int (cnt cp)), obs_std cp)
                else Inr (0, 0, Some 0))))"

subsection \<open>Mean and deviation over the galaxy\<close>

text \<open>
  The accumulators \<open>av\<close>, \<open>av2\<close>, \<open>cnt\<close> of \<open>economy_getAveragePrice\<close>, and one
  planet's contribution: its mean and the square of its mean, when it has been seen.
\<close>

record galaxy_acc =
  g_av :: real
  g_av2 :: "real option"
  g_cnt :: int

definition galaxy_planet :: "catalog \<Rightarrow> string option \<Rightarrow> Planet \<Rightarrow> galaxy_acc \<Rightarrow> c_fault + galaxy_acc" where
  "galaxy_planet cat n p acc =
     (case planet_commodityIndex cat p n of
        Inl e \<Rightarrow> Inl e
      | Inr None \<Rightarrow> Inr acc
      | Inr (Some i) \<Rightarrow>
          (let cp = commodityPrice p ! i in
           if 0 < cnt cp
           then Inr \<lparr>g_av = g_av acc + cp_sum cp / of_int (cnt cp),
                     g_av2 = (case (g_av2 acc, c_div_int (cp_sum cp * cp_sum cp) (int32_mul (cnt cp) (cnt cp))) of
                                (Some a, Some b) \<Rightarrow> Some (a + b) | _ \<Rightarrow> None),
                     g_cnt = g_cnt acc + 1\<rparr>
           else Inr acc))"

fun galaxy_loop :: "catalog \<Rightarrow> string option \<Rightarrow> Planet list \<Rightarrow> galaxy_acc \<Rightarrow> c_fault + galaxy_acc" where
  "galaxy_loop cat n [] acc = Inr acc"
| "galaxy_loop cat n (p # ps) acc =
     (case galaxy_planet cat n p acc of
        Inl e \<Rightarrow> Inl e
      | Inr acc' \<Rightarrow> galaxy_loop cat n ps acc')"

definition economy_getAveragePrice ::
  "catalog \<Rightarrow> nat \<Rightarrow> StarSystem list \<Rightarrow> c_fault + (int \<times> credits \<times> real option)" where
  "economy_getAveragePrice cat k ss =
     (case economy_commIndex cat k of
        None \<Rightarrow> Inr (1, 0, Some 0)
      | Some _ \<Rightarrow>
          (case galaxy_loop cat (commodity_name (commodity_stack cat ! k)) (concat (map planets ss))
                  \<lparr>g_av = 0, g_av2 = Some 0, g_cnt = 0\<rparr> of
             Inl e \<Rightarrow> Inl e
           | Inr acc \<Rightarrow>
               if 0 < g_cnt acc
               then (let av = g_av acc / of_int (g_cnt acc)
                     in Inr (0, econ_round av,
                             case g_av2 acc of
                               None \<Rightarrow> None
                             | Some a2 \<Rightarrow> c_sqrt (a2 / of_int (g_cnt acc) - av * av)))
               else Inr (0, econ_round 0, g_av2 acc)))"

subsection \<open>Forgetting\<close>

definition clear_price :: "CommodityPrice \<Rightarrow> CommodityPrice" where
  "clear_price cp = cp\<lparr>cnt := 0, cp_sum := 0, cp_sum2 := 0, updateTime := 0\<rparr>"

definition economy_clearKnown :: "catalog \<Rightarrow> StarSystem list \<Rightarrow> catalog \<times> StarSystem list" where
  "economy_clearKnown cat ss =
     (cat\<lparr>commodity_stack := map (\<lambda>c. c\<lparr>lastPurchasePrice := 0\<rparr>) (commodity_stack cat)\<rparr>,
      map (\<lambda>s. s\<lparr>planets := map (\<lambda>p. p\<lparr>commodityPrice := map clear_price (commodityPrice p)\<rparr>)
                                (planets s)\<rparr>) ss)"

subsection \<open>Reference semantics of the accumulators\<close>

text \<open>
  The price parameters an entry's price depends on; what recording one price does to
  one entry; the price recorded for entry \<open>i\<close>; the planet after the first \<open>m\<close>
  iterations; and the invariant of accumulators that come from real observations.
\<close>

definition price_params :: "CommodityPrice \<Rightarrow> real \<times> real \<times> real \<times> real \<times> real" where
  "price_params cp = (price cp, planetPeriod cp, sysPeriod cp, planetVariation cp, sysVariation cp)"

definition record_obs :: "ntime \<Rightarrow> credits \<Rightarrow> CommodityPrice \<Rightarrow> CommodityPrice" where
  "record_obs now pr cp =
     (if updateTime cp < now
      then cp\<lparr>updateTime := now, cnt := cnt cp + 1, cp_sum := cp_sum cp + of_int pr,
              cp_sum2 := cp_sum2 cp + of_int (int64_mul pr pr)\<rparr>
      else cp)"

definition seen_price :: "catalog \<Rightarrow> Planet \<Rightarrow> ntime \<Rightarrow> nat \<Rightarrow> credits" where
  "seen_price cat p tupdate i = projr (economy_getPriceAtTime cat (commodities p ! i) p tupdate)"

definition seen_upto :: "catalog \<Rightarrow> ntime \<Rightarrow> ntime \<Rightarrow> Planet \<Rightarrow> nat \<Rightarrow> Planet" where
  "seen_upto cat now tupdate p m =
     p\<lparr>commodityPrice := map (\<lambda>i. if i < m then record_obs now (seen_price cat p tupdate i) (commodityPrice p ! i)
                                 else commodityPrice p ! i) [0..<length (commodityPrice p)]\<rparr>"

definition obs_inv :: "CommodityPrice \<Rightarrow> bool" where
  "obs_inv cp \<longleftrightarrow> 0 \<le> cnt cp \<and> 0 \<le> cp_sum2 cp \<and> cp_sum cp * cp_sum cp \<le> of_int (cnt cp) * cp_sum2 cp"

subsection \<open>Lemmas\<close>

lemma price_at_params: "price_params a = price_params b \<Longrightarrow> price_at a t = price_at b t"
  by (simp add: price_params_def price_at_def)

lemma getPriceAtTime_params_cong:
  assumes "commodities q = commodities p"
    and "map price_params (commodityPrice q) = map price_params (commodityPrice p)"
    and "wf_planet cat p"
  shows "economy_getPriceAtTime cat k q t = economy_getPriceAtTime cat k p t"
proof -
  have pc: "planet_commodityIndex cat q n = planet_commodityIndex cat p n" for n
    using assms(1) by (simp add: planet_commodityIndex_def)
  have len: "length (commodityPrice q) = length (commodityPrice p)"
    using assms(2) map_eq_imp_length_eq by blast
  have "price_at (commodityPrice q ! i) x = price_at (commodityPrice p ! i) x"
    if "i < length (commodities p)" for i x
  proof (rule price_at_params)
    from that assms(3) have "i < length (commodityPrice p)" by (simp add: wf_planet_def)
    then show "price_params (commodityPrice q ! i) = price_params (commodityPrice p ! i)"
      using assms(2) len by (metis nth_map)
  qed
  moreover have "planet_commodityIndex cat p n = Inr (Some i) \<Longrightarrow> i < length (commodities p)" for n i
    unfolding planet_commodityIndex_def by (rule find_idx_e_Some_less)
  ultimately show ?thesis
    by (auto simp: economy_getPriceAtTime_def pc split: option.split sum.split)
qed

lemma getPriceAtTime_no_fault:
  assumes "wf_planet cat p" and "k \<in> set (commodities p)"
  shows "\<exists>r. economy_getPriceAtTime cat k p t = Inr r"
proof (cases "economy_commIndex cat k")
  case None
  then show ?thesis by (simp add: economy_getPriceAtTime_def)
next
  case (Some x)
  from assms have "commodity_name (commodity_stack cat ! k) \<noteq> None"
    by (simp add: wf_planet_def)
  with assms(1) Some show ?thesis
    by (simp add: economy_getPriceAtTime_def planet_commodityIndex_wf split: option.split)
qed

lemma seen_loop_append:
  "seen_loop cat now tupdate (xs @ ys) p =
     (case seen_loop cat now tupdate xs p of Inl e \<Rightarrow> Inl e | Inr p' \<Rightarrow> seen_loop cat now tupdate ys p')"
  by (induction xs arbitrary: p) (auto split: sum.split)

lemma price_params_record_obs [simp]: "price_params (record_obs now pr cp) = price_params cp"
  by (simp add: record_obs_def price_params_def)

lemma seen_upto_params:
  "map price_params (commodityPrice (seen_upto cat now tupdate p m)) = map price_params (commodityPrice p)"
  by (auto simp: seen_upto_def intro!: nth_equalityI)

lemma price_params_time_cnt [simp]: "price_params (cp\<lparr>updateTime := a, cnt := b\<rparr>) = price_params cp"
  by (simp add: price_params_def)

lemma commodities_seen_upto [simp]: "commodities (seen_upto cat now tupdate p m) = commodities p"
  by (simp add: seen_upto_def)

lemma seen_upto_update [simp]:
  "(seen_upto cat now tupdate p m)\<lparr>commodityPrice := xs\<rparr> = p\<lparr>commodityPrice := xs\<rparr>"
  by (simp add: seen_upto_def)

lemma seen_upto_eq: "seen_upto cat now tupdate p m = p\<lparr>commodityPrice := commodityPrice (seen_upto cat now tupdate p m)\<rparr>"
  by (simp add: seen_upto_def)

lemma seen_loop_upto:
  assumes wf: "wf_planet cat p" and "m \<le> length (commodities p)"
  shows "seen_loop cat now tupdate [0..<m] p = Inr (seen_upto cat now tupdate p m)"
  using assms(2)
proof (induction m)
  case 0
  have "seen_upto cat now tupdate p 0 = p" by (simp add: seen_upto_def map_nth)
  then show ?case by simp
next
  case (Suc m)
  let ?q = "seen_upto cat now tupdate p m" and ?cp = "commodityPrice p ! m"
  have len: "length (commodityPrice p) = length (commodities p)" using wf by (simp add: wf_planet_def)
  with Suc.prems have m: "m < length (commodityPrice p)" by simp
  have qm: "commodityPrice ?q ! m = ?cp" using m by (simp add: seen_upto_def)
  have qlen: "length (commodityPrice ?q) = length (commodityPrice p)" by (simp add: seen_upto_def)
  have step: "seen_step cat now tupdate m ?q = Inr (seen_upto cat now tupdate p (Suc m))"
  proof (cases "updateTime ?cp < now")
    case False
    then have "seen_upto cat now tupdate p (Suc m) = ?q"
      by (auto simp: seen_upto_def record_obs_def less_Suc_eq intro!: map_cong)
    with False show ?thesis by (simp add: seen_step_def qm)
  next
    case True
    let ?p1 = "?q\<lparr>commodityPrice := (commodityPrice ?q)[m := ?cp\<lparr>updateTime := now, cnt := cnt ?cp + 1\<rparr>]\<rparr>"
    have id: "(map price_params (commodityPrice p))[m := price_params ?cp] = map price_params (commodityPrice p)"
      using m by (metis list_update_id nth_map)
    have "map price_params (commodityPrice ?p1) = map price_params (commodityPrice p)"
      using seen_upto_params [of cat now tupdate p m] m qlen
      by (simp add: map_update qm id)
    then have "economy_getPriceAtTime cat (commodities p ! m) ?p1 tupdate =
               economy_getPriceAtTime cat (commodities p ! m) p tupdate"
      by (intro getPriceAtTime_params_cong wf) (simp_all add: seen_upto_def)
    also obtain r where "\<dots> = Inr r"
      using getPriceAtTime_no_fault [OF wf, of "commodities p ! m" tupdate] Suc.prems by auto
    finally have pr: "economy_getPriceAtTime cat (commodities p ! m) ?p1 tupdate = Inr r" .
    have r: "seen_price cat p tupdate m = r"
      using \<open>economy_getPriceAtTime cat (commodities p ! m) p tupdate = Inr r\<close>
      by (simp add: seen_price_def)
    have "(commodityPrice ?q)[m := ?cp\<lparr>updateTime := now, cnt := cnt ?cp + 1, cp_sum := cp_sum ?cp + of_int r,
            cp_sum2 := cp_sum2 ?cp + of_int (int64_mul r r)\<rparr>] =
          commodityPrice (seen_upto cat now tupdate p (Suc m))"
      using True m r by (auto simp: seen_upto_def record_obs_def less_Suc_eq intro!: nth_equalityI)
    then show ?thesis
      using True pr by (subst seen_upto_eq) (simp add: seen_step_def qm Let_def)
  qed
  from Suc show ?case
    by (simp add: seen_loop_append step)
qed

lemma seen_loop_noop:
  "(\<forall>i\<in>set is. now \<le> updateTime (commodityPrice q ! i)) \<Longrightarrow> seen_loop cat now tupdate is q = Inr q"
  by (induction "is") (auto simp: seen_step_def)

lemma seen_upto_full:
  assumes "wf_planet cat p"
  shows "seen_upto cat now tupdate p (length (commodities p)) =
    p\<lparr>commodityPrice := map (\<lambda>i. record_obs now (seen_price cat p tupdate i) (commodityPrice p ! i))
                                [0..<length (commodities p)]\<rparr>"
  using assms by (auto simp: seen_upto_def wf_planet_def intro!: map_cong)

lemma averageSeen_eq:
  assumes "wf_planet cat p"
  shows "economy_averageSeenPricesAtTime cat now p tupdate =
    Inr (p\<lparr>commodityPrice := map (\<lambda>i. record_obs now (seen_price cat p tupdate i) (commodityPrice p ! i))
                                [0..<length (commodities p)]\<rparr>)"
  using seen_loop_upto [OF assms order_refl] seen_upto_full [OF assms]
  by (simp add: economy_averageSeenPricesAtTime_def)

lemma record_obs_time: "now \<le> updateTime (record_obs now pr cp)"
  by (simp add: record_obs_def)

lemma int64_mul_square:
  assumes "\<bar>x\<bar> \<le> 3037000499"
  shows "int64_mul x x = x * x"
proof (rule int64_mul_exact)
  have "x * x = \<bar>x\<bar> * \<bar>x\<bar>" by (simp add: abs_mult_self_eq)
  also have "\<dots> \<le> 3037000499 * 3037000499"
    using assms by (intro mult_mono) auto
  finally show "x * x < 2 ^ 63" by simp
  have "0 \<le> x * x" by simp
  then show "- (2 ^ 63) \<le> x * x" by (rule order_trans [rotated]) simp
qed

lemma sum_square_step:
  fixes n s q x :: real
  assumes "0 \<le> n" and "0 \<le> q" and "s * s \<le> n * q"
  shows "(s + x) * (s + x) \<le> (n + 1) * (q + x * x)"
proof (cases "n = 0")
  case True
  with assms(3) have "s * s \<le> 0" by simp
  moreover have "0 \<le> s * s" by simp
  ultimately have "s = 0" by simp
  with assms(2) True show ?thesis by simp
next
  case False
  with assms(1) have n: "0 < n" by simp
  have "0 \<le> (n * x - s) * (n * x - s)" by simp
  then have "n * (2 * s * x) \<le> n * (n * x * x + q)"
    using assms(3) by (simp add: algebra_simps)
  then have "2 * s * x \<le> n * x * x + q"
    using n by simp
  then show ?thesis
    using assms(3) by (simp add: algebra_simps)
qed

lemma record_obs_inv:
  assumes "obs_inv cp" and "\<bar>pr\<bar> \<le> 3037000499"
  shows "obs_inv (record_obs now pr cp)"
proof (cases "updateTime cp < now")
  case True
  have sq: "of_int (int64_mul pr pr) = (of_int pr * of_int pr :: real)"
    using int64_mul_square [OF assms(2)] by simp
  have "(cp_sum cp + of_int pr) * (cp_sum cp + of_int pr) \<le>
        (of_int (cnt cp) + 1) * (cp_sum2 cp + of_int pr * of_int pr)"
    using assms(1) by (intro sum_square_step) (simp_all add: obs_inv_def)
  with True assms(1) show ?thesis
    by (simp add: obs_inv_def record_obs_def sq)
next
  case False
  with assms(1) show ?thesis by (simp add: record_obs_def)
qed

lemma getAveragePlanetPrice_entry:
  assumes "wf_planet cat p" and "k \<in> set (econ_comm cat)"
    and "commodity_name (commodity_stack cat ! k) \<noteq> None"
    and "find_idx (\<lambda>j. commodity_name (commodity_stack cat ! j) = commodity_name (commodity_stack cat ! k))
           (commodities p) = Some i"
  shows "economy_getAveragePlanetPrice cat k p =
    (let cp = commodityPrice p ! i in
     if 0 < cnt cp then Inr (0, econ_round (cp_sum cp / of_int (cnt cp)), obs_std cp) else Inr (0, 0, Some 0))"
proof -
  from assms(2) obtain x where "economy_commIndex cat k = Some x"
    by (cases "economy_commIndex cat k") (auto simp: economy_commIndex_None)
  with assms show ?thesis
    by (simp add: economy_getAveragePlanetPrice_def planet_commodityIndex_wf Let_def)
qed

lemma wf_planet_prices_update:
  "wf_planet cat p \<Longrightarrow> length xs = length (commodities p) \<Longrightarrow> wf_planet cat (p\<lparr>commodityPrice := xs\<rparr>)"
  by (simp add: wf_planet_def)

subsection \<open>Properties of the tracker\<close>

text \<open>C17: recording the prices seen at a planet never faults on a well-formed planet, and updates exactly the entries whose timestamp is older than the current time: each gets the current time, one more count, the price at tupdate added to the sum and its (64-bit) square to the sum of squares; the other entries are unchanged.\<close>

theorem economy_averageSeenPricesAtTime_result:
  assumes "wf_planet cat p"
  shows "economy_averageSeenPricesAtTime cat now p tupdate =
    Inr (p\<lparr>commodityPrice := map (\<lambda>i. record_obs now (seen_price cat p tupdate i) (commodityPrice p ! i))
                                [0..<length (commodities p)]\<rparr>)"
  using assms by (rule averageSeen_eq)

text \<open>C18: recording twice at the same current time changes the accumulators at most once: the second call returns the planet unchanged, whatever time it prices at.\<close>

theorem economy_averageSeenPricesAtTime_idem:
  assumes "wf_planet cat p" and "economy_averageSeenPricesAtTime cat now p tupdate = Inr p'"
  shows "economy_averageSeenPricesAtTime cat now p' tupdate' = Inr p'"
proof -
  have p': "p' = seen_upto cat now tupdate p (length (commodities p))"
    using assms seen_loop_upto [OF assms(1) order_refl] by (simp add: economy_averageSeenPricesAtTime_def)
  have len: "length (commodityPrice p) = length (commodities p)"
    using assms(1) by (simp add: wf_planet_def)
  have "\<forall>i\<in>set [0..<length (commodities p')]. now \<le> updateTime (commodityPrice p' ! i)"
    using len by (simp add: p' seen_upto_def record_obs_time)
  then show ?thesis
    by (simp add: economy_averageSeenPricesAtTime_def seen_loop_noop)
qed

text \<open>C20: for accumulators that come from real observations (sum squared at most count times sum of squares) and at most 46340 observations, the standard deviation reported is the population standard deviation of the observations, and the square root is taken of a non-negative number.\<close>

theorem obs_std_correct:
  assumes "obs_inv cp" and "0 < cnt cp" and "cnt cp \<le> 46340"
  shows "0 \<le> cp_sum2 cp / of_int (cnt cp) - (cp_sum cp / of_int (cnt cp))\<^sup>2 \<and>
         obs_std cp = Some (sqrt (cp_sum2 cp / of_int (cnt cp) - (cp_sum cp / of_int (cnt cp))\<^sup>2))"
proof -
  let ?n = "of_int (cnt cp) :: real"
  have "cnt cp * cnt cp \<le> 46340 * 46340"
    using assms(2,3) by (intro mult_mono) auto
  then have hi: "cnt cp * cnt cp < 2 ^ 31" by simp
  have "0 \<le> cnt cp * cnt cp" by simp
  then have lo: "- (2 ^ 31) \<le> cnt cp * cnt cp" by (rule order_trans [rotated]) simp
  from lo hi have n2: "int32_mul (cnt cp) (cnt cp) = cnt cp * cnt cp"
    by (rule int32_mul_exact)
  have pos: "0 < ?n" using assms(2) by simp
  have eq: "cp_sum2 cp / ?n - (cp_sum cp / ?n)\<^sup>2 = (?n * cp_sum2 cp - cp_sum cp * cp_sum cp) / (?n * ?n)"
    using pos by (simp add: field_simps power2_eq_square)
  have "0 \<le> (?n * cp_sum2 cp - cp_sum cp * cp_sum cp) / (?n * ?n)"
    using assms(1) by (simp add: obs_inv_def)
  then have nonneg: "0 \<le> cp_sum2 cp / ?n - (cp_sum cp / ?n)\<^sup>2" by (simp only: eq)
  have "cp_sum cp * cp_sum cp / of_int (cnt cp * cnt cp) = (cp_sum cp / ?n)\<^sup>2"
    by (simp add: power2_eq_square)
  with nonneg pos show ?thesis
    by (simp add: obs_std_def n2 c_div_int_def c_sqrt_def)
qed

text \<open>C19: after exactly one observation of a non-negative price P at a fresh entry, the planet average is (0, P, 0): success, mean P, deviation 0.\<close>

theorem economy_getAveragePlanetPrice_one_observation:
  assumes wf: "wf_planet cat p" and k: "k \<in> set (econ_comm cat)"
    and named: "commodity_name (commodity_stack cat ! k) \<noteq> None"
    and i: "find_idx (\<lambda>j. commodity_name (commodity_stack cat ! j) = commodity_name (commodity_stack cat ! k))
             (commodities p) = Some i"
    and ki: "commodities p ! i = k"
    and fresh: "cnt (commodityPrice p ! i) = 0" "cp_sum (commodityPrice p ! i) = 0"
      "cp_sum2 (commodityPrice p ! i) = 0" "updateTime (commodityPrice p ! i) < now"
    and pr: "economy_getPriceAtTime cat k p tupdate = Inr P" and "0 \<le> P" and "P \<le> 3037000499"
    and seen: "economy_averageSeenPricesAtTime cat now p tupdate = Inr p'"
  shows "economy_getAveragePlanetPrice cat k p' = Inr (0, P, Some 0)"
proof -
  let ?cps = "map (\<lambda>i. record_obs now (seen_price cat p tupdate i) (commodityPrice p ! i)) [0..<length (commodities p)]"
  have p': "p' = p\<lparr>commodityPrice := ?cps\<rparr>"
    using seen averageSeen_eq [OF wf] by simp
  have il: "i < length (commodities p)"
    using find_idx_Some [OF i] by simp
  have "seen_price cat p tupdate i = P"
    using pr ki by (simp add: seen_price_def)
  then have cp': "commodityPrice p' ! i = (commodityPrice p ! i)\<lparr>updateTime := now, cnt := 1,
      cp_sum := of_int P, cp_sum2 := of_int (int64_mul P P)\<rparr>"
    using il fresh by (simp add: p' record_obs_def)
  have sq: "int64_mul P P = P * P"
    using \<open>0 \<le> P\<close> \<open>P \<le> 3037000499\<close> by (intro int64_mul_square) simp
  have wf': "wf_planet cat p'"
    using wf by (simp add: p' wf_planet_prices_update)
  have i': "find_idx (\<lambda>j. commodity_name (commodity_stack cat ! j) = commodity_name (commodity_stack cat ! k))
             (commodities p') = Some i"
    using i by (simp add: p')
  have "obs_std (commodityPrice p' ! i) = Some 0"
    by (simp add: cp' obs_std_def int32_mul_eq c_div_int_def c_sqrt_def sq)
  then show ?thesis
    using getAveragePlanetPrice_entry [OF wf' k named i'] cp' \<open>0 \<le> P\<close>
    by (simp add: econ_round_of_int_nonneg)
qed

text \<open>C21: the int product cnt*cnt wraps at 46341 observations: 46341 observations of the same price 100 are reported with a standard deviation above 100 instead of 0.\<close>

theorem obs_std_count_wrap:
  "obs_inv (cp\<lparr>cnt := 46341, cp_sum := 4634100, cp_sum2 := 463410000\<rparr>) \<and>
   (\<exists>s. obs_std (cp\<lparr>cnt := 46341, cp_sum := 4634100, cp_sum2 := 463410000\<rparr>) = Some s \<and> 100 < s)"
proof -
  have n2: "int32_mul 46341 46341 = -2147479015" by (simp add: int32_mul_eq)
  let ?a = "463410000 / 46341 - 4634100 * 4634100 / (- 2147479015) :: real"
  have a: "10000 < ?a" by simp
  then have "100 < sqrt ?a" by (intro real_less_rsqrt) simp
  moreover have "obs_std (cp\<lparr>cnt := 46341, cp_sum := 4634100, cp_sum2 := 463410000\<rparr>) = Some (sqrt ?a)"
    using a by (simp add: obs_std_def n2 c_div_int_def c_sqrt_def)
  ultimately show ?thesis
    by (simp add: obs_inv_def)
qed

text \<open>C24: an entry with no observation reports mean 0, deviation 0 and the success code 0, the same result as one observation of price 0; the return code does not say "not observed".\<close>

theorem economy_getAveragePlanetPrice_unobserved:
  assumes "wf_planet cat p" and "k \<in> set (econ_comm cat)"
    and "commodity_name (commodity_stack cat ! k) \<noteq> None"
    and "find_idx (\<lambda>j. commodity_name (commodity_stack cat ! j) = commodity_name (commodity_stack cat ! k))
           (commodities p) = Some i"
    and "cnt (commodityPrice p ! i) = 0"
  shows "economy_getAveragePlanetPrice cat k p = Inr (0, 0, Some 0)"
  using getAveragePlanetPrice_entry [OF assms(1-4)] assms(5) by simp

text \<open>C27: economy_clearKnown zeroes every accumulator and timestamp and every last purchase price, and changes neither the priced set, the commodity names nor any price parameter.\<close>

theorem economy_clearKnown_resets:
  assumes "economy_clearKnown cat ss = (cat', ss')"
  shows "(\<forall>c\<in>set (commodity_stack cat'). lastPurchasePrice c = 0) \<and>
         (\<forall>s\<in>set ss'. \<forall>p\<in>set (planets s). \<forall>cp\<in>set (commodityPrice p).
            cnt cp = 0 \<and> cp_sum cp = 0 \<and> cp_sum2 cp = 0 \<and> updateTime cp = 0) \<and>
         econ_comm cat' = econ_comm cat \<and>
         map commodity_name (commodity_stack cat') = map commodity_name (commodity_stack cat) \<and>
         map (map (map price_params \<circ> commodityPrice) \<circ> planets) ss' =
           map (map (map price_params \<circ> commodityPrice) \<circ> planets) ss"
  using assms by (auto simp: economy_clearKnown_def clear_price_def price_params_def)

end
