(* ===== verification/Network.thy ===== *)
theory Network
  imports Universe
begin

text \<open>
  The network model (src/src/economy.c, \<open>econ_calcJumpR\<close>) and the admittance
  matrix built from it (\<open>econ_createGMatrix\<close>). The faction relations
  \<open>areEnemies\<close>/\<open>areAllies\<close> of faction.c are an interface: a pair of
  predicates. The sparse matrix is the list of \<open>cs_entry\<close> triplets in the order
  the code enters them, and every jump enters the same position twice. Two
  readings of the list are kept: \<open>coo_entry\<close> sums duplicates (the matrix a
  triplet matrix denotes, and what \<open>cs_dupl\<close> would build), and \<open>coo_last\<close>
  keeps the last triplet at each position, which is what \<open>cs_qr\<close> reads from
  the compressed matrix that \<open>cs_qrsol\<close> is given (the code never calls
  \<open>cs_dupl\<close>). A matrix is read as a function of row and column over \<open>0..<n\<close>.
\<close>

record faction_rel =
  areEnemies :: "int \<Rightarrow> int \<Rightarrow> bool"
  areAllies :: "int \<Rightarrow> int \<Rightarrow> bool"

definition ECON_BASE_RES :: real where "ECON_BASE_RES = 30"

definition ECON_SELF_RES :: real where "ECON_SELF_RES = 3"

definition ECON_FACTION_MOD :: real where "ECON_FACTION_MOD = 1/10"

subsection \<open>Resistance of a jump\<close>

definition econ_calcJumpR :: "faction_rel \<Rightarrow> StarSystem \<Rightarrow> StarSystem \<Rightarrow> real" where
  "econ_calcJumpR fr A B =
     (let R = ECON_BASE_RES
              + (nebu_density A + nebu_density B) / 1000
              + (nebu_volatility A + nebu_volatility B) / 100
      in if sys_faction A \<noteq> -1 \<and> sys_faction B \<noteq> -1 then
           (if areEnemies fr (sys_faction A) (sys_faction B) then R + ECON_FACTION_MOD * ECON_BASE_RES
            else if areAllies fr (sys_faction A) (sys_faction B) then R - ECON_FACTION_MOD * ECON_BASE_RES
            else R)
         else R)"

subsection \<open>The admittance matrix\<close>

type_synonym triplet = "nat \<times> nat \<times> real"

text \<open>
  Row \<open>i\<close> of the fill loop: for every jump, the conductance \<open>1/R\<close> is entered
  at \<open>(i, target)\<close> and at \<open>(target, i)\<close> negated, and the row sum plus the
  self conductance \<open>1/ECON_SELF_RES\<close> on the diagonal.
\<close>

definition jump_conductances :: "faction_rel \<Rightarrow> StarSystem list \<Rightarrow> nat \<Rightarrow> (nat \<times> real) list" where
  "jump_conductances fr ss i = map (\<lambda>t. (t, 1 / econ_calcJumpR fr (ss ! i) (ss ! t))) (jumps (ss ! i))"

definition econ_row_entries :: "faction_rel \<Rightarrow> StarSystem list \<Rightarrow> nat \<Rightarrow> triplet list" where
  "econ_row_entries fr ss i =
     (let cs = jump_conductances fr ss i
      in concat (map (\<lambda>(t, c). [(i, t, - c), (t, i, - c)]) cs)
         @ [(i, i, sum_list (map snd cs) + 1 / ECON_SELF_RES)])"

definition econ_createGMatrix :: "faction_rel \<Rightarrow> StarSystem list \<Rightarrow> triplet list" where
  "econ_createGMatrix fr ss = concat (map (econ_row_entries fr ss) [0..<length ss])"

text \<open>The matrix a triplet list stands for: duplicates are summed.\<close>

definition coo_entry :: "triplet list \<Rightarrow> nat \<Rightarrow> nat \<Rightarrow> real" where
  "coo_entry M i j = sum_list (map (\<lambda>(r, c, v). if r = i \<and> c = j then v else 0) M)"

text \<open>
  The matrix \<open>cs_qrsol\<close> factorises. \<open>cs_compress\<close> keeps duplicate triplets,
  in their order, within each column, and the scatter \<open>x[i] = Ax[p]\<close> of
  \<open>cs_qr\<close> assigns them in turn: the last triplet entered at a position is
  the value read there.
\<close>

definition coo_last :: "triplet list \<Rightarrow> nat \<Rightarrow> nat \<Rightarrow> real" where
  "coo_last M i j =
     (let xs = filter (\<lambda>(r, c, v). r = i \<and> c = j) M in if xs = [] then 0 else snd (snd (last xs)))"

subsection \<open>Matrix predicates\<close>

definition mat_vec_row :: "(nat \<Rightarrow> nat \<Rightarrow> real) \<Rightarrow> nat \<Rightarrow> (nat \<Rightarrow> real) \<Rightarrow> nat \<Rightarrow> real" where
  "mat_vec_row A n x i = (\<Sum>j<n. A i j * x j)"

definition off_diag_sum :: "(nat \<Rightarrow> nat \<Rightarrow> real) \<Rightarrow> nat \<Rightarrow> nat \<Rightarrow> real" where
  "off_diag_sum A n i = sum_list (map (\<lambda>j. if j = i then 0 else \<bar>A i j\<bar>) [0..<n])"

definition diag_dominant :: "(nat \<Rightarrow> nat \<Rightarrow> real) \<Rightarrow> nat \<Rightarrow> bool" where
  "diag_dominant A n \<longleftrightarrow> (\<forall>i<n. off_diag_sum A n i < \<bar>A i i\<bar>)"

text \<open>The conductance flowing into system \<open>i\<close> from the jumps of the other systems.\<close>

definition incoming_conductance :: "faction_rel \<Rightarrow> StarSystem list \<Rightarrow> nat \<Rightarrow> real" where
  "incoming_conductance fr ss i =
     sum_list (map (\<lambda>k. sum_list (map (\<lambda>(t, c). if t = i then c else 0) (jump_conductances fr ss k)))
                   [0..<length ss])"

subsection \<open>Auxiliary definitions\<close>

definition out_to :: "(nat \<times> real) list \<Rightarrow> nat \<Rightarrow> real" where
  "out_to cs j = sum_list (map (\<lambda>(t, c). if t = j then c else 0) cs)"

definition wf_network :: "StarSystem list \<Rightarrow> bool" where
  "wf_network ss \<longleftrightarrow> (\<forall>i<length ss. (\<forall>t\<in>set (jumps (ss ! i)). t < length ss \<and> t \<noteq> i) \<and>
      0 \<le> nebu_density (ss ! i) \<and> 0 \<le> nebu_volatility (ss ! i))"

subsection \<open>Lemmas\<close>

lemma coo_entry_append [simp]: "coo_entry (xs @ ys) i j = coo_entry xs i j + coo_entry ys i j"
  by (simp add: coo_entry_def)

lemma coo_entry_Nil [simp]: "coo_entry [] i j = 0"
  by (simp add: coo_entry_def)

lemma coo_entry_Cons [simp]:
  "coo_entry ((r, c, v) # xs) i j = (if r = i \<and> c = j then v else 0) + coo_entry xs i j"
  by (simp add: coo_entry_def)

lemma coo_entry_concat: "coo_entry (concat xss) i j = sum_list (map (\<lambda>xs. coo_entry xs i j) xss)"
  by (induction xss) simp_all

lemma coo_entry_pairs:
  "coo_entry (concat (map (\<lambda>(t, c). [(k, t, - c), (t, k, - c)]) cs)) i j =
     (if k = i then - out_to cs j else 0) + (if k = j then - out_to cs i else 0)"
  by (induction cs) (auto simp: out_to_def)

lemma coo_entry_row:
  "coo_entry (econ_row_entries fr ss k) i j =
     (if k = i then - out_to (jump_conductances fr ss k) j else 0)
     + (if k = j then - out_to (jump_conductances fr ss k) i else 0)
     + (if k = i \<and> k = j then sum_list (map snd (jump_conductances fr ss k)) + 1 / ECON_SELF_RES else 0)"
  by (simp add: econ_row_entries_def Let_def coo_entry_pairs)

lemma coo_entry_G:
  "coo_entry (econ_createGMatrix fr ss) i j =
     sum_list (map (\<lambda>k. coo_entry (econ_row_entries fr ss k) i j) [0..<length ss])"
  by (simp add: econ_createGMatrix_def coo_entry_concat comp_def)

lemma G_symmetric:
  "coo_entry (econ_createGMatrix fr ss) i j = coo_entry (econ_createGMatrix fr ss) j i"
  unfolding coo_entry_G coo_entry_row by (rule arg_cong [where f = sum_list]) auto

lemma sum_list_map_upt: "sum_list (map f [0..<n]) = (\<Sum>k<n. f k :: real)"
  by (induction n) simp_all

lemma sum_list_delta_upt: "i < n \<Longrightarrow> sum_list (map (\<lambda>k. if k = i then f k else 0) [0..<n]) = (f i :: real)"
  by (subst sum_list_map_upt) simp

lemma econ_calcJumpR_ge:
  assumes "0 \<le> nebu_density A" "0 \<le> nebu_density B" "0 \<le> nebu_volatility A" "0 \<le> nebu_volatility B"
  shows "27 \<le> econ_calcJumpR fr A B"
  using assms by (simp add: econ_calcJumpR_def Let_def ECON_BASE_RES_def ECON_FACTION_MOD_def)

lemma jump_conductances_pos:
  assumes "wf_network ss" and "k < length ss" and "(t, c) \<in> set (jump_conductances fr ss k)"
  shows "0 < c \<and> t < length ss \<and> t \<noteq> k"
proof -
  from assms(3) have t: "t \<in> set (jumps (ss ! k))" and c: "c = 1 / econ_calcJumpR fr (ss ! k) (ss ! t)"
    by (auto simp: jump_conductances_def)
  with assms(1,2) have "t < length ss" "t \<noteq> k" by (auto simp: wf_network_def)
  moreover have "27 \<le> econ_calcJumpR fr (ss ! k) (ss ! t)"
    using assms(1,2) \<open>t < length ss\<close> by (intro econ_calcJumpR_ge) (auto simp: wf_network_def)
  ultimately show ?thesis using c by simp
qed

lemma out_to_nonneg: "\<forall>x\<in>set cs. 0 \<le> snd x \<Longrightarrow> 0 \<le> out_to cs j"
  unfolding out_to_def by (induction cs) auto

lemma out_to_none: "\<forall>x\<in>set cs. fst x \<noteq> j \<Longrightarrow> out_to cs j = 0"
  unfolding out_to_def by (induction cs) auto

lemma out_to_self:
  "wf_network ss \<Longrightarrow> k < length ss \<Longrightarrow> out_to (jump_conductances fr ss k) k = 0"
  by (rule out_to_none) (use jump_conductances_pos in fastforce)

lemma sum_out_to:
  "(\<And>t c. (t, c) \<in> set cs \<Longrightarrow> t < n) \<Longrightarrow> (\<Sum>j<n. out_to cs j) = sum_list (map snd cs)"
proof (induction cs)
  case Nil
  then show ?case by (simp add: out_to_def)
next
  case (Cons x cs)
  obtain t c where x: "x = (t, c)" by (cases x)
  with Cons.prems have "t < n" by auto
  have "(\<Sum>j<n. out_to ((t, c) # cs) j) = (\<Sum>j<n. (if t = j then c else 0)) + (\<Sum>j<n. out_to cs j)"
    by (simp add: out_to_def sum.distrib)
  also have "(\<Sum>j<n. out_to cs j) = sum_list (map snd cs)"
    by (rule Cons.IH) (use Cons.prems in auto)
  then have "(\<Sum>j<n. (if t = j then c else 0)) + (\<Sum>j<n. out_to cs j) = c + sum_list (map snd cs)"
    using \<open>t < n\<close> by simp
  finally show ?case using x by simp
qed

lemma G_diag:
  assumes "wf_network ss" and "i < length ss"
  shows "coo_entry (econ_createGMatrix fr ss) i i =
           sum_list (map snd (jump_conductances fr ss i)) + 1 / ECON_SELF_RES"
proof -
  have "coo_entry (econ_createGMatrix fr ss) i i =
        sum_list (map (\<lambda>k. if k = i then sum_list (map snd (jump_conductances fr ss k)) + 1 / ECON_SELF_RES else 0)
            [0..<length ss])"
    unfolding coo_entry_G
    using assms by (intro arg_cong [where f = sum_list] map_cong) (auto simp: coo_entry_row out_to_self)
  also have "\<dots> = sum_list (map snd (jump_conductances fr ss i)) + 1 / ECON_SELF_RES"
    using assms(2) by (rule sum_list_delta_upt)
  finally show ?thesis .
qed

lemma econ_createGMatrix_off:
  assumes "i < length ss" and "j < length ss" and "i \<noteq> j"
  shows "coo_entry (econ_createGMatrix fr ss) i j =
           - out_to (jump_conductances fr ss i) j - out_to (jump_conductances fr ss j) i"
proof -
  have "coo_entry (econ_createGMatrix fr ss) i j =
        sum_list (map (\<lambda>k. (if k = i then - out_to (jump_conductances fr ss k) j else 0)
                           + (if k = j then - out_to (jump_conductances fr ss k) i else 0)) [0..<length ss])"
    unfolding coo_entry_G
    using assms(3) by (intro arg_cong [where f = sum_list] map_cong) (auto simp: coo_entry_row)
  also have "\<dots> = sum_list (map (\<lambda>k. if k = i then - out_to (jump_conductances fr ss k) j else 0) [0..<length ss])
                  + sum_list (map (\<lambda>k. if k = j then - out_to (jump_conductances fr ss k) i else 0) [0..<length ss])"
    by (rule sum_list_addf)
  also have "\<dots> = - out_to (jump_conductances fr ss i) j - out_to (jump_conductances fr ss j) i"
    using assms(1,2) by (simp add: sum_list_delta_upt)
  finally show ?thesis .
qed

lemma incoming_conductance_eq:
  "incoming_conductance fr ss i = (\<Sum>k<length ss. out_to (jump_conductances fr ss k) i)"
  by (simp add: incoming_conductance_def out_to_def sum_list_map_upt)

lemma off_diag_sum_eq:
  "off_diag_sum A n i = (\<Sum>j<n. if j = i then 0 else \<bar>A i j\<bar>)"
  by (simp add: off_diag_sum_def sum_list_map_upt)

lemma jump_conductances_nonneg:
  "wf_network ss \<Longrightarrow> k < length ss \<Longrightarrow> \<forall>x\<in>set (jump_conductances fr ss k). 0 \<le> snd x"
  using jump_conductances_pos by fastforce

lemma G_dominant:
  assumes wf: "wf_network ss" and inc: "\<forall>i<length ss. incoming_conductance fr ss i < 1 / ECON_SELF_RES"
  shows "diag_dominant (coo_entry (econ_createGMatrix fr ss)) (length ss)"
  unfolding diag_dominant_def
proof (intro allI impI)
  fix i assume i: "i < length ss"
  let ?G = "coo_entry (econ_createGMatrix fr ss)" and ?n = "length ss"
  let ?o = "\<lambda>k j. out_to (jump_conductances fr ss k) j"
  have nn: "0 \<le> ?o k j" if "k < ?n" for k j
    using jump_conductances_nonneg [OF wf that] by (rule out_to_nonneg)
  have "off_diag_sum ?G ?n i = (\<Sum>j<?n. if j = i then 0 else ?o i j + ?o j i)"
    unfolding off_diag_sum_eq
  proof (rule sum.cong)
    fix j assume "j \<in> {..<?n}"
    then have j: "j < ?n" by simp
    have "\<bar>- a - b\<bar> = a + b" if "0 \<le> a" "0 \<le> b" for a b :: real
      using that by simp
    with nn [OF i, of j] nn [OF j, of i] show "(if j = i then 0 else \<bar>?G i j\<bar>) = (if j = i then 0 else ?o i j + ?o j i)"
      using i j by (simp add: econ_createGMatrix_off)
  qed simp
  also have "\<dots> \<le> (\<Sum>j<?n. ?o i j + ?o j i)"
    by (rule sum_mono) (use i nn in auto)
  also have "\<dots> = sum_list (map snd (jump_conductances fr ss i)) + incoming_conductance fr ss i"
    using jump_conductances_pos [OF wf i]
    by (simp add: sum.distrib incoming_conductance_eq sum_out_to)
  also have "\<dots> < sum_list (map snd (jump_conductances fr ss i)) + 1 / ECON_SELF_RES"
    using inc i by simp
  also have "\<dots> = \<bar>?G i i\<bar>"
  proof -
    have "0 \<le> sum_list (map snd (jump_conductances fr ss i))"
      by (rule sum_list_nonneg) (use jump_conductances_nonneg [OF wf i] in auto)
    then show ?thesis
      using G_diag [OF wf i] by (simp add: ECON_SELF_RES_def)
  qed
  finally show "off_diag_sum ?G ?n i < \<bar>?G i i\<bar>" .
qed

lemma off_diag_sum_remove:
  assumes "m < n"
  shows "off_diag_sum A n m = (\<Sum>j\<in>{..<n} - {m}. \<bar>A m j\<bar>)"
proof -
  have "off_diag_sum A n m = (if m = m then 0 else \<bar>A m m\<bar>) + (\<Sum>j\<in>{..<n} - {m}. if j = m then 0 else \<bar>A m j\<bar>)"
    unfolding off_diag_sum_eq by (rule sum.remove) (use assms in auto)
  also have "(\<Sum>j\<in>{..<n} - {m}. if j = m then 0 else \<bar>A m j\<bar>) = (\<Sum>j\<in>{..<n} - {m}. \<bar>A m j\<bar>)"
    by (rule sum.cong) auto
  then have "(if m = m then 0 else \<bar>A m m\<bar>) + (\<Sum>j\<in>{..<n} - {m}. if j = m then 0 else \<bar>A m j\<bar>) =
             (\<Sum>j\<in>{..<n} - {m}. \<bar>A m j\<bar>)"
    by simp
  finally show ?thesis .
qed

lemma abs_mult_le_cancel:
  fixes a b x :: real
  assumes "\<bar>a\<bar> * \<bar>x\<bar> \<le> b * \<bar>x\<bar>" and "b < \<bar>a\<bar>"
  shows "x = 0"
proof (rule ccontr)
  assume "x \<noteq> 0"
  then have "0 < \<bar>x\<bar>" by simp
  with assms(1) have "\<bar>a\<bar> \<le> b" by (rule mult_right_le_imp_le)
  with assms(2) show False by simp
qed

lemma diag_dominant_kernel:
  assumes dd: "diag_dominant A n" and z: "\<forall>i<n. mat_vec_row A n x i = 0"
  shows "\<forall>i<n. x i = 0"
proof (cases "n = 0")
  case True
  then show ?thesis by simp
next
  case False
  let ?S = "(\<lambda>j. \<bar>x j\<bar>) ` {..<n}"
  have "Max ?S \<in> ?S" using False by (intro Max_in) auto
  then obtain m where m: "m < n" and mx: "\<bar>x m\<bar> = Max ?S" by auto
  have le: "\<bar>x j\<bar> \<le> \<bar>x m\<bar>" if "j < n" for j
    using that mx by simp
  have split: "(\<Sum>j<n. A m j * x j) = A m m * x m + (\<Sum>j\<in>{..<n} - {m}. A m j * x j)"
    by (rule sum.remove) (use m in auto)
  have "A m m * x m = - (\<Sum>j\<in>{..<n} - {m}. A m j * x j)"
    using z m split by (simp add: mat_vec_row_def)
  then have "\<bar>A m m\<bar> * \<bar>x m\<bar> = \<bar>\<Sum>j\<in>{..<n} - {m}. A m j * x j\<bar>"
    by (metis abs_minus_cancel abs_mult)
  also have "\<dots> \<le> (\<Sum>j\<in>{..<n} - {m}. \<bar>A m j\<bar> * \<bar>x j\<bar>)"
    by (rule order_trans [OF sum_abs]) (simp add: abs_mult)
  also have "\<dots> \<le> (\<Sum>j\<in>{..<n} - {m}. \<bar>A m j\<bar> * \<bar>x m\<bar>)"
    by (rule sum_mono) (simp add: le mult_left_mono)
  also have "\<dots> = off_diag_sum A n m * \<bar>x m\<bar>"
    by (simp add: off_diag_sum_remove [OF m] sum_distrib_right)
  finally have ineq: "\<bar>A m m\<bar> * \<bar>x m\<bar> \<le> off_diag_sum A n m * \<bar>x m\<bar>" .
  have "off_diag_sum A n m < \<bar>A m m\<bar>" using dd m by (simp add: diag_dominant_def)
  with ineq have "x m = 0" by (rule abs_mult_le_cancel)
  with le show ?thesis by fastforce
qed

subsection \<open>Properties of the network model\<close>

text \<open>The resistance of a jump is the same in both directions when the faction relations are symmetric.\<close>

theorem econ_calcJumpR_symmetric:
  assumes "\<forall>a b. areEnemies fr a b = areEnemies fr b a" and "\<forall>a b. areAllies fr a b = areAllies fr b a"
  shows "econ_calcJumpR fr A B = econ_calcJumpR fr B A"
  using assms by (simp add: econ_calcJumpR_def Let_def add.commute)

text \<open>C34: with non-negative nebula density and volatility the resistance of a jump is at least 27 (the base 30 less the alliance bonus), so it is strictly positive and its conductance is finite.\<close>

theorem econ_calcJumpR_positive:
  assumes "0 \<le> nebu_density A" "0 \<le> nebu_density B" "0 \<le> nebu_volatility A" "0 \<le> nebu_volatility B"
  shows "27 \<le> econ_calcJumpR fr A B \<and> 0 < econ_calcJumpR fr A B"
proof -
  have "27 \<le> econ_calcJumpR fr A B" using assms by (rule econ_calcJumpR_ge)
  then show ?thesis by simp
qed

text \<open>C32: the matrix the triplets of econ_createGMatrix stand for is symmetric, for every universe.\<close>

theorem econ_createGMatrix_symmetric:
  "coo_entry (econ_createGMatrix fr ss) i j = coo_entry (econ_createGMatrix fr ss) j i"
  by (rule G_symmetric)

text \<open>C8: on a well-formed network, each diagonal entry is the sum of the row's jump conductances plus the self conductance 1/3, and each off-diagonal entry is minus the conductance of the jump from i to j minus that of the jump from j to i: a jump recorded in both systems is entered twice.\<close>

theorem econ_createGMatrix_entries:
  assumes "wf_network ss" and "i < length ss" and "j < length ss"
  shows "coo_entry (econ_createGMatrix fr ss) i j =
    (if i = j then sum_list (map snd (jump_conductances fr ss i)) + 1 / ECON_SELF_RES
     else - out_to (jump_conductances fr ss i) j - out_to (jump_conductances fr ss j) i)"
  using assms by (simp add: G_diag econ_createGMatrix_off)

text \<open>A system with no jump out and no jump in has diagonal entry 1/3 and no off-diagonal entry: its row is strictly diagonally dominant.\<close>

theorem econ_createGMatrix_isolated:
  assumes "wf_network ss" and "i < length ss" and "jumps (ss ! i) = []"
    and "\<forall>k<length ss. i \<notin> set (jumps (ss ! k))"
  shows "coo_entry (econ_createGMatrix fr ss) i i = 1 / 3 \<and>
         off_diag_sum (coo_entry (econ_createGMatrix fr ss)) (length ss) i = 0"
proof -
  have "out_to (jump_conductances fr ss k) i = 0" if "k < length ss" for k
    using assms(4) that by (intro out_to_none) (auto simp: jump_conductances_def)
  moreover have "out_to (jump_conductances fr ss i) j = 0" for j
    using assms(3) by (simp add: jump_conductances_def out_to_def)
  ultimately have "off_diag_sum (coo_entry (econ_createGMatrix fr ss)) (length ss) i = 0"
    unfolding off_diag_sum_eq by (intro sum.neutral) (auto simp: econ_createGMatrix_off assms(2))
  moreover have "coo_entry (econ_createGMatrix fr ss) i i = 1 / 3"
    using G_diag [OF assms(1,2)] assms(3) by (simp add: jump_conductances_def ECON_SELF_RES_def)
  ultimately show ?thesis by simp
qed

text \<open>C7: when the conductance flowing into every system from its neighbours is below the self conductance 1/3, the admittance matrix is strictly diagonally dominant.\<close>

theorem econ_createGMatrix_dominant:
  assumes "wf_network ss" and "\<forall>i<length ss. incoming_conductance fr ss i < 1 / ECON_SELF_RES"
  shows "diag_dominant (coo_entry (econ_createGMatrix fr ss)) (length ss)"
  using assms by (rule G_dominant)

text \<open>C6: under the same bound, G x = b has at most one solution: any two vectors that solve it agree on every system.\<close>

theorem econ_createGMatrix_unique_solution:
  assumes "wf_network ss" and "\<forall>i<length ss. incoming_conductance fr ss i < 1 / ECON_SELF_RES"
    and "\<forall>i<length ss. mat_vec_row (coo_entry (econ_createGMatrix fr ss)) (length ss) x i = b i"
    and "\<forall>i<length ss. mat_vec_row (coo_entry (econ_createGMatrix fr ss)) (length ss) y i = b i"
  shows "\<forall>i<length ss. x i = y i"
proof -
  let ?A = "coo_entry (econ_createGMatrix fr ss)" and ?n = "length ss"
  have "\<forall>i<?n. mat_vec_row ?A ?n (\<lambda>j. x j - y j) i = 0"
    using assms(3,4) by (simp add: mat_vec_row_def right_diff_distrib sum_subtractf)
  with G_dominant [OF assms(1,2)] have "\<forall>i<?n. x i - y i = 0"
    by (rule diag_dominant_kernel)
  then show ?thesis by simp
qed

subsection \<open>The matrix read by the solver\<close>

lemma coo_last_const:
  assumes "\<forall>x\<in>set M. fst x = i \<and> fst (snd x) = j \<longrightarrow> snd (snd x) = w"
  shows "coo_last M i j = (if \<exists>x\<in>set M. fst x = i \<and> fst (snd x) = j then w else 0)"
proof (cases "filter (\<lambda>(r, c, v). r = i \<and> c = j) M = []")
  case True
  then have "\<not> (\<exists>x\<in>set M. fst x = i \<and> fst (snd x) = j)"
    by (auto simp: filter_empty_conv)
  with True show ?thesis unfolding coo_last_def by auto
next
  case False
  let ?xs = "filter (\<lambda>(r, c, v). r = i \<and> c = j) M"
  have "last ?xs \<in> set ?xs" using False by (rule last_in_set)
  then have l: "last ?xs \<in> set M" "fst (last ?xs) = i" "fst (snd (last ?xs)) = j"
    by auto
  with assms have "snd (snd (last ?xs)) = w" by blast
  with False l show ?thesis by (auto simp: coo_last_def)
qed

lemma set_row_entries:
  "x \<in> set (econ_row_entries fr ss k) \<longleftrightarrow>
     (\<exists>t\<in>set (jumps (ss ! k)). x = (k, t, - (1 / econ_calcJumpR fr (ss ! k) (ss ! t))) \<or>
                              x = (t, k, - (1 / econ_calcJumpR fr (ss ! k) (ss ! t)))) \<or>
     x = (k, k, sum_list (map snd (jump_conductances fr ss k)) + 1 / ECON_SELF_RES)"
  by (auto simp: econ_row_entries_def jump_conductances_def Let_def)

lemma set_createGMatrix: "set (econ_createGMatrix fr ss) = (\<Union>k<length ss. set (econ_row_entries fr ss k))"
  by (auto simp: econ_createGMatrix_def)

lemma sum_set_le_sum_list:
  fixes f :: "'a \<Rightarrow> real"
  shows "\<forall>x\<in>set xs. 0 \<le> f x \<Longrightarrow> sum f (set xs) \<le> sum_list (map f xs)"
proof (induction xs)
  case (Cons x xs)
  then have "sum f (set (x # xs)) \<le> f x + sum f (set xs)"
    by (cases "x \<in> set xs") (simp_all add: insert_absorb)
  with Cons show ?case by simp
qed simp

lemma G_last_entries:
  assumes wf: "wf_network ss" and i: "i < length ss" and j: "j < length ss"
    and "\<forall>a b. areEnemies fr a b = areEnemies fr b a" and "\<forall>a b. areAllies fr a b = areAllies fr b a"
  shows "coo_last (econ_createGMatrix fr ss) i j =
           (if i = j then sum_list (map snd (jump_conductances fr ss i)) + 1 / ECON_SELF_RES
            else if j \<in> set (jumps (ss ! i)) \<or> i \<in> set (jumps (ss ! j))
            then - (1 / econ_calcJumpR fr (ss ! i) (ss ! j)) else 0)"
proof -
  have sym: "econ_calcJumpR fr (ss ! j) (ss ! i) = econ_calcJumpR fr (ss ! i) (ss ! j)"
    using assms(4,5) by (simp add: econ_calcJumpR_def Let_def add.commute)
  have nl: "t \<noteq> k" if "k < length ss" "t \<in> set (jumps (ss ! k))" for k t
    using wf that by (auto simp: wf_network_def)
  show ?thesis
  proof (cases "i = j")
    case True
    have "(i, i, sum_list (map snd (jump_conductances fr ss i)) + 1 / ECON_SELF_RES) \<in> set (econ_createGMatrix fr ss)"
      using i by (auto simp: set_createGMatrix set_row_entries)
    then have ex: "\<exists>x\<in>set (econ_createGMatrix fr ss). fst x = i \<and> fst (snd x) = i"
      by force
    have "\<forall>x\<in>set (econ_createGMatrix fr ss). fst x = i \<and> fst (snd x) = i \<longrightarrow>
            snd (snd x) = sum_list (map snd (jump_conductances fr ss i)) + 1 / ECON_SELF_RES"
      by (auto simp: set_createGMatrix set_row_entries dest: nl)
    from coo_last_const [OF this] ex
    have "coo_last (econ_createGMatrix fr ss) i i = sum_list (map snd (jump_conductances fr ss i)) + 1 / ECON_SELF_RES"
      by simp
    with True show ?thesis by simp
  next
    case False
    let ?G = "econ_createGMatrix fr ss"
    have cst: "\<forall>x\<in>set ?G. fst x = i \<and> fst (snd x) = j \<longrightarrow> snd (snd x) = - (1 / econ_calcJumpR fr (ss ! i) (ss ! j))"
      using False sym by (auto simp: set_createGMatrix set_row_entries)
    have ex: "(\<exists>x\<in>set ?G. fst x = i \<and> fst (snd x) = j) \<longleftrightarrow> j \<in> set (jumps (ss ! i)) \<or> i \<in> set (jumps (ss ! j))"
    proof
      assume "\<exists>x\<in>set ?G. fst x = i \<and> fst (snd x) = j"
      then show "j \<in> set (jumps (ss ! i)) \<or> i \<in> set (jumps (ss ! j))"
        using False by (auto simp: set_createGMatrix set_row_entries)
    next
      assume "j \<in> set (jumps (ss ! i)) \<or> i \<in> set (jumps (ss ! j))"
      then show "\<exists>x\<in>set ?G. fst x = i \<and> fst (snd x) = j"
      proof
        assume "j \<in> set (jumps (ss ! i))"
        then have "(i, j, - (1 / econ_calcJumpR fr (ss ! i) (ss ! j))) \<in> set ?G"
          using i by (auto simp: set_createGMatrix set_row_entries)
        then show ?thesis by force
      next
        assume "i \<in> set (jumps (ss ! j))"
        then have "(i, j, - (1 / econ_calcJumpR fr (ss ! j) (ss ! i))) \<in> set ?G"
          using j by (auto simp: set_createGMatrix set_row_entries)
        then show ?thesis by force
      qed
    qed
    from coo_last_const [OF cst] ex False show ?thesis by simp
  qed
qed

text \<open>
  C9: In the matrix \<open>cs_qrsol\<close> reads from the triplets (the last triplet at a
  position wins), a well-formed network whose jumps all exist in both
  directions, with symmetric faction relations, gets the admittance matrix of
  the specification: each off-diagonal entry of adjacent systems is minus the
  conductance of their jump, each diagonal entry the row's conductances plus
  the self conductance 1/3; and the matrix is strictly diagonally dominant,
  with no bound on the number of neighbours.
\<close>

theorem econ_createGMatrix_qr_dominant:
  assumes wf: "wf_network ss"
    and two_way: "\<forall>i<length ss. \<forall>t\<in>set (jumps (ss ! i)). i \<in> set (jumps (ss ! t))"
    and "\<forall>a b. areEnemies fr a b = areEnemies fr b a" and "\<forall>a b. areAllies fr a b = areAllies fr b a"
  shows "(\<forall>i<length ss. \<forall>j<length ss. coo_last (econ_createGMatrix fr ss) i j =
            (if i = j then sum_list (map snd (jump_conductances fr ss i)) + 1 / ECON_SELF_RES
             else if j \<in> set (jumps (ss ! i)) then - (1 / econ_calcJumpR fr (ss ! i) (ss ! j)) else 0)) \<and>
         diag_dominant (coo_last (econ_createGMatrix fr ss)) (length ss)"
proof
  let ?G = "coo_last (econ_createGMatrix fr ss)" and ?n = "length ss"
  let ?c = "\<lambda>i j. 1 / econ_calcJumpR fr (ss ! i) (ss ! j)"
  have adj: "j \<in> set (jumps (ss ! i)) \<or> i \<in> set (jumps (ss ! j)) \<longleftrightarrow> j \<in> set (jumps (ss ! i))"
    if "i < ?n" "j < ?n" for i j
    using two_way that by blast
  show ent: "\<forall>i<?n. \<forall>j<?n. ?G i j = (if i = j then sum_list (map snd (jump_conductances fr ss i)) + 1 / ECON_SELF_RES
             else if j \<in> set (jumps (ss ! i)) then - ?c i j else 0)"
    using G_last_entries [OF wf _ _ assms(3,4)] adj by simp
  show "diag_dominant ?G ?n"
    unfolding diag_dominant_def
  proof (intro allI impI)
    fix i assume i: "i < ?n"
    have jl: "set (jumps (ss ! i)) \<subseteq> {..<?n}" "i \<notin> set (jumps (ss ! i))"
      using wf i by (auto simp: wf_network_def)
    have pos: "0 < ?c i j" if "j < ?n" for j
      using wf i that econ_calcJumpR_ge [of "ss ! i" "ss ! j" fr] by (auto simp: wf_network_def)
    have "off_diag_sum ?G ?n i = (\<Sum>j<?n. if j \<in> set (jumps (ss ! i)) then ?c i j else 0)"
      unfolding off_diag_sum_eq
      by (rule sum.cong) (use ent i jl pos in \<open>auto simp: less_imp_le\<close>)
    also have "\<dots> = sum (?c i) (set (jumps (ss ! i)))"
      using jl(1) by (simp add: sum.If_cases Int_absorb1)
    also have "\<dots> \<le> sum_list (map (?c i) (jumps (ss ! i)))"
      by (rule sum_set_le_sum_list) (use jl(1) pos in \<open>auto simp: less_imp_le\<close>)
    also have "\<dots> = sum_list (map snd (jump_conductances fr ss i))"
      by (simp add: jump_conductances_def comp_def)
    also have "\<dots> < \<bar>?G i i\<bar>"
    proof -
      have "0 \<le> sum_list (map snd (jump_conductances fr ss i))"
        by (rule sum_list_nonneg) (use jump_conductances_nonneg [OF wf i] in auto)
      then show ?thesis using ent i by (simp add: ECON_SELF_RES_def)
    qed
    finally show "off_diag_sum ?G ?n i < \<bar>?G i i\<bar>" .
  qed
qed

end
