(* ===== verification/Economy_State.thy ===== *)
theory Economy_State
  imports Network
begin

text \<open>
  The economy's lifecycle (src/src/economy.c: \<open>economy_init\<close>,
  \<open>economy_addQueuedUpdate\<close>, \<open>economy_execQueued\<close>, \<open>economy_refresh\<close>,
  \<open>economy_update\<close>, \<open>economy_destroy\<close>) over the globals \<open>econ_initialized\<close>,
  \<open>econ_queued\<close>, \<open>econ_G\<close> and the \<open>prices\<close> arrays of the systems. The
  sparse solver \<open>cs_qrsol\<close> of CSparse is an interface: it takes the matrix and
  the right-hand side and returns its success flag and the buffer it overwrote.
  Allocation failures (\<open>ERR\<close>, or \<open>-1\<close> when \<open>malloc\<close> fails) are not modelled.
\<close>

record econ =
  econ_initialized :: bool
  econ_queued :: nat
  econ_G :: "triplet list option"

type_synonym solver = "triplet list \<Rightarrow> real list \<Rightarrow> bool \<times> real list"

definition econ_start :: econ where
  "econ_start = \<lparr>econ_initialized = False, econ_queued = 0, econ_G = None\<rparr>"

subsection \<open>Solving for the prices\<close>

text \<open>\<open>econ_calcSysI\<close>: the production intensity, a placeholder that returns 0.\<close>

definition econ_calcSysI :: "nat \<Rightarrow> StarSystem \<Rightarrow> nat \<Rightarrow> real" where
  "econ_calcSysI dt sys j = 0"

text \<open>\<open>systems_stack[i].prices[j] = X[i] * scale + offset\<close> for every system.\<close>

definition econ_set_prices :: "nat \<Rightarrow> real list \<Rightarrow> StarSystem list \<Rightarrow> StarSystem list" where
  "econ_set_prices j X ss =
     (let scale = 1; offset = 1
      in map (\<lambda>(i, s). s\<lparr>prices := map_option (\<lambda>ps. ps[j := X ! i * scale + offset]) (prices s)\<rparr>)
             (zip [0..<length ss] ss))"

text \<open>
  One commodity \<open>j\<close> of the loop of \<open>economy_update\<close>: load the intensities,
  solve in place (a failure only warns), write the prices from the buffer.
  A \<open>NULL\<close> matrix makes \<open>cs_qrsol\<close> fail without touching the buffer.
\<close>

definition econ_update_price :: "solver \<Rightarrow> triplet list option \<Rightarrow> nat \<Rightarrow> nat \<Rightarrow> StarSystem list \<Rightarrow> StarSystem list" where
  "econ_update_price qrsol G dt j ss =
     (let X = map (\<lambda>i. econ_calcSysI dt (ss ! i) j) [0..<length ss];
          r = (case G of Some g \<Rightarrow> qrsol g X | None \<Rightarrow> (False, X))
      in econ_set_prices j (snd r) ss)"

definition economy_update :: "solver \<Rightarrow> nat \<Rightarrow> nat \<Rightarrow> econ \<times> StarSystem list \<Rightarrow> int \<times> econ \<times> StarSystem list" where
  "economy_update qrsol nprices dt st =
     (let (e, ss) = st in
      if \<not> econ_initialized e then (0, e, ss)
      else (0, e\<lparr>econ_queued := 0\<rparr>,
            fold (\<lambda>j ss. econ_update_price qrsol (econ_G e) dt j ss) [0..<nprices] ss))"

subsection \<open>Lifecycle\<close>

text \<open>\<open>economy_refresh\<close>: rebuild the matrix from the current universe, replacing the old one, then solve.\<close>

definition economy_refresh :: "faction_rel \<Rightarrow> solver \<Rightarrow> nat \<Rightarrow> econ \<times> StarSystem list \<Rightarrow> int \<times> econ \<times> StarSystem list" where
  "economy_refresh fr qrsol nprices st =
     (let (e, ss) = st in
      if \<not> econ_initialized e then (0, e, ss)
      else (let e' = e\<lparr>econ_G := Some (econ_createGMatrix fr ss)\<rparr>;
                (_, e'', ss'') = economy_update qrsol nprices 0 (e', ss)
            in (0, e'', ss'')))"

text \<open>\<open>economy_init\<close>: allocate zeroed price arrays (\<open>calloc\<close>), mark initialized, refresh.\<close>

definition economy_init :: "faction_rel \<Rightarrow> solver \<Rightarrow> nat \<Rightarrow> econ \<times> StarSystem list \<Rightarrow> int \<times> econ \<times> StarSystem list" where
  "economy_init fr qrsol nprices st =
     (let (e, ss) = st in
      if econ_initialized e then (0, e, ss)
      else (let ss' = map (\<lambda>s. s\<lparr>prices := Some (replicate nprices 0)\<rparr>) ss;
                e' = e\<lparr>econ_initialized := True\<rparr>;
                (_, e'', ss'') = economy_refresh fr qrsol nprices (e', ss')
            in (0, e'', ss'')))"

definition economy_addQueuedUpdate :: "econ \<Rightarrow> econ" where
  "economy_addQueuedUpdate e = e\<lparr>econ_queued := econ_queued e + 1\<rparr>"

definition economy_execQueued :: "faction_rel \<Rightarrow> solver \<Rightarrow> nat \<Rightarrow> econ \<times> StarSystem list \<Rightarrow> int \<times> econ \<times> StarSystem list" where
  "economy_execQueued fr qrsol nprices st =
     (if econ_queued (fst st) \<noteq> 0 then economy_refresh fr qrsol nprices st else (0, st))"

definition economy_destroy :: "econ \<times> StarSystem list \<Rightarrow> econ \<times> StarSystem list" where
  "economy_destroy st =
     (let (e, ss) = st in
      if \<not> econ_initialized e then (e, ss)
      else (e\<lparr>econ_G := None, econ_initialized := False\<rparr>, map (\<lambda>s. s\<lparr>prices := None\<rparr>) ss))"

subsection \<open>The lifecycle as a state machine\<close>

text \<open>
  Every entry point is a step; so is a change of the universe made elsewhere
  (space.c changes jumps, nebulae and factions but not the price arrays).
\<close>

inductive econ_step :: "faction_rel \<Rightarrow> solver \<Rightarrow> nat \<Rightarrow> econ \<times> StarSystem list \<Rightarrow> econ \<times> StarSystem list \<Rightarrow> bool"
  for fr qrsol nprices where
  step_init: "econ_step fr qrsol nprices st (snd (economy_init fr qrsol nprices st))"
| step_queue: "econ_step fr qrsol nprices (e, ss) (economy_addQueuedUpdate e, ss)"
| step_exec: "econ_step fr qrsol nprices st (snd (economy_execQueued fr qrsol nprices st))"
| step_refresh: "econ_step fr qrsol nprices st (snd (economy_refresh fr qrsol nprices st))"
| step_update: "econ_step fr qrsol nprices st (snd (economy_update qrsol nprices dt st))"
| step_destroy: "econ_step fr qrsol nprices st (economy_destroy st)"
| step_universe: "length ss' = length ss \<Longrightarrow> map prices ss' = map prices ss \<Longrightarrow>
                  econ_step fr qrsol nprices (e, ss) (e, ss')"

inductive econ_reach :: "faction_rel \<Rightarrow> solver \<Rightarrow> nat \<Rightarrow> econ \<times> StarSystem list \<Rightarrow> bool"
  for fr qrsol nprices where
  reach_start: "\<forall>s\<in>set ss. prices s = None \<Longrightarrow> econ_reach fr qrsol nprices (econ_start, ss)"
| reach_step: "econ_reach fr qrsol nprices st \<Longrightarrow> econ_step fr qrsol nprices st st' \<Longrightarrow>
               econ_reach fr qrsol nprices st'"

text \<open>
  The invariant: an initialized economy has a matrix and a price array of one
  entry per priced commodity in every system; an uninitialized one has neither.
\<close>

definition econ_inv :: "nat \<Rightarrow> econ \<times> StarSystem list \<Rightarrow> bool" where
  "econ_inv nprices st \<longleftrightarrow>
     (if econ_initialized (fst st)
      then econ_G (fst st) \<noteq> None \<and>
           (\<forall>s\<in>set (snd st). case prices s of Some ps \<Rightarrow> length ps = nprices | None \<Rightarrow> False)
      else econ_G (fst st) = None \<and> (\<forall>s\<in>set (snd st). prices s = None))"

text \<open>The contract of \<open>cs_qrsol\<close>: a reported success leaves a solution in the buffer.\<close>

definition solver_sound :: "solver \<Rightarrow> bool" where
  "solver_sound qrsol \<longleftrightarrow>
     (\<forall>g b x. qrsol g b = (True, x) \<longrightarrow> length x = length b \<and>
        (\<forall>i<length b. mat_vec_row (coo_entry g) (length b) (\<lambda>j. x ! j) i = b ! i))"

text \<open>The shape of the price arrays: which systems have one, and of what length.\<close>

definition price_shape :: "StarSystem list \<Rightarrow> nat option list" where
  "price_shape ss = map (map_option length \<circ> prices) ss"

subsection \<open>Lemmas\<close>

lemma econ_set_prices_nth:
  "i < length ss \<Longrightarrow> econ_set_prices j X ss ! i =
     (ss ! i)\<lparr>prices := map_option (\<lambda>ps. ps[j := X ! i + 1]) (prices (ss ! i))\<rparr>"
  by (simp add: econ_set_prices_def)

lemma length_econ_set_prices [simp]: "length (econ_set_prices j X ss) = length ss"
  by (simp add: econ_set_prices_def)

lemma price_shape_set_prices [simp]: "price_shape (econ_set_prices j X ss) = price_shape ss"
  by (rule nth_equalityI) (auto simp: price_shape_def econ_set_prices_nth option.map_comp comp_def)

lemma price_shape_update_price [simp]: "price_shape (econ_update_price qrsol G dt j ss) = price_shape ss"
  by (simp add: econ_update_price_def Let_def)

lemma length_update_price [simp]: "length (econ_update_price qrsol G dt j ss) = length ss"
  by (simp add: econ_update_price_def Let_def)

lemma price_shape_fold_update:
  "price_shape (fold (\<lambda>j ss. econ_update_price qrsol G dt j ss) js ss) = price_shape ss"
  by (induction js arbitrary: ss) simp_all

lemma econ_inv_shape:
  "econ_inv n (e, ss) \<longleftrightarrow>
     (if econ_initialized e then econ_G e \<noteq> None \<and> (\<forall>x\<in>set (price_shape ss). x = Some n)
      else econ_G e = None \<and> (\<forall>x\<in>set (price_shape ss). x = None))"
  by (cases "econ_initialized e") (auto simp: econ_inv_def price_shape_def split: option.splits)

lemma ball_prices_cong:
  assumes "map prices ss' = map prices ss"
  shows "(\<forall>s\<in>set ss'. P (prices s)) \<longleftrightarrow> (\<forall>s\<in>set ss. P (prices s))"
proof -
  have "(\<forall>s\<in>set ss'. P (prices s)) \<longleftrightarrow> (\<forall>x\<in>set (map prices ss'). P x)" by simp
  also have "\<dots> \<longleftrightarrow> (\<forall>x\<in>set (map prices ss). P x)" by (simp only: assms)
  also have "\<dots> \<longleftrightarrow> (\<forall>s\<in>set ss. P (prices s))" by simp
  finally show ?thesis .
qed

lemma economy_update_inv:
  "econ_inv n st \<Longrightarrow> econ_inv n (snd (economy_update qrsol n dt st))"
  by (cases st) (simp add: economy_update_def econ_inv_shape price_shape_fold_update)

lemma economy_refresh_inv:
  "econ_inv n st \<Longrightarrow> econ_inv n (snd (economy_refresh fr qrsol n st))"
  by (cases st) (simp add: economy_refresh_def economy_update_def econ_inv_shape price_shape_fold_update)

lemma economy_init_inv:
  "econ_inv n st \<Longrightarrow> econ_inv n (snd (economy_init fr qrsol n st))"
  by (cases st) (auto simp: economy_init_def economy_refresh_def economy_update_def econ_inv_shape
                 price_shape_fold_update Let_def, auto simp: price_shape_def)

lemma economy_execQueued_inv:
  "econ_inv n st \<Longrightarrow> econ_inv n (snd (economy_execQueued fr qrsol n st))"
  by (simp add: economy_execQueued_def economy_refresh_inv)

lemma economy_destroy_inv:
  "econ_inv n st \<Longrightarrow> econ_inv n (economy_destroy st)"
  by (cases st) (auto simp: economy_destroy_def econ_inv_shape price_shape_def)

lemma econ_step_inv:
  "econ_step fr qrsol n st st' \<Longrightarrow> econ_inv n st \<Longrightarrow> econ_inv n st'"
proof (induction rule: econ_step.induct)
  case (step_queue e ss)
  then show ?case by (cases "econ_initialized e") (simp_all add: econ_inv_def economy_addQueuedUpdate_def)
next
  case (step_universe ss' ss e)
  then show ?case
    using ball_prices_cong [OF step_universe.hyps(2), where P = "\<lambda>x. x = None"]
      ball_prices_cong [OF step_universe.hyps(2), where P = "\<lambda>x. case x of Some ps \<Rightarrow> length ps = n | None \<Rightarrow> False"]
    by (cases "econ_initialized e") (simp_all add: econ_inv_def)
qed (simp_all add: economy_update_inv economy_refresh_inv economy_init_inv economy_execQueued_inv
                   economy_destroy_inv)

text \<open>
  C5: Every state the lifecycle reaches from the start satisfies the
  invariant: initialized exactly when there is a matrix, and then every
  system has a price array with one entry per priced commodity; otherwise
  no system has one.
\<close>

theorem econ_reach_inv: "econ_reach fr qrsol n st \<Longrightarrow> econ_inv n st"
proof (induction rule: econ_reach.induct)
  case (reach_start ss)
  then show ?case by (simp add: econ_inv_def econ_start_def)
next
  case (reach_step st st')
  then show ?case by (blast intro: econ_step_inv)
qed

lemma fold_update_prefix:
  "m \<le> length ps \<Longrightarrow> fold (\<lambda>j ps. ps[j := v]) [0..<m] ps = replicate m v @ drop m ps"
proof (induction m)
  case (Suc m)
  then have "drop m ps = ps ! m # drop (Suc m) ps" by (simp add: Cons_nth_drop_Suc)
  with Suc show ?case by (simp add: list_update_append replicate_append_same)
qed simp

lemma fold_update_all: "length ps = m \<Longrightarrow> fold (\<lambda>j ps. ps[j := v]) [0..<m] ps = replicate m v"
  using fold_update_prefix [of m ps v] by simp

lemma econ_update_price_nth:
  assumes "qrsol g (replicate (length ss) 0) = (ok, X')" and "i < length ss"
  shows "prices (econ_update_price qrsol (Some g) dt j ss ! i) =
           map_option (\<lambda>ps. ps[j := X' ! i + 1]) (prices (ss ! i))"
proof -
  have "map (\<lambda>i. econ_calcSysI dt (ss ! i) j) [0..<length ss] = replicate (length ss) 0"
    by (simp add: econ_calcSysI_def map_replicate_const)
  with assms show ?thesis by (simp add: econ_update_price_def econ_set_prices_nth)
qed

lemma fold_update_price_nth:
  "qrsol g (replicate (length ss) 0) = (ok, X') \<Longrightarrow> i < length ss \<Longrightarrow>
   prices (fold (econ_update_price qrsol (Some g) dt) js ss ! i) =
     map_option (fold (\<lambda>j ps. ps[j := X' ! i + 1]) js) (prices (ss ! i))"
proof (induction js arbitrary: ss)
  case (Cons j js)
  let ?ss1 = "econ_update_price qrsol (Some g) dt j ss"
  have "qrsol g (replicate (length ?ss1) 0) = (ok, X')" "i < length ?ss1" using Cons.prems by simp_all
  from Cons.IH [OF this] econ_update_price_nth [where qrsol = qrsol and g = g and ss = ss, OF Cons.prems] show ?case
    by (simp add: option.map_comp comp_def)
qed (simp add: option.map_id)

lemma length_fold_update_price [simp]:
  "length (fold (econ_update_price qrsol G dt) js ss) = length ss"
  by (induction js arbitrary: ss) simp_all

lemma economy_update_prices:
  assumes sized: "\<forall>s\<in>set ss. case prices s of Some ps \<Rightarrow> length ps = n | None \<Rightarrow> False" and init: "econ_initialized e" and G: "econ_G e = Some g"
    and sol: "qrsol g (replicate (length ss) 0) = (ok, X')" and i: "i < length ss"
  shows "prices (snd (snd (economy_update qrsol n dt (e, ss))) ! i) = Some (replicate n (X' ! i + 1))"
proof -
  from sized i obtain ps where ps: "prices (ss ! i) = Some ps" "length ps = n"
    by (fastforce dest: nth_mem split: option.splits)
  with fold_update_price_nth [where qrsol = qrsol and g = g and ss = ss, OF sol i] init G show ?thesis
    by (simp add: economy_update_def fold_update_all)
qed

text \<open>
  C11: \<open>economy_update\<close> on an initialized economy whose solver returns the
  buffer \<open>X'\<close> (whether it reports success or failure) returns 0, clears the
  queue, keeps the matrix, and sets every price of every system \<open>i\<close> to
  \<open>X'[i] + 1\<close>: a failed solve overwrites the prices rather than keeping them.
\<close>

theorem economy_update_overwrites:
  assumes "econ_inv n (e, ss)" and "econ_initialized e" and "econ_G e = Some g"
    and "qrsol g (replicate (length ss) 0) = (ok, X')"
    and "economy_update qrsol n dt (e, ss) = (r, e', ss')"
  shows "r = 0 \<and> e' = e\<lparr>econ_queued := 0\<rparr> \<and> length ss' = length ss \<and>
         (\<forall>i<length ss. prices (ss' ! i) = Some (replicate n (X' ! i + 1)))"
  using economy_update_prices [where qrsol = qrsol and e = e and ss = ss, OF _ assms(2-4)] assms(1,2,5)
  by (auto simp: economy_update_def econ_inv_def)

lemma econ_calcJumpR_prices:
  "econ_calcJumpR fr (A\<lparr>prices := p\<rparr>) (B\<lparr>prices := q\<rparr>) = econ_calcJumpR fr A B"
  by (simp add: econ_calcJumpR_def Let_def)

lemma jump_conductances_prices:
  "wf_network ss \<Longrightarrow> i < length ss \<Longrightarrow>
   jump_conductances fr (map (\<lambda>s. s\<lparr>prices := p\<rparr>) ss) i = jump_conductances fr ss i"
  by (auto simp: jump_conductances_def wf_network_def econ_calcJumpR_prices intro!: map_cong)

lemma econ_createGMatrix_prices:
  assumes "wf_network ss"
  shows "econ_createGMatrix fr (map (\<lambda>s. s\<lparr>prices := p\<rparr>) ss) = econ_createGMatrix fr ss"
  unfolding econ_createGMatrix_def econ_row_entries_def
  by (auto simp: jump_conductances_prices [OF assms] intro!: arg_cong [where f = concat] map_cong)

lemma sound_solution_zero:
  assumes sound: "solver_sound qrsol" and wf: "wf_network ss"
    and inc: "\<forall>i<length ss. incoming_conductance fr ss i < 1 / ECON_SELF_RES"
    and sol: "qrsol (econ_createGMatrix fr ss) (replicate (length ss) 0) = (True, X')"
  shows "\<forall>i<length ss. X' ! i = 0"
proof -
  from sound [unfolded solver_sound_def, rule_format, OF sol]
  have "\<forall>i<length ss. mat_vec_row (coo_entry (econ_createGMatrix fr ss)) (length ss) (\<lambda>j. X' ! j) i = 0"
    by simp
  with G_dominant [OF wf inc] show ?thesis by (rule diag_dominant_kernel)
qed

lemma economy_refresh_result:
  assumes sized: "\<forall>s\<in>set ss. case prices s of Some ps \<Rightarrow> length ps = n | None \<Rightarrow> False" and init: "econ_initialized e"
    and sol: "qrsol (econ_createGMatrix fr ss) (replicate (length ss) 0) = (ok, X')"
  shows "fst (economy_refresh fr qrsol n (e, ss)) = 0 \<and>
    fst (snd (economy_refresh fr qrsol n (e, ss))) =
      e\<lparr>econ_G := Some (econ_createGMatrix fr ss), econ_queued := 0\<rparr> \<and>
    length (snd (snd (economy_refresh fr qrsol n (e, ss)))) = length ss \<and>
    (\<forall>i<length ss. prices (snd (snd (economy_refresh fr qrsol n (e, ss))) ! i) =
       Some (replicate n (X' ! i + 1)))"
proof -
  let ?g = "econ_createGMatrix fr ss"
  let ?e1 = "e\<lparr>econ_G := Some ?g\<rparr>"
  have "prices (snd (snd (economy_update qrsol n 0 (?e1, ss))) ! i) = Some (replicate n (X' ! i + 1))"
    if "i < length ss" for i
    using economy_update_prices [where qrsol = qrsol and e = ?e1 and ss = ss, OF sized _ _ sol that] init
    by simp
  with init show ?thesis by (simp add: economy_refresh_def economy_update_def)
qed

text \<open>
  C4: With a solver that meets its contract and succeeds, on a well-formed
  network whose incoming conductances stay below the self conductance,
  \<open>economy_refresh\<close> installs the matrix of the current universe, clears the
  queue and sets every price to 1: the zero intensity has only the zero
  potential, and the offset is 1.
\<close>

theorem economy_refresh_equilibrium:
  assumes "solver_sound qrsol" and "wf_network ss"
    and "\<forall>i<length ss. incoming_conductance fr ss i < 1 / ECON_SELF_RES"
    and "econ_inv n (e, ss)" and "econ_initialized e"
    and "qrsol (econ_createGMatrix fr ss) (replicate (length ss) 0) = (True, X')"
    and "economy_refresh fr qrsol n (e, ss) = (r, e', ss')"
  shows "r = 0 \<and> econ_G e' = Some (econ_createGMatrix fr ss) \<and> econ_queued e' = 0 \<and>
         length ss' = length ss \<and> (\<forall>i<length ss. prices (ss' ! i) = Some (replicate n 1))"
proof -
  have sized: "\<forall>s\<in>set ss. case prices s of Some ps \<Rightarrow> length ps = n | None \<Rightarrow> False" using assms(4,5) by (simp add: econ_inv_def)
  note res = economy_refresh_result [where qrsol = qrsol and n = n, OF sized assms(5,6)]
  have zero: "\<forall>i<length ss. X' ! i = 0" by (rule sound_solution_zero [where qrsol = qrsol, OF assms(1-3,6)])
  from res zero assms(7) show ?thesis by simp
qed

text \<open>
  C12: \<open>economy_init\<close> from the start state, under the same conditions,
  allocates a price array for every system, marks the economy initialized,
  installs the matrix of the universe, and leaves every price at 1.
\<close>

theorem economy_init_equilibrium:
  assumes "solver_sound qrsol" and wf: "wf_network ss"
    and "\<forall>i<length ss. incoming_conductance fr ss i < 1 / ECON_SELF_RES"
    and sol: "qrsol (econ_createGMatrix fr ss) (replicate (length ss) 0) = (True, X')"
    and run: "economy_init fr qrsol n (econ_start, ss) = (r, e', ss')"
  shows "r = 0 \<and> econ_initialized e' \<and> econ_G e' = Some (econ_createGMatrix fr ss) \<and>
         length ss' = length ss \<and> (\<forall>i<length ss. prices (ss' ! i) = Some (replicate n 1))"
proof -
  let ?ss1 = "map (\<lambda>s. s\<lparr>prices := Some (replicate n 0)\<rparr>) ss"
  let ?e1 = "econ_start\<lparr>econ_initialized := True\<rparr>"
  have g: "econ_createGMatrix fr ?ss1 = econ_createGMatrix fr ss" by (rule econ_createGMatrix_prices [OF wf])
  have inv1: "\<forall>s\<in>set ?ss1. case prices s of Some ps \<Rightarrow> length ps = n | None \<Rightarrow> False" by simp
  have sol1: "qrsol (econ_createGMatrix fr ?ss1) (replicate (length ?ss1) 0) = (True, X')"
    using sol g by simp
  have eq: "economy_init fr qrsol n (econ_start, ss) = (0, snd (economy_refresh fr qrsol n (?e1, ?ss1)))"
    by (simp add: economy_init_def econ_start_def split: prod.split)
  have init1: "econ_initialized ?e1" by simp
  note res = economy_refresh_result [where qrsol = qrsol and e = ?e1, OF inv1 init1 sol1]
  from run eq have st: "(e', ss') = snd (economy_refresh fr qrsol n (?e1, ?ss1))" "r = 0" by simp_all
  have zero: "\<forall>i<length ss. X' ! i = 0" by (rule sound_solution_zero [where qrsol = qrsol, OF assms(1-3) sol])
  obtain r2 e2 ss2 where R: "economy_refresh fr qrsol n (?e1, ?ss1) = (r2, e2, ss2)"
    by (cases "economy_refresh fr qrsol n (?e1, ?ss1)") auto
  with res g have "e2 = ?e1\<lparr>econ_G := Some (econ_createGMatrix fr ss), econ_queued := 0\<rparr>"
    "length ss2 = length ss" "\<forall>i<length ss. prices (ss2 ! i) = Some (replicate n (X' ! i + 1))"
    by simp_all
  with st R zero show ?thesis by simp
qed

text \<open>
  C35: \<open>economy_execQueued\<close> on an initialized economy leaves no queued update;
  with updates queued it rebuilds the matrix from the current universe, and
  with none it changes nothing.
\<close>

theorem economy_execQueued_drains:
  assumes "econ_initialized e" and "economy_execQueued fr qrsol n (e, ss) = (r, e', ss')"
  shows "r = 0 \<and> econ_initialized e' \<and> econ_queued e' = 0 \<and>
         (econ_queued e \<noteq> 0 \<longrightarrow> econ_G e' = Some (econ_createGMatrix fr ss)) \<and>
         (econ_queued e = 0 \<longrightarrow> e' = e \<and> ss' = ss)"
  using assms by (auto simp: economy_execQueued_def economy_refresh_def economy_update_def split: if_splits)

lemma strip_set_prices:
  "map (\<lambda>s. s\<lparr>prices := None\<rparr>) (econ_set_prices j X ss) = map (\<lambda>s. s\<lparr>prices := None\<rparr>) ss"
  by (rule nth_equalityI) (simp_all add: econ_set_prices_nth)

lemma strip_fold_update_price:
  "map (\<lambda>s. s\<lparr>prices := None\<rparr>) (fold (\<lambda>j ss. econ_update_price qrsol G dt j ss) js ss) =
   map (\<lambda>s. s\<lparr>prices := None\<rparr>) ss"
  by (induction js arbitrary: ss) (simp_all add: econ_update_price_def Let_def strip_set_prices)

text \<open>
  C33: From every state, one step of the lifecycle reaches a settled economy:
  initialized, with no queued update, with the matrix of the current universe,
  and with the universe changed only in its price arrays (by economy_refresh
  when initialized, by economy_init otherwise).
\<close>
theorem econ_step_settles:
  assumes "wf_network ss"
  shows "\<exists>e' ss'. econ_step fr qrsol n (e, ss) (e', ss') \<and> econ_initialized e' \<and> econ_queued e' = 0 \<and>
           econ_G e' = Some (econ_createGMatrix fr ss) \<and>
           map (\<lambda>s. s\<lparr>prices := None\<rparr>) ss' = map (\<lambda>s. s\<lparr>prices := None\<rparr>) ss"
proof (cases "econ_initialized e")
  case True
  let ?st' = "snd (economy_refresh fr qrsol n (e, ss))"
  have "econ_step fr qrsol n (e, ss) ?st'" by (rule step_refresh)
  moreover have "econ_initialized (fst ?st') \<and> econ_queued (fst ?st') = 0 \<and>
      econ_G (fst ?st') = Some (econ_createGMatrix fr ss) \<and>
      map (\<lambda>s. s\<lparr>prices := None\<rparr>) (snd ?st') = map (\<lambda>s. s\<lparr>prices := None\<rparr>) ss"
    using True by (simp add: economy_refresh_def economy_update_def strip_fold_update_price)
  ultimately show ?thesis by (metis prod.collapse)
next
  case False
  let ?ss0 = "map (\<lambda>s. s\<lparr>prices := Some (replicate n 0)\<rparr>) ss"
  let ?st' = "snd (economy_init fr qrsol n (e, ss))"
  have "econ_step fr qrsol n (e, ss) ?st'" by (rule step_init)
  moreover have G: "econ_createGMatrix fr ?ss0 = econ_createGMatrix fr ss"
    by (rule econ_createGMatrix_prices [OF assms])
  have strip0: "map (\<lambda>s. s\<lparr>prices := None\<rparr>) ?ss0 = map (\<lambda>s. s\<lparr>prices := None\<rparr>) ss" by simp
  have "econ_initialized (fst ?st') \<and> econ_queued (fst ?st') = 0 \<and>
      econ_G (fst ?st') = Some (econ_createGMatrix fr ss) \<and>
      map (\<lambda>s. s\<lparr>prices := None\<rparr>) (snd ?st') = map (\<lambda>s. s\<lparr>prices := None\<rparr>) ss"
    using False G strip0
    by (simp add: economy_init_def economy_refresh_def economy_update_def strip_fold_update_price)
  ultimately show ?thesis by (metis prod.collapse)
qed

end
