(* ===== verification/Initializer.thy ===== *)
theory Initializer
  imports Universe
begin

text \<open>
  The price initializer (src/src/economy.c, \<open>economy_calcPrice\<close>,
  \<open>economy_modifySystemCommodityPrice\<close>, \<open>economy_smoothCommodityPrice\<close>,
  \<open>economy_calcUpdatedCommodityPrice\<close>, \<open>economy_initialiseCommodityPrices\<close>):
  four passes over \<open>systems_stack\<close> that set the parameters of every
  planet's \<open>CommodityPrice\<close> entries from the planet, its system and the
  neighbouring systems, then free the catalog's modifier lists. Every pass
  is a loop over the systems that updates one system in place, modelled as
  a fold over the indices. \<open>faction_name\<close> (faction.c) is a parameter that may
  return \<open>NULL\<close>; \<open>strcmp\<close> on a \<open>NULL\<close> name and a \<open>double\<close> division by zero are
  the two ways a pass leaves the model (\<open>NullDeref\<close>, \<open>NonFinite\<close>).
\<close>

subsection \<open>Pass 1: planet attributes\<close>

text \<open>\<open>PLANET_GFX_EXTERIOR_PATH\<close> of space.h.\<close>

definition PLANET_GFX_EXTERIOR_PATH :: string where
  "PLANET_GFX_EXTERIOR_PATH = ''gfx/planet/exterior/''"

text \<open>
  The walk along a \<open>CommodityModifier\<close> list: the value of the first entry
  whose name equals \<open>n\<close>, or 1 when none does.
\<close>

definition modifier_scale :: "(string option \<times> real) list \<Rightarrow> string option \<Rightarrow> c_fault + real" where
  "modifier_scale cms n =
     sbind (find_idx_e (\<lambda>cm. c_streq n (fst cm)) cms)
       (\<lambda>r. Inr (case r of None \<Rightarrow> 1 | Some i \<Rightarrow> snd (cms ! i)))"

text \<open>
  \<open>1 + (strlen(gfx_exterior) - strlen(PLANET_GFX_EXTERIOR_PATH) - 19) / 100.\<close>:
  the difference of two \<open>size_t\<close> values is computed modulo \<open>2^64\<close> before
  its conversion to \<open>double\<close>.
\<close>

definition ext_scale :: "Planet \<Rightarrow> real" where
  "ext_scale p = 1 + real (unat (of_nat (length (gfx_exterior p)) -
                                 of_nat (length PLANET_GFX_EXTERIOR_PATH) - 19 :: 64 word)) / 100"

definition pop_factor :: "Planet \<Rightarrow> real" where
  "pop_factor p = (if 0 < population p then tanh ((ln (real (population p)) - ln 100000000) / 2) else -1)"

text \<open>
  \<open>economy_calcPrice\<close>. The period computed from \<open>gfx_spaceName\<close> is never
  used and is left out. The faction scale is looked up, as in the code, in
  \<open>planet_modifier\<close>.
\<close>

definition economy_calcPrice ::
  "(int \<Rightarrow> string option) \<Rightarrow> Planet \<Rightarrow> commodity \<Rightarrow> CommodityPrice \<Rightarrow> c_fault + CommodityPrice" where
  "economy_calcPrice faction_name p c cp =
     sbind (modifier_scale (planet_modifier c) (Some (planet_class p))) (\<lambda>s1.
     (let factor = pop_factor p; base = population_modifier c in
      sbind (modifier_scale (planet_modifier c) (faction_name (planet_faction p))) (\<lambda>s2.
      (let pr = real_of_int (presenceRange p) / 30 in
       sbind (c_fdiv 1 (1 - pr)) (\<lambda>q.
       Inr (cp\<lparr>price := price cp * s1 * (1 + factor * base) * s2 * (1 - pr),
               planetVariation := 0.5 * (0.5 - factor * 0.25),
               sysVariation := 0, cp_sum := 0, cp_sum2 := 0, cnt := 0, updateTime := 0,
               planetPeriod := (period c + 100) * ext_scale p * (1 + factor * 0.5) * q\<rparr>))))))"

definition calcPrice_planet :: "(int \<Rightarrow> string option) \<Rightarrow> catalog \<Rightarrow> Planet \<Rightarrow> c_fault + Planet" where
  "calcPrice_planet fname cat p =
     sbind (map_e (\<lambda>j. economy_calcPrice fname p (commodity_stack cat ! (commodities p ! j)) (commodityPrice p ! j))
                  [0..<length (commodities p)])
       (\<lambda>cps. Inr (p\<lparr>commodityPrice := cps\<rparr>))"

definition calcPrice_system :: "(int \<Rightarrow> string option) \<Rightarrow> catalog \<Rightarrow> StarSystem \<Rightarrow> c_fault + StarSystem" where
  "calcPrice_system fname cat sys =
     sbind (map_e (calcPrice_planet fname cat) (planets sys)) (\<lambda>ps. Inr (sys\<lparr>planets := ps\<rparr>))"

subsection \<open>Pass 2: system attributes and the average over the system's planets\<close>

text \<open>The changes made to one entry from its system's attributes.\<close>

definition modify_entry :: "StarSystem \<Rightarrow> CommodityPrice \<Rightarrow> c_fault + CommodityPrice" where
  "modify_entry sys cp =
     sbind (c_fdiv 1 (1 - radius sys / 200000)) (\<lambda>a.
     sbind (c_fdiv 1 (1 - radius sys / 300000)) (\<lambda>b.
     Inr (cp\<lparr>price := price cp * (1 + radius sys / 200000) * (1 + nebu_volatility sys / 6000)
                      * (1 + interference sys / 10000),
             planetPeriod := planetPeriod cp * a, planetVariation := planetVariation cp * b,
             sysPeriod := 2000 / (real (length (jumps sys)) + 1)\<rparr>)))"

text \<open>
  Adding an entry to the array \<open>avprice\<close>: to the first one of the same name,
  with \<open>updateTime\<close> counting the entries added, or as a new last element
  (\<open>realloc\<close>; its \<open>sum\<close>, \<open>sum2\<close> and \<open>cnt\<close> are left as they come, and are
  not read before \<open>sum\<close> is written by the next pass).
\<close>

definition av_add :: "string option \<Rightarrow> CommodityPrice \<Rightarrow> CommodityPrice list \<Rightarrow> c_fault + CommodityPrice list" where
  "av_add n cp av =
     sbind (find_idx_e (\<lambda>a. c_streq n (cp_name a)) av) (\<lambda>r. Inr (case r of
        Some k \<Rightarrow> av[k := (av ! k)\<lparr>updateTime := updateTime (av ! k) + 1,
                     price := price (av ! k) + price cp,
                     planetPeriod := planetPeriod (av ! k) + planetPeriod cp,
                     sysPeriod := sysPeriod (av ! k) + sysPeriod cp,
                     planetVariation := planetVariation (av ! k) + planetVariation cp,
                     sysVariation := sysVariation (av ! k) + sysVariation cp\<rparr>]
      | None \<Rightarrow> av @ [cp\<lparr>cp_name := n, updateTime := 1\<rparr>]))"

text \<open>The inner loop over one planet's commodities: modify the entry, then add it.\<close>

definition modify_planet ::
  "catalog \<Rightarrow> StarSystem \<Rightarrow> Planet \<Rightarrow> CommodityPrice list \<Rightarrow> c_fault + Planet \<times> CommodityPrice list" where
  "modify_planet cat sys p av =
     sbind (fold_e (\<lambda>j (cps, av).
               sbind (modify_entry sys (cps ! j)) (\<lambda>cp.
               sbind (av_add (comm_name cat p j) cp av) (\<lambda>av'. Inr (cps[j := cp], av'))))
             [0..<length (commodities p)] (commodityPrice p, av))
       (\<lambda>(cps, av). Inr (p\<lparr>commodityPrice := cps\<rparr>, av))"

definition av_mean :: "CommodityPrice \<Rightarrow> CommodityPrice" where
  "av_mean a =
     (let n = real_of_int (updateTime a) in
      a\<lparr>price := price a / n, planetPeriod := planetPeriod a / n, sysPeriod := sysPeriod a / n,
        planetVariation := planetVariation a / n, sysVariation := sysVariation a / n\<rparr>)"

text \<open>Applying the averages: every \<open>avprice\<close> entry of the same name is applied (the loop has no \<open>break\<close>).\<close>

definition apply_avg :: "CommodityPrice list \<Rightarrow> string option \<Rightarrow> CommodityPrice \<Rightarrow> c_fault + CommodityPrice" where
  "apply_avg av n cp =
     fold_e (\<lambda>a cp. sbind (c_streq n (cp_name a)) (\<lambda>b. Inr (if b then
               cp\<lparr>price := 0.25 * price cp + 0.75 * price a, sysVariation := 0.2 * planetVariation a\<rparr>
             else cp))) av cp"

definition apply_avg_planet :: "catalog \<Rightarrow> CommodityPrice list \<Rightarrow> Planet \<Rightarrow> c_fault + Planet" where
  "apply_avg_planet cat av p =
     sbind (map_e (\<lambda>j. apply_avg av (comm_name cat p j) (commodityPrice p ! j)) [0..<length (commodities p)])
       (\<lambda>cps. Inr (p\<lparr>commodityPrice := cps\<rparr>))"

definition economy_modifySystemCommodityPrice :: "catalog \<Rightarrow> StarSystem \<Rightarrow> c_fault + StarSystem" where
  "economy_modifySystemCommodityPrice cat sys =
     sbind (fold_e (\<lambda>p (ps, av). sbind (modify_planet cat sys p av) (\<lambda>(p', av'). Inr (ps @ [p'], av')))
              (planets sys) ([], [])) (\<lambda>(ps, av).
     (let av' = map av_mean av in
      sbind (map_e (apply_avg_planet cat av') ps) (\<lambda>ps'.
      Inr (sys\<lparr>planets := ps', averagePrice := av'\<rparr>))))"

subsection \<open>Pass 3: the mean price of the neighbouring systems\<close>

definition smooth_entry :: "StarSystem list \<Rightarrow> StarSystem \<Rightarrow> CommodityPrice \<Rightarrow> c_fault + CommodityPrice" where
  "smooth_entry ss sys a =
     sbind (fold_e (\<lambda>t (pr, n).
               sbind (find_idx_e (\<lambda>b. c_streq (cp_name b) (cp_name a)) (averagePrice (ss ! t))) (\<lambda>r.
               Inr (case r of None \<Rightarrow> (pr, n)
                    | Some k \<Rightarrow> (pr + price (averagePrice (ss ! t) ! k), n + 1))))
             (jumps sys) (0, 0 :: int))
       (\<lambda>(pr, n). Inr (a\<lparr>cp_sum := (if n \<noteq> 0 then pr / real_of_int n else price a)\<rparr>))"

definition economy_smoothCommodityPrice :: "StarSystem list \<Rightarrow> StarSystem \<Rightarrow> c_fault + StarSystem" where
  "economy_smoothCommodityPrice ss sys =
     sbind (map_e (smooth_entry ss sys) (averagePrice sys)) (\<lambda>av. Inr (sys\<lparr>averagePrice := av\<rparr>))"

subsection \<open>Pass 4: the updated prices\<close>

definition update_entry :: "CommodityPrice list \<Rightarrow> string option \<Rightarrow> CommodityPrice \<Rightarrow> c_fault + CommodityPrice" where
  "update_entry av n cp =
     sbind (find_idx_e (\<lambda>a. c_streq (cp_name a) n) av) (\<lambda>r. Inr (case r of
        None \<Rightarrow> cp
      | Some k \<Rightarrow>
          (let a = av ! k; pr = 0.25 * price cp + 0.75 * price a;
               pv = 0.1 * (0.5 * planetVariation a + 0.5 * planetVariation cp)
           in cp\<lparr>price := pr, planetVariation := pv * pr, sysVariation := sysVariation cp * pr\<rparr>)))"

definition update_planet :: "catalog \<Rightarrow> CommodityPrice list \<Rightarrow> Planet \<Rightarrow> c_fault + Planet" where
  "update_planet cat av p =
     sbind (map_e (\<lambda>j. update_entry av (comm_name cat p j) (commodityPrice p ! j)) [0..<length (commodities p)])
       (\<lambda>cps. Inr (p\<lparr>commodityPrice := cps\<rparr>))"

definition economy_calcUpdatedCommodityPrice :: "catalog \<Rightarrow> StarSystem \<Rightarrow> c_fault + StarSystem" where
  "economy_calcUpdatedCommodityPrice cat sys =
     (let av = map (\<lambda>a. a\<lparr>price := 0.5 * (price a + cp_sum a)\<rparr>) (averagePrice sys) in
      sbind (map_e (update_planet cat av) (planets sys)) (\<lambda>ps.
      Inr (sys\<lparr>planets := ps, averagePrice := []\<rparr>)))"

subsection \<open>The pipeline\<close>

text \<open>\<open>for (i=0; i<systems_nstack; i++) f(&systems_stack[i]);\<close>, each call seeing the stack as it is.\<close>

definition systems_pass :: "(StarSystem list \<Rightarrow> StarSystem \<Rightarrow> c_fault + StarSystem) \<Rightarrow> StarSystem list \<Rightarrow> c_fault + StarSystem list" where
  "systems_pass f ss = fold_e (\<lambda>i ss. sbind (f ss (ss ! i)) (\<lambda>s. Inr (ss[i := s]))) [0..<length ss] ss"

definition free_modifiers :: "catalog \<Rightarrow> catalog" where
  "free_modifiers cat =
     cat\<lparr>commodity_stack := map (\<lambda>c. c\<lparr>planet_modifier := [], faction_modifier := []\<rparr>) (commodity_stack cat)\<rparr>"

definition economy_initialiseCommodityPrices ::
  "(int \<Rightarrow> string option) \<Rightarrow> catalog \<Rightarrow> StarSystem list \<Rightarrow> c_fault + catalog \<times> StarSystem list" where
  "economy_initialiseCommodityPrices fname cat ss =
     sbind (systems_pass (\<lambda>_. calcPrice_system fname cat) ss) (\<lambda>ss1.
     sbind (systems_pass (\<lambda>_. economy_modifySystemCommodityPrice cat) ss1) (\<lambda>ss2.
     sbind (systems_pass economy_smoothCommodityPrice ss2) (\<lambda>ss3.
     sbind (systems_pass (\<lambda>_. economy_calcUpdatedCommodityPrice cat) ss3) (\<lambda>ss4.
     Inr (free_modifiers cat, ss4)))))"

subsection \<open>Auxiliary definitions\<close>

text \<open>The value a modifier list gives a name, read as an association list.\<close>

definition mod_lookup :: "(string option \<times> real) list \<Rightarrow> string \<Rightarrow> real" where
  "mod_lookup cms n = (case map_of cms (Some n) of None \<Rightarrow> 1 | Some v \<Rightarrow> v)"

text \<open>What the smoothing pass reads of a system: the names and prices of its averages.\<close>

definition name_price :: "StarSystem \<Rightarrow> (string option \<times> real) list" where
  "name_price s = map (\<lambda>a. (cp_name a, price a)) (averagePrice s)"

text \<open>The body of the neighbour loop of \<open>economy_smoothCommodityPrice\<close>, over the names and prices it reads.\<close>

definition smooth_body :: "StarSystem list \<Rightarrow> string option \<Rightarrow> nat \<Rightarrow> real \<times> int \<Rightarrow> c_fault + real \<times> int" where
  "smooth_body ss n t b = (case b of (pr, c) \<Rightarrow> sbind (find_idx_e (\<lambda>q. c_streq (fst q) n) (name_price (ss ! t)))
        (\<lambda>r. Inr (case r of None \<Rightarrow> (pr, c) | Some k \<Rightarrow> (pr + snd (name_price (ss ! t) ! k), c + 1))))"

subsection \<open>Lemmas\<close>

lemma find_idx_map_of:
  "(case find_idx (\<lambda>cm. fst cm = k) cms of None \<Rightarrow> d | Some i \<Rightarrow> snd (cms ! i)) =
   (case map_of cms k of None \<Rightarrow> d | Some v \<Rightarrow> v)"
  by (induction cms) (auto split: option.split)

lemma modifier_scale_total:
  assumes "\<forall>cm\<in>set cms. fst cm \<noteq> None"
  shows "modifier_scale cms (Some n) = Inr (mod_lookup cms n)"
proof -
  have "find_idx_e (\<lambda>cm. c_streq (Some n) (fst cm)) cms = Inr (find_idx (\<lambda>cm. fst cm = Some n) cms)"
    using assms by (intro find_idx_e_total) (auto simp: c_streq_def split: option.split)
  then show ?thesis
    by (simp add: modifier_scale_def mod_lookup_def find_idx_map_of)
qed

lemma modifier_scale_null: "cms \<noteq> [] \<Longrightarrow> modifier_scale cms None = Inl NullDeref"
  by (cases cms) (simp_all add: modifier_scale_def)

lemma ext_scale_ge_1: "1 \<le> ext_scale p"
  unfolding ext_scale_def le_add_same_cancel1
  by (rule divide_nonneg_pos [OF of_nat_0_le_iff]) simp

lemma pop_factor_bounds: "-1 \<le> pop_factor p \<and> pop_factor p < 1"
  using tanh_real_gt_neg1 tanh_real_lt_1 by (auto simp: pop_factor_def less_imp_le)

text \<open>
  When the planet-modifier names are not \<open>NULL\<close>, the planet's faction has a
  name and its presence range is not 30, \<open>economy_calcPrice\<close> succeeds and
  sets the entry to its closed form (the faction's scale is read from the
  planet-modifier list).
\<close>

lemma economy_calcPrice_result:
  assumes "\<forall>cm\<in>set (planet_modifier c). fst cm \<noteq> None"
    and "fname (planet_faction p) = Some f" and "presenceRange p \<noteq> 30"
  shows "economy_calcPrice fname p c cp = Inr (cp\<lparr>
     price := price cp * mod_lookup (planet_modifier c) (planet_class p) * (1 + pop_factor p * population_modifier c)
              * mod_lookup (planet_modifier c) f * (1 - real_of_int (presenceRange p) / 30),
     planetVariation := 0.5 * (0.5 - pop_factor p * 0.25),
     sysVariation := 0, cp_sum := 0, cp_sum2 := 0, cnt := 0, updateTime := 0,
     planetPeriod := (period c + 100) * ext_scale p * (1 + pop_factor p * 0.5)
                     / (1 - real_of_int (presenceRange p) / 30)\<rparr>)"
proof -
  have "1 - real_of_int (presenceRange p) / 30 \<noteq> 0" using assms(3) by simp
  with assms show ?thesis
    by (simp add: economy_calcPrice_def modifier_scale_total Let_def)
qed

lemma economy_calcPrice_faction_modifier:
  "economy_calcPrice fname p (c\<lparr>faction_modifier := x\<rparr>) cp = economy_calcPrice fname p c cp"
  by (simp add: economy_calcPrice_def)

lemma stack_faction_modifier_nth:
  "commodity_name (map (\<lambda>c. c\<lparr>faction_modifier := fm c\<rparr>) cs ! k) = commodity_name (cs ! k) \<and>
   economy_calcPrice fname p (map (\<lambda>c. c\<lparr>faction_modifier := fm c\<rparr>) cs ! k) cp = economy_calcPrice fname p (cs ! k) cp"
  by (cases "k < length cs") (simp_all add: nth_map_past economy_calcPrice_faction_modifier)

lemma comm_name_faction_modifier:
  "comm_name (cat\<lparr>commodity_stack := map (\<lambda>c. c\<lparr>faction_modifier := fm c\<rparr>) (commodity_stack cat)\<rparr>) p j = comm_name cat p j"
  by (simp add: comm_name_def stack_faction_modifier_nth)

lemma catalog_faction_modifier_cong:
  fixes cat :: catalog and fm :: "commodity \<Rightarrow> (string option \<times> real) list"
  defines "cat' \<equiv> cat\<lparr>commodity_stack := map (\<lambda>c. c\<lparr>faction_modifier := fm c\<rparr>) (commodity_stack cat)\<rparr>"
  shows "calcPrice_planet fname cat' = calcPrice_planet fname cat"
    and "modify_planet cat' = modify_planet cat"
    and "apply_avg_planet cat' = apply_avg_planet cat"
    and "update_planet cat' = update_planet cat"
    and "free_modifiers cat' = free_modifiers cat"
proof -
  have n: "comm_name cat' = comm_name cat"
    by (intro ext) (simp add: cat'_def comm_name_faction_modifier)
  show "calcPrice_planet fname cat' = calcPrice_planet fname cat"
    by (intro ext) (simp add: cat'_def calcPrice_planet_def stack_faction_modifier_nth)
  show "modify_planet cat' = modify_planet cat"
    by (intro ext) (simp add: modify_planet_def n)
  show "apply_avg_planet cat' = apply_avg_planet cat"
    by (intro ext) (simp add: apply_avg_planet_def n)
  show "update_planet cat' = update_planet cat"
    by (intro ext) (simp add: update_planet_def n)
  show "free_modifiers cat' = free_modifiers cat"
    by (simp add: cat'_def free_modifiers_def)
qed

text \<open>
  C13: The faction modifiers of the catalog never reach a price: replacing
  every commodity's \<open>faction_modifier\<close> list by any other list leaves the
  result of the whole initialiser \<open>economy_initialiseCommodityPrices\<close>
  unchanged, systems and catalog alike (\<open>economy_calcPrice\<close> walks
  \<open>planet_modifier\<close> for the faction's scale).
\<close>

theorem economy_initialiseCommodityPrices_faction_modifier_unused:
  "economy_initialiseCommodityPrices fname
     (cat\<lparr>commodity_stack := map (\<lambda>c. c\<lparr>faction_modifier := fm c\<rparr>) (commodity_stack cat)\<rparr>) ss =
   economy_initialiseCommodityPrices fname cat ss"
proof -
  let ?cat = "cat\<lparr>commodity_stack := map (\<lambda>c. c\<lparr>faction_modifier := fm c\<rparr>) (commodity_stack cat)\<rparr>"
  have c: "calcPrice_system fname ?cat = calcPrice_system fname cat"
    by (intro ext) (simp only: calcPrice_system_def catalog_faction_modifier_cong)
  have m: "economy_modifySystemCommodityPrice ?cat = economy_modifySystemCommodityPrice cat"
    by (intro ext) (simp only: economy_modifySystemCommodityPrice_def catalog_faction_modifier_cong)
  have u: "economy_calcUpdatedCommodityPrice ?cat = economy_calcUpdatedCommodityPrice cat"
    by (intro ext) (simp only: economy_calcUpdatedCommodityPrice_def catalog_faction_modifier_cong)
  show ?thesis
    by (simp only: economy_initialiseCommodityPrices_def c m u catalog_faction_modifier_cong)
qed

text \<open>
  C14: When the planet's faction has no name (\<open>faction_name\<close> returns \<open>NULL\<close>)
  and the commodity has a planet modifier, \<open>economy_calcPrice\<close> passes
  \<open>NULL\<close> to \<open>strcmp\<close>.
\<close>

theorem economy_calcPrice_null_faction:
  assumes "\<forall>cm\<in>set (planet_modifier c). fst cm \<noteq> None" and "planet_modifier c \<noteq> []"
    and "fname (planet_faction p) = None"
  shows "economy_calcPrice fname p c cp = Inl NullDeref"
  using assms by (simp add: economy_calcPrice_def modifier_scale_total modifier_scale_null)

text \<open>
  C28: Whatever the planet, an entry set by \<open>economy_calcPrice\<close> has planet
  variation between 1/8 and 3/8, no system variation and no observation; its
  planet period is positive when the commodity's period exceeds -100 and the
  presence range is below 30.
\<close>

theorem economy_calcPrice_bounds:
  assumes "economy_calcPrice fname p c cp = Inr cp'" and "-100 < period c" and "presenceRange p < 30"
  shows "1/8 \<le> planetVariation cp' \<and> planetVariation cp' \<le> 3/8 \<and> sysVariation cp' = 0 \<and>
         0 < planetPeriod cp' \<and> cnt cp' = 0 \<and> updateTime cp' = 0"
proof -
  have pf: "-1 \<le> pop_factor p" "pop_factor p < 1" using pop_factor_bounds by auto
  have "0 < ext_scale p" using ext_scale_ge_1 [of p] by simp
  moreover have "0 < 1 + pop_factor p * 0.5" using pf by linarith
  moreover have "0 < 1 - real_of_int (presenceRange p) / 30" using assms(3) by simp
  ultimately have "0 < (period c + 100) * ext_scale p * (1 + pop_factor p * 0.5) * (1 / (1 - real_of_int (presenceRange p) / 30))"
    using assms(2) by simp
  with assms(1) pf show ?thesis
    by (auto simp: economy_calcPrice_def Let_def sbind_Inr_iff c_fdiv_def split: if_splits)
qed

lemma word_of_nat_sub_39:
  "(of_nat l - of_nat 20 - 19 :: 64 word) = word_of_int (int l - 39)"
  by simp

lemma unat_word_of_int_64: "unat (word_of_int x :: 64 word) = nat (x mod 2 ^ 64)"
  by (simp add: unat_eq_nat_uint uint_word_of_int)

text \<open>
  C29: The exterior-graphic scale is computed on 64-bit unsigned lengths: it is
  \<open>1 + ((len - 39) mod 2^64) / 100\<close>, so a name shorter than 39 characters
  gives a scale above \<open>1.8e17\<close> instead of a scale below 1.
\<close>

theorem ext_scale_wrap:
  "ext_scale p = 1 + real_of_int ((int (length (gfx_exterior p)) - 39) mod 2 ^ 64) / 100 \<and>
   (length (gfx_exterior p) < 39 \<longrightarrow> 184467440737095516 < ext_scale p)"
proof -
  let ?l = "length (gfx_exterior p)"
  have path: "length PLANET_GFX_EXTERIOR_PATH = 20" by (simp add: PLANET_GFX_EXTERIOR_PATH_def)
  have eq: "ext_scale p = 1 + real_of_int ((int ?l - 39) mod 2 ^ 64) / 100"
    unfolding ext_scale_def path word_of_nat_sub_39 unat_word_of_int_64 by simp
  moreover have "184467440737095516 < ext_scale p" if l: "?l < 39"
  proof -
    have "0 \<le> int ?l - 39 + 2 ^ 64" "int ?l - 39 + 2 ^ 64 < (2 ^ 64 :: int)" using l by simp_all
    then have "(int ?l - 39 + 2 ^ 64) mod 2 ^ 64 = int ?l - 39 + 2 ^ 64" by (rule mod_pos_pos_trivial)
    then have m: "(int ?l - 39) mod 2 ^ 64 = int ?l - 39 + 2 ^ 64" by (simp only: mod_add_self2)
    have "(2 ^ 64 - 39 :: real) \<le> real_of_int (int ?l - 39 + 2 ^ 64)" by simp
    then show ?thesis unfolding eq m by simp
  qed
  ultimately show ?thesis by blast
qed

lemma systems_pass_local_gen:
  assumes "\<And>ss. f ss = g"
  shows "fold_e (\<lambda>i ss. sbind (f ss (ss ! i)) (\<lambda>s. Inr (ss[i := s]))) [length ys..<length ys + length xs] (ys @ xs) =
         sbind (map_e g xs) (\<lambda>zs. Inr (ys @ zs))"
proof (induction xs arbitrary: ys)
  case (Cons x xs)
  let ?F = "\<lambda>i ss. sbind (f ss (ss ! i)) (\<lambda>s. Inr (ss[i := s]))"
  have upt: "[length ys..<length ys + length (x # xs)] = length ys # [Suc (length ys)..<Suc (length ys) + length xs]"
    by (subst upt_conv_Cons) simp_all
  show ?case
  proof (cases "g x")
    case (Inr y)
    have "fold_e ?F [length ys..<length ys + length (x # xs)] (ys @ x # xs) =
          fold_e ?F [length (ys @ [y])..<length (ys @ [y]) + length xs] ((ys @ [y]) @ xs)"
      unfolding upt using Inr by (simp add: assms)
    also have "\<dots> = sbind (map_e g xs) (\<lambda>zs. Inr ((ys @ [y]) @ zs))" by (rule Cons.IH)
    finally show ?thesis using Inr by (simp add: sbind_def split: sum.split)
  next
    case (Inl e)
    then show ?thesis unfolding upt by (simp add: assms)
  qed
qed simp

lemma systems_pass_local: "(\<And>ss. f ss = g) \<Longrightarrow> systems_pass f ss = map_e g ss"
  using systems_pass_local_gen [of f g "[]" ss] by (simp add: systems_pass_def sbind_def split: sum.split)

lemma fold_e_cong:
  "(\<And>x b. x \<in> set xs \<Longrightarrow> f x b = g x b) \<Longrightarrow> fold_e f xs b = fold_e g xs b"
  by (induction xs arbitrary: b) (simp_all add: sbind_def split: sum.split)

lemma map_e_cong:
  "(\<And>x. x \<in> set xs \<Longrightarrow> f x = g x) \<Longrightarrow> map_e f xs = map_e g xs"
  by (induction xs) simp_all

lemma find_idx_e_map: "find_idx_e P (map f xs) = find_idx_e (P \<circ> f) xs"
  by (induction xs) (simp_all split: sum.split)

lemma smooth_step_name_price:
  "sbind (find_idx_e (\<lambda>b. c_streq (cp_name b) n) (averagePrice s)) (\<lambda>r.
     Inr (case r of None \<Rightarrow> (pr, c) | Some k \<Rightarrow> (pr + price (averagePrice s ! k), c + 1))) =
   sbind (find_idx_e (\<lambda>q. c_streq (fst q) n) (name_price s)) (\<lambda>r.
     Inr (case r of None \<Rightarrow> (pr, c) | Some k \<Rightarrow> (pr + snd (name_price s ! k), c + 1)))"
proof -
  have eq: "find_idx_e (\<lambda>q. c_streq (fst q) n) (name_price s) = find_idx_e (\<lambda>b. c_streq (cp_name b) n) (averagePrice s)"
    by (simp add: name_price_def find_idx_e_map comp_def)
  show ?thesis
  proof (cases "find_idx_e (\<lambda>b. c_streq (cp_name b) n) (averagePrice s)")
    case (Inr r)
    then show ?thesis
      using eq find_idx_e_Some_less [of "\<lambda>b. c_streq (cp_name b) n" "averagePrice s"]
      by (cases r) (simp_all add: name_price_def)
  qed (simp add: eq)
qed

lemma smooth_entry_body:
  "smooth_entry ss sys a =
     sbind (fold_e (smooth_body ss (cp_name a)) (jumps sys) (0, 0))
       (\<lambda>(pr, n). Inr (a\<lparr>cp_sum := (if n \<noteq> 0 then pr / real_of_int n else price a)\<rparr>))"
proof -
  have "fold_e (\<lambda>t (pr, n).
               sbind (find_idx_e (\<lambda>b. c_streq (cp_name b) (cp_name a)) (averagePrice (ss ! t))) (\<lambda>r.
               Inr (case r of None \<Rightarrow> (pr, n)
                    | Some k \<Rightarrow> (pr + price (averagePrice (ss ! t) ! k), n + 1))))
             (jumps sys) (0, 0 :: int) = fold_e (smooth_body ss (cp_name a)) (jumps sys) (0, 0)"
    by (rule fold_e_cong) (simp add: smooth_body_def smooth_step_name_price split: prod.split)
  then show ?thesis by (simp add: smooth_entry_def)
qed

lemma smooth_entry_cong:
  assumes "\<forall>t\<in>set (jumps sys). name_price (ss ! t) = name_price (ss' ! t)"
  shows "smooth_entry ss sys a = smooth_entry ss' sys a"
proof -
  have "fold_e (smooth_body ss (cp_name a)) (jumps sys) (0, 0) = fold_e (smooth_body ss' (cp_name a)) (jumps sys) (0, 0)"
  proof (rule fold_e_cong)
    fix t b assume "t \<in> set (jumps sys)"
    then have e: "name_price (ss ! t) = name_price (ss' ! t)" using assms by blast
    show "smooth_body ss (cp_name a) t b = smooth_body ss' (cp_name a) t b"
      unfolding smooth_body_def e by (rule refl)
  qed
  then show ?thesis by (simp add: smooth_entry_body)
qed

lemma smooth_cong:
  "\<forall>t\<in>set (jumps sys). name_price (ss ! t) = name_price (ss' ! t) \<Longrightarrow>
   economy_smoothCommodityPrice ss sys = economy_smoothCommodityPrice ss' sys"
  unfolding economy_smoothCommodityPrice_def
  by (subst map_e_cong [where g = "smooth_entry ss' sys"]) (simp_all add: smooth_entry_cong)

lemma smooth_entry_shape: "smooth_entry ss sys a = Inr a' \<Longrightarrow> a' = a\<lparr>cp_sum := cp_sum a'\<rparr>"
  by (auto simp: smooth_entry_def sbind_Inr_iff split: prod.splits)

lemma smooth_shape:
  assumes "economy_smoothCommodityPrice ss sys = Inr s'"
  shows "name_price s' = name_price sys \<and> s' = sys\<lparr>averagePrice := averagePrice s'\<rparr>"
proof -
  from assms obtain av where av: "map_e (smooth_entry ss sys) (averagePrice sys) = Inr av"
    and s': "s' = sys\<lparr>averagePrice := av\<rparr>"
    by (auto simp: economy_smoothCommodityPrice_def sbind_Inr_iff)
  from map_e_Inr [OF av] have "length av = length (averagePrice sys)"
    "\<forall>i<length av. av ! i = (averagePrice sys ! i)\<lparr>cp_sum := cp_sum (av ! i)\<rparr>"
    by (auto dest: smooth_entry_shape)
  then have "map (\<lambda>a. (cp_name a, price a)) av = map (\<lambda>a. (cp_name a, price a)) (averagePrice sys)"
    by (intro nth_equalityI) (simp_all, metis CommodityPrice.select_convs(1,2) CommodityPrice.surjective CommodityPrice.update_convs(8))
  with s' show ?thesis by (simp add: name_price_def)
qed

lemma smooth_pass_gen:
  assumes tgt: "\<forall>s\<in>set ss. \<forall>t\<in>set (jumps s). t < length ss"
  shows "map name_price (ys @ xs) = map name_price ss \<Longrightarrow> xs = drop (length ys) ss \<Longrightarrow>
    fold_e (\<lambda>i ss'. sbind (economy_smoothCommodityPrice ss' (ss' ! i)) (\<lambda>s. Inr (ss'[i := s])))
      [length ys..<length ys + length xs] (ys @ xs) =
    sbind (map_e (economy_smoothCommodityPrice ss) xs) (\<lambda>zs. Inr (ys @ zs))"
proof (induction xs arbitrary: ys)
  case (Cons x xs)
  let ?cur = "ys @ x # xs"
  have len: "length ?cur = length ss" using Cons.prems(1) by (metis length_map)
  have x: "x \<in> set ss" using Cons.prems(2) by (metis in_set_dropD list.set_intros(1))
  have "name_price (?cur ! t) = name_price (ss ! t)" if "t \<in> set (jumps x)" for t
  proof -
    have "t < length ss" using tgt x that by blast
    then show ?thesis using Cons.prems(1) len by (metis nth_map)
  qed
  then have sm: "economy_smoothCommodityPrice ?cur x = economy_smoothCommodityPrice ss x"
    by (intro smooth_cong) blast
  have upt: "[length ys..<length ys + length (x # xs)] = length ys # [Suc (length ys)..<Suc (length ys) + length xs]"
    by (subst upt_conv_Cons) simp_all
  show ?case
  proof (cases "economy_smoothCommodityPrice ss x")
    case (Inr y)
    from smooth_shape [OF Inr] have np: "name_price y = name_price x" by simp
    have cur': "?cur[length ys := y] = (ys @ [y]) @ xs" by simp
    have "map name_price ((ys @ [y]) @ xs) = map name_price ss" using Cons.prems(1) np by simp
    moreover have "xs = drop (length (ys @ [y])) ss" using Cons.prems(2) by (metis Suc_eq_plus1 drop_Suc drop_drop length_append_singleton list.sel(3) tl_drop)
    ultimately have ih: "fold_e (\<lambda>i ss'. sbind (economy_smoothCommodityPrice ss' (ss' ! i)) (\<lambda>s. Inr (ss'[i := s])))
        [length (ys @ [y])..<length (ys @ [y]) + length xs] ((ys @ [y]) @ xs) =
        sbind (map_e (economy_smoothCommodityPrice ss) xs) (\<lambda>zs. Inr ((ys @ [y]) @ zs))"
      by (rule Cons.IH)
    show ?thesis unfolding upt using Inr sm cur' ih by (simp add: sbind_def split: sum.split)
  next
    case (Inl e)
    then show ?thesis unfolding upt using sm by simp
  qed
qed simp

text \<open>
  C30: When the jumps target systems of the stack, the in-place loop of the
  third pass (each system smoothed against the stack as the previous
  iterations left it) gives the same result as smoothing every system against
  the stack as the second pass left it: smoothing writes only \<open>sum\<close> and
  reads only names and prices.
\<close>

theorem economy_smoothCommodityPrice_pass_parallel:
  assumes "\<forall>s\<in>set ss. \<forall>t\<in>set (jumps s). t < length ss"
  shows "systems_pass economy_smoothCommodityPrice ss = map_e (economy_smoothCommodityPrice ss) ss"
  using smooth_pass_gen [OF assms, of "[]" ss] by (simp add: systems_pass_def sbind_def split: sum.split)

end
