(* ===== verification/Persistence.thy ===== *)
theory Persistence
  imports Observation
begin

text \<open>
  Saving and restoring what the player has seen of the economy
  (src/src/economy.c, \<open>economy_sysSave\<close> and \<open>economy_sysLoad\<close>). The save
  writes an \<open><economy>\<close> element: one \<open><lastPurchase>\<close> per commodity bought at
  a positive price, then per system and planet one \<open><commodity>\<close> element per
  price entry observed at least once, with its accumulators as attributes.
  The load clears all knowledge, then walks the elements, finding planets
  with \<open>planet_get\<close> and commodities with \<open>strcmp\<close> and \<open>commodity_get\<close>.
  The XML tree is modelled by its elements, and an attribute by the number
  its text denotes: what \<open>printf\<close> writes and what \<open>atof\<close>/\<open>atoi\<close>/\<open>atol\<close>
  read back. An absent attribute is \<open>None\<close>. The lemmas prove that loading a
  save restores exactly the observed entries and the positive purchase
  prices (\<open>economy_sysLoad_sysSave\<close>), that whatever the document a load
  changes only what \<open>economy_clearKnown\<close> clears, and that a save naming an unknown
  commodity or planet makes the load dereference \<open>NULL\<close>.
\<close>

subsection \<open>The save document\<close>

datatype comm_elem =
    CommodityElem (ce_name: "string option") (ce_sum: "real option") (ce_sum2: "real option")
                  (ce_cnt: "int option") (ce_time: "nat option")
  | OtherCommodityNode

datatype asset_elem = PlanetElem (pe_name: "string option") (pe_children: "comm_elem list") | OtherAssetNode

datatype econ_elem =
    SystemElem (se_name: "string option") (se_children: "asset_elem list")
  | LastPurchaseElem (lp_name: "string option") (lp_raw: nat)
  | OtherEconNode

datatype save_elem = EconomyElem "econ_elem list" | OtherSaveNode

subsection \<open>Formatting and parsing numbers\<close>

text \<open>\<open>"%f"\<close>: six decimals.\<close>

definition c_fmt_f :: "real \<Rightarrow> real" where
  "c_fmt_f x = real_of_int (round (x * 1000000)) / 1000000"

text \<open>\<open>PRIu64\<close> applied to a signed 64-bit value prints it modulo \<open>2^64\<close>.\<close>

definition c_fmt_u64 :: "int \<Rightarrow> nat" where
  "c_fmt_u64 t = nat (t mod 2 ^ 64)"

text \<open>\<open>atol\<close> (glibc \<open>strtol\<close>) of a string of decimal digits saturates at \<open>LONG_MAX\<close>.\<close>

definition c_atol :: "nat \<Rightarrow> int" where
  "c_atol v = int (min v (2 ^ 63 - 1))"

text \<open>\<open>"%s"\<close> of a \<open>NULL\<close> string prints \<open>(null)\<close> (glibc).\<close>

definition c_fmt_s :: "string option \<Rightarrow> string" where
  "c_fmt_s s = (case s of None \<Rightarrow> ''(null)'' | Some x \<Rightarrow> x)"

subsection \<open>Saving\<close>

definition save_entry :: "catalog \<Rightarrow> Planet \<Rightarrow> nat \<Rightarrow> comm_elem list" where
  "save_entry cat p k =
     (let cp = commodityPrice p ! k in
      if 0 < cnt cp
      then [CommodityElem (Some (c_fmt_s (comm_name cat p k))) (Some (c_fmt_f (cp_sum cp)))
              (Some (c_fmt_f (cp_sum2 cp))) (Some (cnt cp)) (Some (c_fmt_u64 (updateTime cp)))]
      else [])"

text \<open>A \<open><planet>\<close> element is opened only when one of its entries is written (\<open>donePlanet\<close>).\<close>

definition save_planet :: "catalog \<Rightarrow> Planet \<Rightarrow> asset_elem list" where
  "save_planet cat p =
     (let cs = concat (map (save_entry cat p) [0..<length (commodities p)])
      in if cs = [] then [] else [PlanetElem (Some (planet_name p)) cs])"

definition save_system :: "catalog \<Rightarrow> StarSystem \<Rightarrow> econ_elem list" where
  "save_system cat s =
     (let ps = concat (map (save_planet cat) (planets s))
      in if ps = [] then [] else [SystemElem (Some (sys_name s)) ps])"

definition save_last :: "commodity \<Rightarrow> econ_elem list" where
  "save_last c =
     (if 0 < lastPurchasePrice c
      then [LastPurchaseElem (Some (c_fmt_s (commodity_name c))) (c_fmt_u64 (lastPurchasePrice c))]
      else [])"

definition economy_sysSave :: "catalog \<Rightarrow> StarSystem list \<Rightarrow> save_elem list" where
  "economy_sysSave cat ss =
     [EconomyElem (concat (map save_last (commodity_stack cat)) @ concat (map (save_system cat) ss))]"

subsection \<open>Loading\<close>

text \<open>
  \<open>planet_get\<close> (space.c) warns and returns \<open>NULL\<close> for a \<open>NULL\<close> name and for a
  name no planet has; otherwise it searches \<open>planet_stack\<close> with \<open>strcmp\<close>.
  Here the planets are visited system by system and the result is the
  position of the planet, \<open>None\<close> for \<open>NULL\<close>.
\<close>

definition planet_positions :: "StarSystem list \<Rightarrow> (nat \<times> nat) list" where
  "planet_positions ss = concat (map (\<lambda>i. map (\<lambda>j. (i, j)) [0..<length (planets (ss ! i))]) [0..<length ss])"

definition planet_get :: "StarSystem list \<Rightarrow> string option \<Rightarrow> (nat \<times> nat) option" where
  "planet_get ss n =
     (case n of
        None \<Rightarrow> None
      | Some s \<Rightarrow> map_option (\<lambda>q. planet_positions ss ! q)
                   (find_idx (\<lambda>(i, j). planet_name (planets (ss ! i) ! j) = s) (planet_positions ss)))"

text \<open>Rewriting entry \<open>k\<close> of planet \<open>j\<close> of system \<open>i\<close>.\<close>

definition upd_entry :: "StarSystem list \<Rightarrow> nat \<Rightarrow> nat \<Rightarrow> nat \<Rightarrow> (CommodityPrice \<Rightarrow> CommodityPrice) \<Rightarrow> StarSystem list" where
  "upd_entry ss i j k f =
     ss[i := (ss ! i)\<lparr>planets := (planets (ss ! i))[j :=
        (planets (ss ! i) ! j)\<lparr>commodityPrice := (commodityPrice (planets (ss ! i) ! j))[k :=
           f (commodityPrice (planets (ss ! i) ! j) ! k)]\<rparr>]\<rparr>]"

text \<open>The attributes present are parsed into the entry; absent ones leave it as it is.\<close>

definition load_fields ::
  "real option \<Rightarrow> real option \<Rightarrow> int option \<Rightarrow> nat option \<Rightarrow> CommodityPrice \<Rightarrow> CommodityPrice" where
  "load_fields su su2 c t cp =
     cp\<lparr>cp_sum := case_option (cp_sum cp) id su, cp_sum2 := case_option (cp_sum2 cp) id su2,
        cnt := case_option (cnt cp) id c, updateTime := case_option (updateTime cp) c_atol t\<rparr>"

text \<open>
  One \<open><commodity>\<close> element inside the \<open><planet>\<close> at \<open>pos\<close>: a \<open>NULL\<close> planet is
  dereferenced (\<open>planet->ncommodities\<close>); a name the planet does not trade
  is skipped.
\<close>

fun load_commodity ::
  "catalog \<Rightarrow> (nat \<times> nat) option \<Rightarrow> comm_elem \<Rightarrow> StarSystem list \<Rightarrow> c_fault + StarSystem list" where
  "load_commodity cat pos OtherCommodityNode ss = Inr ss"
| "load_commodity cat None (CommodityElem n su su2 c t) ss = Inl NullDeref"
| "load_commodity cat (Some (i, j)) (CommodityElem n su su2 c t) ss =
     sbind (find_idx_e (\<lambda>k. c_streq n (commodity_name (commodity_stack cat ! k)))
              (commodities (planets (ss ! i) ! j)))
       (\<lambda>r. Inr (case r of None \<Rightarrow> ss | Some k \<Rightarrow> upd_entry ss i j k (load_fields su su2 c t)))"

fun load_asset :: "catalog \<Rightarrow> asset_elem \<Rightarrow> StarSystem list \<Rightarrow> c_fault + StarSystem list" where
  "load_asset cat OtherAssetNode ss = Inr ss"
| "load_asset cat (PlanetElem n cs) ss = fold_e (load_commodity cat (planet_get ss n)) cs ss"

text \<open>
  The system that \<open>system_get\<close> (space.c) returns for the \<open>name\<close> attribute
  is not used. A \<open><lastPurchase>\<close> element without a name is skipped; one
  whose commodity is not in the stack dereferences the \<open>NULL\<close> that
  \<open>commodity_get\<close> returns.
\<close>

fun load_econ_elem :: "econ_elem \<Rightarrow> catalog \<times> StarSystem list \<Rightarrow> c_fault + catalog \<times> StarSystem list" where
  "load_econ_elem OtherEconNode st = Inr st"
| "load_econ_elem (SystemElem n as) (cat, ss) = sbind (fold_e (load_asset cat) as ss) (\<lambda>ss'. Inr (cat, ss'))"
| "load_econ_elem (LastPurchaseElem n v) (cat, ss) =
     (case n of
        None \<Rightarrow> Inr (cat, ss)
      | Some s \<Rightarrow> sbind (commodity_get cat s) (\<lambda>r. case r of
          None \<Rightarrow> Inl NullDeref
        | Some k \<Rightarrow> Inr (cat\<lparr>commodity_stack := (commodity_stack cat)[k :=
                      (commodity_stack cat ! k)\<lparr>lastPurchasePrice := c_atol v\<rparr>]\<rparr>, ss)))"

fun load_save_elem :: "save_elem \<Rightarrow> catalog \<times> StarSystem list \<Rightarrow> c_fault + catalog \<times> StarSystem list" where
  "load_save_elem (EconomyElem es) st = fold_e load_econ_elem es st"
| "load_save_elem OtherSaveNode st = Inr st"

definition economy_sysLoad ::
  "save_elem list \<Rightarrow> catalog \<Rightarrow> StarSystem list \<Rightarrow> c_fault + catalog \<times> StarSystem list" where
  "economy_sysLoad doc cat ss = fold_e load_save_elem doc (economy_clearKnown cat ss)"

subsection \<open>The state seen as a function of positions\<close>

text \<open>The entry at position \<open>(i, j, k)\<close>, and the universe with its entries replaced.\<close>

definition entry :: "StarSystem list \<Rightarrow> nat \<Rightarrow> nat \<Rightarrow> nat \<Rightarrow> CommodityPrice" where
  "entry ss i j k = commodityPrice (planets (ss ! i) ! j) ! k"

definition with_entries ::
  "StarSystem list \<Rightarrow> (nat \<Rightarrow> nat \<Rightarrow> nat \<Rightarrow> CommodityPrice) \<Rightarrow> StarSystem list" where
  "with_entries ss g =
     map (\<lambda>i. (ss ! i)\<lparr>planets := map (\<lambda>j. (planets (ss ! i) ! j)\<lparr>commodityPrice :=
        map (g i j) [0..<length (commodityPrice (planets (ss ! i) ! j))]\<rparr>) [0..<length (planets (ss ! i))]\<rparr>)
       [0..<length ss]"

text \<open>What a restored game keeps: the entries observed and the positive purchase prices.\<close>

definition keep_seen_entry :: "CommodityPrice \<Rightarrow> CommodityPrice" where
  "keep_seen_entry cp = (if 0 < cnt cp then cp else clear_price cp)"

definition economy_keepSeen :: "catalog \<Rightarrow> StarSystem list \<Rightarrow> catalog \<times> StarSystem list" where
  "economy_keepSeen cat ss =
     (cat\<lparr>commodity_stack := map (\<lambda>c. if 0 < lastPurchasePrice c then c else c\<lparr>lastPurchasePrice := 0\<rparr>)
                                (commodity_stack cat)\<rparr>,
      map (\<lambda>s. s\<lparr>planets := map (\<lambda>p. p\<lparr>commodityPrice := map keep_seen_entry (commodityPrice p)\<rparr>)
                                (planets s)\<rparr>) ss)"

text \<open>A position of the universe: system \<open>i\<close>, planet \<open>j\<close>, entry \<open>k\<close>.\<close>

definition valid_pos :: "StarSystem list \<Rightarrow> nat \<Rightarrow> nat \<Rightarrow> nat \<Rightarrow> bool" where
  "valid_pos ss i j k \<longleftrightarrow> i < length ss \<and> j < length (planets (ss ! i)) \<and>
     k < length (commodityPrice (planets (ss ! i) ! j))"

text \<open>
  When a save can be read back: names that \<open>strcmp\<close> can compare and that
  identify commodities and planets, values that the formats print exactly
  (\<open>%f\<close> keeps six decimals; \<open>PRIu64\<close> and \<open>atol\<close> agree below \<open>2^63\<close>).
\<close>

definition wf_save :: "catalog \<Rightarrow> StarSystem list \<Rightarrow> bool" where
  "wf_save cat ss \<longleftrightarrow>
     (\<forall>c\<in>set (commodity_stack cat). commodity_name c \<noteq> None \<and>
        (0 < lastPurchasePrice c \<longrightarrow> lastPurchasePrice c < 2 ^ 63)) \<and>
     distinct (map commodity_name (commodity_stack cat)) \<and>
     distinct (map planet_name (concat (map planets ss))) \<and>
     (\<forall>s\<in>set ss. \<forall>p\<in>set (planets s). wf_planet cat p \<and> distinct (commodities p) \<and>
        (\<forall>cp\<in>set (commodityPrice p). 0 < cnt cp \<longrightarrow>
           c_fmt_f (cp_sum cp) = cp_sum cp \<and> c_fmt_f (cp_sum2 cp) = cp_sum2 cp \<and>
           0 \<le> updateTime cp \<and> updateTime cp < 2 ^ 63))"

subsection \<open>Entries as a function of positions\<close>

lemma with_entries_length [simp]: "length (with_entries ss g) = length ss"
  by (simp add: with_entries_def)

lemma with_entries_nth:
  "i < length ss \<Longrightarrow> with_entries ss g ! i =
     (ss ! i)\<lparr>planets := map (\<lambda>j. (planets (ss ! i) ! j)\<lparr>commodityPrice :=
        map (g i j) [0..<length (commodityPrice (planets (ss ! i) ! j))]\<rparr>) [0..<length (planets (ss ! i))]\<rparr>"
  by (simp add: with_entries_def)

lemma with_entries_planet:
  "i < length ss \<Longrightarrow> j < length (planets (ss ! i)) \<Longrightarrow>
   planets (with_entries ss g ! i) ! j = (planets (ss ! i) ! j)\<lparr>commodityPrice :=
        map (g i j) [0..<length (commodityPrice (planets (ss ! i) ! j))]\<rparr>"
  by (simp add: with_entries_nth)

lemma with_entries_planets_length [simp]:
  "i < length ss \<Longrightarrow> length (planets (with_entries ss g ! i)) = length (planets (ss ! i))"
  by (simp add: with_entries_nth)

lemma entry_with_entries:
  "valid_pos ss i j k \<Longrightarrow> entry (with_entries ss g) i j k = g i j k"
  by (simp add: valid_pos_def entry_def with_entries_planet)

lemma with_entries_id: "with_entries ss (entry ss) = ss"
proof (rule nth_equalityI)
  fix i assume i: "i < length (with_entries ss (entry ss))"
  have "map (\<lambda>j. (planets (ss ! i) ! j)\<lparr>commodityPrice :=
        map (entry ss i j) [0..<length (commodityPrice (planets (ss ! i) ! j))]\<rparr>) [0..<length (planets (ss ! i))] =
        planets (ss ! i)"
    by (rule nth_equalityI) (simp_all add: entry_def [abs_def] map_nth)
  with i show "with_entries ss (entry ss) ! i = ss ! i" by (simp add: with_entries_nth)
qed simp

lemma with_entries_twice: "with_entries (with_entries ss g) h = with_entries ss h"
  by (rule nth_equalityI) (simp_all add: with_entries_nth comp_def)

lemma upd_entry_with_entries:
  assumes "valid_pos ss i j k"
  shows "upd_entry (with_entries ss g) i j k f =
         with_entries ss (\<lambda>i' j' k'. if (i', j', k') = (i, j, k) then f (g i j k) else g i' j' k')"
proof (rule nth_equalityI)
  fix i' assume "i' < length (upd_entry (with_entries ss g) i j k f)"
  then have i': "i' < length ss" by (simp add: upd_entry_def)
  show "upd_entry (with_entries ss g) i j k f ! i' =
        with_entries ss (\<lambda>i' j' k'. if (i', j', k') = (i, j, k) then f (g i j k) else g i' j' k') ! i'"
  proof (cases "i' = i")
    case True
    with assms i' show ?thesis
      by (simp add: valid_pos_def upd_entry_def with_entries_nth map_upt_update cong: if_cong)
  next
    case False
    with i' show ?thesis by (simp add: upd_entry_def with_entries_nth)
  qed
qed (simp add: upd_entry_def)

lemma map_entries_with_entries:
  "map (\<lambda>s. s\<lparr>planets := map (\<lambda>p. p\<lparr>commodityPrice := map f (commodityPrice p)\<rparr>) (planets s)\<rparr>) ss =
   with_entries ss (\<lambda>i j k. f (entry ss i j k))"
proof (rule nth_equalityI)
  fix i assume "i < length (map (\<lambda>s. s\<lparr>planets := map (\<lambda>p. p\<lparr>commodityPrice := map f (commodityPrice p)\<rparr>) (planets s)\<rparr>) ss)"
  then have i: "i < length ss" by simp
  have "map (\<lambda>p. p\<lparr>commodityPrice := map f (commodityPrice p)\<rparr>) (planets (ss ! i)) =
        map (\<lambda>j. (planets (ss ! i) ! j)\<lparr>commodityPrice := map (\<lambda>k. f (entry ss i j k))
           [0..<length (commodityPrice (planets (ss ! i) ! j))]\<rparr>) [0..<length (planets (ss ! i))]"
    by (rule nth_equalityI) (simp_all add: entry_def map_upt_nth)
  with i show "map (\<lambda>s. s\<lparr>planets := map (\<lambda>p. p\<lparr>commodityPrice := map f (commodityPrice p)\<rparr>) (planets s)\<rparr>) ss ! i =
        with_entries ss (\<lambda>i j k. f (entry ss i j k)) ! i"
    by (simp add: with_entries_nth)
qed simp

lemma clearKnown_with_entries:
  "snd (economy_clearKnown cat ss) = with_entries ss (\<lambda>i j k. clear_price (entry ss i j k))"
  by (simp add: economy_clearKnown_def map_entries_with_entries)

lemma keepSeen_with_entries:
  "snd (economy_keepSeen cat ss) = with_entries ss (\<lambda>i j k. keep_seen_entry (entry ss i j k))"
  by (simp add: economy_keepSeen_def map_entries_with_entries)

lemma with_entries_commodities [simp]:
  "i < length ss \<Longrightarrow> j < length (planets (ss ! i)) \<Longrightarrow>
   commodities (planets (with_entries ss g ! i) ! j) = commodities (planets (ss ! i) ! j)"
  "i < length ss \<Longrightarrow> j < length (planets (ss ! i)) \<Longrightarrow>
   planet_name (planets (with_entries ss g ! i) ! j) = planet_name (planets (ss ! i) ! j)"
  by (simp_all add: with_entries_planet)

subsection \<open>Lookups in a saved universe\<close>

lemma planet_positions_with_entries: "planet_positions (with_entries ss g) = planet_positions ss"
  unfolding planet_positions_def by (rule arg_cong [where f = concat]) (rule map_cong, simp_all)

lemma planet_positions_valid: "(i, j) \<in> set (planet_positions ss) \<longleftrightarrow> i < length ss \<and> j < length (planets (ss ! i))"
  unfolding planet_positions_def set_concat set_map by force

lemma planet_get_with_entries: "planet_get (with_entries ss g) n = planet_get ss n"
proof -
  have "find_idx (\<lambda>(i, j). planet_name (planets (with_entries ss g ! i) ! j) = s) (planet_positions ss) =
        find_idx (\<lambda>(i, j). planet_name (planets (ss ! i) ! j) = s) (planet_positions ss)" for s
    by (rule find_idx_cong) (auto simp: planet_positions_valid)
  then show ?thesis by (simp add: planet_get_def planet_positions_with_entries split: option.split)
qed

lemma planets_at_positions: "map (\<lambda>(i, j). planets (ss ! i) ! j) (planet_positions ss) = concat (map planets ss)"
proof -
  have "map (\<lambda>i. map (\<lambda>j. planets (ss ! i) ! j) [0..<length (planets (ss ! i))]) [0..<length ss] = map planets ss"
    by (rule nth_equalityI) (simp_all add: map_nth)
  then show ?thesis by (simp add: planet_positions_def map_concat comp_def)
qed

lemma planet_get_found:
  assumes "distinct (map planet_name (concat (map planets ss)))" and "i < length ss" and "j < length (planets (ss ! i))"
  shows "planet_get ss (Some (planet_name (planets (ss ! i) ! j))) = Some (i, j)"
proof -
  let ?f = "\<lambda>(i, j). planet_name (planets (ss ! i) ! j)"
  have "map ?f (planet_positions ss) = map planet_name (map (\<lambda>(i, j). planets (ss ! i) ! j) (planet_positions ss))"
    by (simp add: case_prod_beta)
  then have d: "distinct (map ?f (planet_positions ss))"
    using assms(1) by (simp only: planets_at_positions)
  have "(i, j) \<in> set (planet_positions ss)" using assms(2,3) by (simp add: planet_positions_valid)
  then obtain q where q: "q < length (planet_positions ss)" "planet_positions ss ! q = (i, j)"
    by (auto simp: in_set_conv_nth)
  have "find_idx (\<lambda>pos. ?f pos = ?f (planet_positions ss ! q)) (planet_positions ss) = Some q"
    by (rule find_idx_distinct [OF d q(1)])
  moreover have "(\<lambda>pos. ?f pos = ?f (planet_positions ss ! q)) =
      (\<lambda>(i', j'). planet_name (planets (ss ! i') ! j') = planet_name (planets (ss ! i) ! j))"
    using q(2) by (auto split: prod.split)
  ultimately show ?thesis using q(2) by (simp add: planet_get_def)
qed


lemma stack_names_inj:
  assumes "distinct (map commodity_name (commodity_stack cat))" and "wf_planet cat p" and "distinct (commodities p)"
  shows "distinct (map (\<lambda>k. commodity_name (commodity_stack cat ! k)) (commodities p))"
proof -
  have "inj_on (\<lambda>k. commodity_name (commodity_stack cat ! k)) (set (commodities p))"
  proof (rule inj_onI)
    fix x y assume "x \<in> set (commodities p)" "y \<in> set (commodities p)"
      and "commodity_name (commodity_stack cat ! x) = commodity_name (commodity_stack cat ! y)"
    moreover from assms(2) \<open>x \<in> set (commodities p)\<close> \<open>y \<in> set (commodities p)\<close>
    have "x < length (commodity_stack cat)" "y < length (commodity_stack cat)" by (auto simp: wf_planet_def)
    ultimately show "x = y" using assms(1) by (metis length_map nth_map nth_eq_iff_index_eq)
  qed
  with assms(3) show ?thesis by (simp add: distinct_map)
qed

lemma comm_find:
  assumes dn: "distinct (map commodity_name (commodity_stack cat))" and wfp: "wf_planet cat p"
    and d: "distinct (commodities p)" and k: "k < length (commodities p)"
    and nm: "map commodity_name (commodity_stack cl) = map commodity_name (commodity_stack cat)"
  shows "find_idx_e (\<lambda>k'. c_streq (Some (c_fmt_s (comm_name cat p k))) (commodity_name (commodity_stack cl ! k')))
           (commodities p) = Inr (Some k)"
proof -
  let ?n = "\<lambda>k'. commodity_name (commodity_stack cat ! k')"
  have same: "commodity_name (commodity_stack cl ! x) = ?n x" if "x \<in> set (commodities p)" for x
  proof -
    have "x < length (commodity_stack cat)" using wfp that by (simp add: wf_planet_def)
    moreover have "length (commodity_stack cl) = length (commodity_stack cat)" using nm by (metis length_map)
    ultimately show ?thesis using nm by (metis nth_map)
  qed
  have "commodities p ! k \<in> set (commodities p)" using k by simp
  with wfp have "?n (commodities p ! k) \<noteq> None" by (simp add: wf_planet_def)
  then obtain nk where nk: "?n (commodities p ! k) = Some nk" by blast
  then have s: "c_fmt_s (comm_name cat p k) = nk" by (simp add: comm_name_def c_fmt_s_def)
  have "find_idx_e (\<lambda>k'. c_streq (Some nk) (commodity_name (commodity_stack cl ! k'))) (commodities p) =
        Inr (find_idx (\<lambda>k'. ?n k' = ?n (commodities p ! k)) (commodities p))"
  proof (rule find_idx_e_total)
    fix x assume x: "x \<in> set (commodities p)"
    with wfp obtain y where "?n x = Some y" by (auto simp: wf_planet_def)
    with nk same [OF x] show "c_streq (Some nk) (commodity_name (commodity_stack cl ! x)) = Inr (?n x = ?n (commodities p ! k))"
      by auto
  qed
  also have "find_idx (\<lambda>k'. ?n k' = ?n (commodities p ! k)) (commodities p) = Some k"
    by (rule find_idx_distinct [OF stack_names_inj [OF dn wfp d] k])
  finally show ?thesis by (simp add: s)
qed

subsection \<open>Reading back one entry, one planet, one system\<close>

lemma load_fields_clear:
  "load_fields (Some a) (Some b) (Some c) (Some t) x =
   (clear_price x)\<lparr>cp_sum := a, cp_sum2 := b, cnt := c, updateTime := c_atol t\<rparr>"
  by (simp add: load_fields_def clear_price_def)

lemma c_atol_fmt: "0 \<le> t \<Longrightarrow> t < 2 ^ 63 \<Longrightarrow> c_atol (c_fmt_u64 t) = t"
  by (simp add: c_atol_def c_fmt_u64_def)

lemma load_fields_roundtrip:
  assumes "clear_price x = clear_price cp" and "0 \<le> updateTime cp" and "updateTime cp < 2 ^ 63"
  shows "load_fields (Some (cp_sum cp)) (Some (cp_sum2 cp)) (Some (cnt cp)) (Some (c_fmt_u64 (updateTime cp))) x = cp"
  using assms by (simp add: load_fields_clear c_atol_fmt) (simp add: clear_price_def)


lemma wf_save_planet:
  assumes "wf_save cat ss" and "i < length ss" and "j < length (planets (ss ! i))"
  shows "wf_planet cat (planets (ss ! i) ! j) \<and> distinct (commodities (planets (ss ! i) ! j))"
proof -
  have "ss ! i \<in> set ss" "planets (ss ! i) ! j \<in> set (planets (ss ! i))" using assms(2,3) by simp_all
  with assms(1) show ?thesis unfolding wf_save_def by blast
qed

lemma wf_save_entry:
  assumes "wf_save cat ss" and "i < length ss" and "j < length (planets (ss ! i))"
    and "k < length (commodityPrice (planets (ss ! i) ! j))" and "0 < cnt (entry ss i j k)"
  shows "c_fmt_f (cp_sum (entry ss i j k)) = cp_sum (entry ss i j k) \<and>
         c_fmt_f (cp_sum2 (entry ss i j k)) = cp_sum2 (entry ss i j k) \<and>
         0 \<le> updateTime (entry ss i j k) \<and> updateTime (entry ss i j k) < 2 ^ 63"
proof -
  have "ss ! i \<in> set ss" "planets (ss ! i) ! j \<in> set (planets (ss ! i))" "entry ss i j k \<in> set (commodityPrice (planets (ss ! i) ! j))"
    using assms(2-4) by (simp_all add: entry_def)
  with assms(1,5) show ?thesis unfolding wf_save_def by blast
qed

lemma load_one_entry:
  assumes wf: "wf_save cat ss" and i: "i < length ss" and j: "j < length (planets (ss ! i))"
    and k: "k < length (commodities (planets (ss ! i) ! j))"
    and g: "clear_price (g i j k) = clear_price (entry ss i j k)"
    and nm: "map commodity_name (commodity_stack cl) = map commodity_name (commodity_stack cat)"
  shows "fold_e (load_commodity cl (Some (i, j))) (save_entry cat (planets (ss ! i) ! j) k) (with_entries ss g) =
         Inr (with_entries ss (\<lambda>i' j' k'. if (i', j', k') = (i, j, k) \<and> 0 < cnt (entry ss i j k) then entry ss i j k else g i' j' k'))"
proof (cases "0 < cnt (entry ss i j k)")
  case False
  then show ?thesis by (simp add: save_entry_def entry_def [symmetric])
next
  case True
  let ?p = "planets (ss ! i) ! j" and ?cp = "entry ss i j k"
  from wf_save_planet [OF wf i j] have wfp: "wf_planet cat ?p" and d: "distinct (commodities ?p)" by simp_all
  then have kp: "k < length (commodityPrice ?p)" using k by (simp add: wf_planet_def)
  have dn: "distinct (map commodity_name (commodity_stack cat))" using wf by (simp add: wf_save_def)
  note fmt = wf_save_entry [OF wf i j kp True]
  have save: "save_entry cat ?p k = [CommodityElem (Some (c_fmt_s (comm_name cat ?p k))) (Some (cp_sum ?cp))
                 (Some (cp_sum2 ?cp)) (Some (cnt ?cp)) (Some (c_fmt_u64 (updateTime ?cp)))]"
    using True fmt by (simp add: save_entry_def entry_def Let_def)
  have step: "load_commodity cl (Some (i, j))
          (CommodityElem (Some (c_fmt_s (comm_name cat ?p k))) (Some (cp_sum ?cp)) (Some (cp_sum2 ?cp))
             (Some (cnt ?cp)) (Some (c_fmt_u64 (updateTime ?cp)))) (with_entries ss g) =
        Inr (upd_entry (with_entries ss g) i j k
               (load_fields (Some (cp_sum ?cp)) (Some (cp_sum2 ?cp)) (Some (cnt ?cp)) (Some (c_fmt_u64 (updateTime ?cp)))))"
    using i j by (simp add: comm_find [OF dn wfp d k nm])
  have lf: "load_fields (Some (cp_sum ?cp)) (Some (cp_sum2 ?cp)) (Some (cnt ?cp)) (Some (c_fmt_u64 (updateTime ?cp))) (g i j k) = ?cp"
    using g fmt by (intro load_fields_roundtrip) simp_all
  have upd: "upd_entry (with_entries ss g) i j k
               (load_fields (Some (cp_sum ?cp)) (Some (cp_sum2 ?cp)) (Some (cnt ?cp)) (Some (c_fmt_u64 (updateTime ?cp)))) =
             with_entries ss (\<lambda>i' j' k'. if (i', j', k') = (i, j, k) then ?cp else g i' j' k')"
    using i j kp by (simp add: upd_entry_with_entries valid_pos_def lf cong: if_cong)
  show ?thesis using True by (simp only: save fold_e.simps step upd sbind_simps) simp
qed


lemma load_entries:
  assumes wf: "wf_save cat ss" and i: "i < length ss" and j: "j < length (planets (ss ! i))"
    and ks: "\<forall>k\<in>set ks. k < length (commodities (planets (ss ! i) ! j)) \<and> clear_price (g i j k) = clear_price (entry ss i j k)"
    and nm: "map commodity_name (commodity_stack cl) = map commodity_name (commodity_stack cat)"
  shows "fold_e (load_commodity cl (Some (i, j))) (concat (map (save_entry cat (planets (ss ! i) ! j)) ks)) (with_entries ss g) =
         Inr (with_entries ss (\<lambda>i' j' k'. if i' = i \<and> j' = j \<and> k' \<in> set ks \<and> 0 < cnt (entry ss i j k') then entry ss i j k' else g i' j' k'))"
  using ks
proof (induction ks arbitrary: g)
  case Nil
  then show ?case by simp
next
  case (Cons k ks)
  let ?g1 = "\<lambda>i' j' k'. if (i', j', k') = (i, j, k) \<and> 0 < cnt (entry ss i j k) then entry ss i j k else g i' j' k'"
  have 1: "fold_e (load_commodity cl (Some (i, j))) (save_entry cat (planets (ss ! i) ! j) k) (with_entries ss g) =
           Inr (with_entries ss ?g1)"
    using Cons.prems by (intro load_one_entry [OF wf i j _ _ nm]) simp_all
  have 2: "fold_e (load_commodity cl (Some (i, j))) (concat (map (save_entry cat (planets (ss ! i) ! j)) ks)) (with_entries ss ?g1) =
           Inr (with_entries ss (\<lambda>i' j' k'. if i' = i \<and> j' = j \<and> k' \<in> set ks \<and> 0 < cnt (entry ss i j k') then entry ss i j k' else ?g1 i' j' k'))"
    using Cons.prems by (intro Cons.IH) auto
  have 3: "(\<lambda>i' j' k'. if i' = i \<and> j' = j \<and> k' \<in> set ks \<and> 0 < cnt (entry ss i j k') then entry ss i j k' else ?g1 i' j' k') =
           (\<lambda>i' j' k'. if i' = i \<and> j' = j \<and> k' \<in> set (k # ks) \<and> 0 < cnt (entry ss i j k') then entry ss i j k' else g i' j' k')"
    by (intro ext) auto
  show ?case by (simp only: fold_e_concat_map 1 2 3 sbind_simps)
qed

lemma load_planet:
  assumes wf: "wf_save cat ss" and i: "i < length ss" and j: "j < length (planets (ss ! i))"
    and g: "\<forall>k<length (commodities (planets (ss ! i) ! j)). clear_price (g i j k) = clear_price (entry ss i j k)"
    and nm: "map commodity_name (commodity_stack cl) = map commodity_name (commodity_stack cat)"
  shows "fold_e (load_asset cl) (save_planet cat (planets (ss ! i) ! j)) (with_entries ss g) =
         Inr (with_entries ss (\<lambda>i' j' k'. if i' = i \<and> j' = j \<and> k' < length (commodities (planets (ss ! i) ! j)) \<and>
                                            0 < cnt (entry ss i j k') then entry ss i j k' else g i' j' k'))"
proof -
  let ?p = "planets (ss ! i) ! j"
  let ?cs = "concat (map (save_entry cat ?p) [0..<length (commodities ?p)])"
  have E: "fold_e (load_commodity cl (Some (i, j))) ?cs (with_entries ss g) =
         Inr (with_entries ss (\<lambda>i' j' k'. if i' = i \<and> j' = j \<and> k' < length (commodities ?p) \<and>
                                            0 < cnt (entry ss i j k') then entry ss i j k' else g i' j' k'))"
    using load_entries [OF wf i j _ nm, of "[0..<length (commodities ?p)]" g] g by simp
  have "distinct (map planet_name (concat (map planets ss)))" using wf by (simp add: wf_save_def)
  then have P: "planet_get (with_entries ss g) (Some (planet_name ?p)) = Some (i, j)"
    using i j by (simp add: planet_get_with_entries planet_get_found)
  show ?thesis
  proof (cases "?cs = []")
    case True
    with E show ?thesis by (simp add: save_planet_def)
  next
    case False
    then have "save_planet cat ?p = [PlanetElem (Some (planet_name ?p)) ?cs]"
      unfolding save_planet_def Let_def by (rule if_not_P)
    then show ?thesis by (simp only: fold_e.simps load_asset.simps P E sbind_simps)
  qed
qed


lemma load_planets:
  assumes wf: "wf_save cat ss" and i: "i < length ss"
    and js: "\<forall>j\<in>set js. j < length (planets (ss ! i)) \<and>
               (\<forall>k<length (commodities (planets (ss ! i) ! j)). clear_price (g i j k) = clear_price (entry ss i j k))"
    and nm: "map commodity_name (commodity_stack cl) = map commodity_name (commodity_stack cat)"
  shows "fold_e (load_asset cl) (concat (map (\<lambda>j. save_planet cat (planets (ss ! i) ! j)) js)) (with_entries ss g) =
         Inr (with_entries ss (\<lambda>i' j' k'. if i' = i \<and> j' \<in> set js \<and> k' < length (commodities (planets (ss ! i) ! j')) \<and>
                                            0 < cnt (entry ss i j' k') then entry ss i j' k' else g i' j' k'))"
  using js
proof (induction js arbitrary: g)
  case Nil
  then show ?case by simp
next
  case (Cons j js)
  let ?g1 = "\<lambda>i' j' k'. if i' = i \<and> j' = j \<and> k' < length (commodities (planets (ss ! i) ! j)) \<and>
                          0 < cnt (entry ss i j k') then entry ss i j k' else g i' j' k'"
  have 1: "fold_e (load_asset cl) (save_planet cat (planets (ss ! i) ! j)) (with_entries ss g) = Inr (with_entries ss ?g1)"
    using Cons.prems by (intro load_planet [OF wf i _ _ nm]) simp_all
  have 2: "fold_e (load_asset cl) (concat (map (\<lambda>j. save_planet cat (planets (ss ! i) ! j)) js)) (with_entries ss ?g1) =
           Inr (with_entries ss (\<lambda>i' j' k'. if i' = i \<and> j' \<in> set js \<and> k' < length (commodities (planets (ss ! i) ! j')) \<and>
                                            0 < cnt (entry ss i j' k') then entry ss i j' k' else ?g1 i' j' k'))"
    using Cons.prems by (intro Cons.IH) auto
  have 3: "(\<lambda>i' j' k'. if i' = i \<and> j' \<in> set js \<and> k' < length (commodities (planets (ss ! i) ! j')) \<and>
                          0 < cnt (entry ss i j' k') then entry ss i j' k' else ?g1 i' j' k') =
           (\<lambda>i' j' k'. if i' = i \<and> j' \<in> set (j # js) \<and> k' < length (commodities (planets (ss ! i) ! j')) \<and>
                          0 < cnt (entry ss i j' k') then entry ss i j' k' else g i' j' k')"
    by (intro ext) auto
  show ?case by (simp only: fold_e_concat_map 1 2 3 sbind_simps)
qed

lemma load_system:
  assumes wf: "wf_save cat ss" and i: "i < length ss"
    and g: "\<forall>j<length (planets (ss ! i)). \<forall>k<length (commodities (planets (ss ! i) ! j)).
              clear_price (g i j k) = clear_price (entry ss i j k)"
    and nm: "map commodity_name (commodity_stack cl) = map commodity_name (commodity_stack cat)"
  shows "fold_e load_econ_elem (save_system cat (ss ! i)) (cl, with_entries ss g) =
         Inr (cl, with_entries ss (\<lambda>i' j' k'. if i' = i \<and> j' < length (planets (ss ! i)) \<and>
                    k' < length (commodities (planets (ss ! i) ! j')) \<and> 0 < cnt (entry ss i j' k')
                  then entry ss i j' k' else g i' j' k'))"
proof -
  let ?ps = "concat (map (save_planet cat) (planets (ss ! i)))"
  have ps: "?ps = concat (map (\<lambda>j. save_planet cat (planets (ss ! i) ! j)) [0..<length (planets (ss ! i))])"
    by (simp only: map_upt_nth)
  have E: "fold_e (load_asset cl) ?ps (with_entries ss g) =
         Inr (with_entries ss (\<lambda>i' j' k'. if i' = i \<and> j' < length (planets (ss ! i)) \<and>
                    k' < length (commodities (planets (ss ! i) ! j')) \<and> 0 < cnt (entry ss i j' k')
                  then entry ss i j' k' else g i' j' k'))"
    unfolding ps using load_planets [OF wf i _ nm, of "[0..<length (planets (ss ! i))]" g] g by simp
  show ?thesis
  proof (cases "?ps = []")
    case True
    with E show ?thesis by (simp add: save_system_def)
  next
    case False
    then have "save_system cat (ss ! i) = [SystemElem (Some (sys_name (ss ! i))) ?ps]"
      unfolding save_system_def Let_def by (rule if_not_P)
    then show ?thesis by (simp only: fold_e.simps load_econ_elem.simps option.case E sbind_simps)
  qed
qed

lemma load_systems:
  assumes wf: "wf_save cat ss"
    and ids: "\<forall>i\<in>set ids. i < length ss \<and> (\<forall>j<length (planets (ss ! i)). \<forall>k<length (commodities (planets (ss ! i) ! j)).
              clear_price (g i j k) = clear_price (entry ss i j k))"
    and nm: "map commodity_name (commodity_stack cl) = map commodity_name (commodity_stack cat)"
  shows "fold_e load_econ_elem (concat (map (\<lambda>i. save_system cat (ss ! i)) ids)) (cl, with_entries ss g) =
         Inr (cl, with_entries ss (\<lambda>i' j' k'. if i' \<in> set ids \<and> j' < length (planets (ss ! i')) \<and>
                    k' < length (commodities (planets (ss ! i') ! j')) \<and> 0 < cnt (entry ss i' j' k')
                  then entry ss i' j' k' else g i' j' k'))"
  using ids
proof (induction ids arbitrary: g)
  case Nil
  then show ?case by simp
next
  case (Cons i ids)
  let ?g1 = "\<lambda>i' j' k'. if i' = i \<and> j' < length (planets (ss ! i)) \<and>
                    k' < length (commodities (planets (ss ! i) ! j')) \<and> 0 < cnt (entry ss i j' k')
                  then entry ss i j' k' else g i' j' k'"
  have 1: "fold_e load_econ_elem (save_system cat (ss ! i)) (cl, with_entries ss g) = Inr (cl, with_entries ss ?g1)"
    using Cons.prems by (intro load_system [OF wf _ _ nm]) simp_all
  have 2: "fold_e load_econ_elem (concat (map (\<lambda>i. save_system cat (ss ! i)) ids)) (cl, with_entries ss ?g1) =
           Inr (cl, with_entries ss (\<lambda>i' j' k'. if i' \<in> set ids \<and> j' < length (planets (ss ! i')) \<and>
                    k' < length (commodities (planets (ss ! i') ! j')) \<and> 0 < cnt (entry ss i' j' k')
                  then entry ss i' j' k' else ?g1 i' j' k'))"
    using Cons.prems by (intro Cons.IH) auto
  have 3: "(\<lambda>i' j' k'. if i' \<in> set ids \<and> j' < length (planets (ss ! i')) \<and>
                    k' < length (commodities (planets (ss ! i') ! j')) \<and> 0 < cnt (entry ss i' j' k')
                  then entry ss i' j' k' else ?g1 i' j' k') =
           (\<lambda>i' j' k'. if i' \<in> set (i # ids) \<and> j' < length (planets (ss ! i')) \<and>
                    k' < length (commodities (planets (ss ! i') ! j')) \<and> 0 < cnt (entry ss i' j' k')
                  then entry ss i' j' k' else g i' j' k')"
    by (intro ext) auto
  show ?case by (simp only: fold_e_concat_map 1 2 3 sbind_simps)
qed


subsection \<open>Reading back the purchase prices\<close>

lemma commodity_get_named:
  assumes nn: "\<forall>c\<in>set (commodity_stack cat). commodity_name c \<noteq> None"
    and dn: "distinct (map commodity_name (commodity_stack cat))"
    and nm: "map commodity_name (commodity_stack cl) = map commodity_name (commodity_stack cat)"
    and k: "k < length (commodity_stack cat)" and n: "commodity_name (commodity_stack cat ! k) = Some n"
  shows "commodity_get cl n = Inr (Some k)"
proof -
  have "None \<notin> set (map commodity_name (commodity_stack cl))" unfolding nm using nn by auto
  then have nn': "\<forall>c\<in>set (commodity_stack cl). commodity_name c \<noteq> None" by (metis image_eqI set_map)
  have "find_idx (\<lambda>c. commodity_name c = Some n) (commodity_stack cl) =
        find_idx (\<lambda>x. x = Some n) (map commodity_name (commodity_stack cl))"
    by (simp add: find_idx_map comp_def)
  also have "\<dots> = find_idx (\<lambda>c. commodity_name c = commodity_name (commodity_stack cat ! k)) (commodity_stack cat)"
    by (simp add: nm find_idx_map comp_def n)
  also have "\<dots> = Some k" by (rule find_idx_distinct [OF dn k])
  finally show ?thesis
    using commodity_getW_from_named [OF nn', of n 0] by (simp add: commodity_get_def commodity_getW_def option.map_ident)
qed

lemma load_last:
  assumes nn: "\<forall>c\<in>set (commodity_stack cat). commodity_name c \<noteq> None"
    and dn: "distinct (map commodity_name (commodity_stack cat))"
    and bnd: "\<forall>c\<in>set (commodity_stack cat). 0 < lastPurchasePrice c \<longrightarrow> lastPurchasePrice c < 2 ^ 63"
    and ks: "\<forall>k\<in>set ks. k < length (commodity_stack cat)"
  shows "fold_e load_econ_elem (concat (map (\<lambda>k. save_last (commodity_stack cat ! k)) ks))
           (cat\<lparr>commodity_stack := map (\<lambda>k. (commodity_stack cat ! k)\<lparr>lastPurchasePrice := L k\<rparr>)
                                      [0..<length (commodity_stack cat)]\<rparr>, S) =
         Inr (cat\<lparr>commodity_stack := map (\<lambda>k. (commodity_stack cat ! k)\<lparr>lastPurchasePrice :=
                 if k \<in> set ks \<and> 0 < lastPurchasePrice (commodity_stack cat ! k)
                 then lastPurchasePrice (commodity_stack cat ! k) else L k\<rparr>) [0..<length (commodity_stack cat)]\<rparr>, S)"
  using ks
proof (induction ks arbitrary: L)
  case Nil
  then show ?case by simp
next
  case (Cons k ks)
  let ?c = "commodity_stack cat ! k" and ?n = "length (commodity_stack cat)"
  let ?C = "\<lambda>L. cat\<lparr>commodity_stack := map (\<lambda>k. (commodity_stack cat ! k)\<lparr>lastPurchasePrice := L k\<rparr>) [0..<?n]\<rparr>"
  let ?L1 = "\<lambda>k'. if k' = k \<and> 0 < lastPurchasePrice ?c then lastPurchasePrice ?c else L k'"
  have k: "k < ?n" using Cons.prems by simp
  have nmC: "map commodity_name (commodity_stack (?C L)) = map commodity_name (commodity_stack cat)"
    by (rule nth_equalityI) simp_all
  have 1: "fold_e load_econ_elem (save_last ?c) (?C L, S) = Inr (?C ?L1, S)"
  proof (cases "0 < lastPurchasePrice ?c")
    case True
    have "?c \<in> set (commodity_stack cat)" using k by simp
    with nn bnd True obtain n where n: "commodity_name ?c = Some n" and b: "lastPurchasePrice ?c < 2 ^ 63" by auto
    have g: "commodity_get (?C L) n = Inr (Some k)" by (rule commodity_get_named [OF nn dn nmC k n])
    have "(commodity_stack (?C L))[k := (commodity_stack (?C L) ! k)\<lparr>lastPurchasePrice := lastPurchasePrice ?c\<rparr>] =
          commodity_stack (?C ?L1)"
      using k True by (intro nth_equalityI) (simp_all add: nth_list_update)
    then show ?thesis using True n g b k by (simp add: save_last_def c_fmt_s_def c_atol_fmt)
  next
    case False
    then show ?thesis by (simp add: save_last_def)
  qed
  have 2: "fold_e load_econ_elem (concat (map (\<lambda>k. save_last (commodity_stack cat ! k)) ks)) (?C ?L1, S) =
           Inr (cat\<lparr>commodity_stack := map (\<lambda>k'. (commodity_stack cat ! k')\<lparr>lastPurchasePrice :=
                 if k' \<in> set ks \<and> 0 < lastPurchasePrice (commodity_stack cat ! k')
                 then lastPurchasePrice (commodity_stack cat ! k') else ?L1 k'\<rparr>) [0..<?n]\<rparr>, S)"
    using Cons.prems by (intro Cons.IH) simp
  have 3: "(\<lambda>k'. (commodity_stack cat ! k')\<lparr>lastPurchasePrice :=
                 if k' \<in> set ks \<and> 0 < lastPurchasePrice (commodity_stack cat ! k')
                 then lastPurchasePrice (commodity_stack cat ! k') else ?L1 k'\<rparr>) =
           (\<lambda>k'. (commodity_stack cat ! k')\<lparr>lastPurchasePrice :=
                 if k' \<in> set (k # ks) \<and> 0 < lastPurchasePrice (commodity_stack cat ! k')
                 then lastPurchasePrice (commodity_stack cat ! k') else L k'\<rparr>)"
    by (intro ext) auto
  show ?case by (simp only: fold_e_concat_map 1 2 3 sbind_simps)
qed


subsection \<open>The round trip\<close>

text \<open>The sums of integer prices are printed exactly by \<open>%f\<close>.\<close>

lemma c_fmt_f_of_int: "c_fmt_f (of_int n) = of_int n"
proof -
  have "of_int n * 1000000 = (of_int (n * 1000000) :: real)" by simp
  then show ?thesis by (simp only: c_fmt_f_def round_of_int)
qed

lemma with_entries_cong:
  "(\<And>i j k. valid_pos ss i j k \<Longrightarrow> g i j k = h i j k) \<Longrightarrow> with_entries ss g = with_entries ss h"
  unfolding with_entries_def valid_pos_def by (intro map_cong refl arg_cong [where f = "\<lambda>x. _\<lparr>planets := x\<rparr>"]) auto

lemma clear_price_idem: "clear_price (clear_price cp) = clear_price cp"
  by (simp add: clear_price_def)

text \<open>
  C10: Saving the observations and loading the save back, into any universe
  and catalog whose cleared state is that of the saved one, restores every
  entry seen at least once and every positive last purchase price exactly,
  and leaves the others cleared, when the names identify planets and
  commodities and the values are printed exactly.
\<close>
theorem economy_sysLoad_sysSave:
  assumes wf: "wf_save cat ss" and cl: "economy_clearKnown cat' ss' = economy_clearKnown cat ss"
  shows "economy_sysLoad (economy_sysSave cat ss) cat' ss' = Inr (economy_keepSeen cat ss)"
proof -
  let ?st = "commodity_stack cat" let ?n = "length (commodity_stack cat)"
  let ?K = "cat\<lparr>commodity_stack := map (\<lambda>k. (?st ! k)\<lparr>lastPurchasePrice :=
              if k \<in> set [0..<?n] \<and> 0 < lastPurchasePrice (?st ! k) then lastPurchasePrice (?st ! k)
              else (\<lambda>_. 0) k\<rparr>) [0..<?n]\<rparr>"
  let ?S0 = "with_entries ss (\<lambda>i j k. clear_price (entry ss i j k))"
  have nn: "\<forall>c\<in>set ?st. commodity_name c \<noteq> None" and dn: "distinct (map commodity_name ?st)"
    and bnd: "\<forall>c\<in>set ?st. 0 < lastPurchasePrice c \<longrightarrow> lastPurchasePrice c < 2 ^ 63"
    using wf by (simp_all add: wf_save_def)
  have C0: "fst (economy_clearKnown cat ss) =
            cat\<lparr>commodity_stack := map (\<lambda>k. (?st ! k)\<lparr>lastPurchasePrice := (\<lambda>_. 0) k\<rparr>) [0..<?n]\<rparr>"
    by (simp add: economy_clearKnown_def map_upt_nth)
  have A: "fold_e load_econ_elem (concat (map save_last ?st)) (economy_clearKnown cat ss) = Inr (?K, ?S0)"
  proof -
    have "economy_clearKnown cat ss = (fst (economy_clearKnown cat ss), ?S0)"
      using clearKnown_with_entries [of cat ss] by (metis prod.collapse)
    then show ?thesis
      using load_last [OF nn dn bnd, of "[0..<?n]" "\<lambda>_. 0" ?S0] by (simp add: C0 map_upt_nth)
  qed
  have nm: "map commodity_name (commodity_stack ?K) = map commodity_name ?st"
    by (rule nth_equalityI) simp_all
  have B: "fold_e load_econ_elem (concat (map (save_system cat) ss)) (?K, ?S0) =
           Inr (?K, with_entries ss (\<lambda>i' j' k'. if i' \<in> set [0..<length ss] \<and> j' < length (planets (ss ! i')) \<and>
                    k' < length (commodities (planets (ss ! i') ! j')) \<and> 0 < cnt (entry ss i' j' k')
                  then entry ss i' j' k' else clear_price (entry ss i' j' k')))"
    using load_systems [OF wf _ nm, of "[0..<length ss]" "\<lambda>i j k. clear_price (entry ss i j k)"]
    by (simp add: map_upt_nth clear_price_idem)
  have "map (\<lambda>k. (?st ! k)\<lparr>lastPurchasePrice :=
              if k \<in> set [0..<?n] \<and> 0 < lastPurchasePrice (?st ! k) then lastPurchasePrice (?st ! k)
              else (\<lambda>_. 0) k\<rparr>) [0..<?n] =
        map (\<lambda>c. if 0 < lastPurchasePrice c then c else c\<lparr>lastPurchasePrice := 0\<rparr>) ?st"
    by (rule nth_equalityI) simp_all
  then have K: "?K = fst (economy_keepSeen cat ss)" by (simp add: economy_keepSeen_def)
  have S: "with_entries ss (\<lambda>i' j' k'. if i' \<in> set [0..<length ss] \<and> j' < length (planets (ss ! i')) \<and>
                    k' < length (commodities (planets (ss ! i') ! j')) \<and> 0 < cnt (entry ss i' j' k')
                  then entry ss i' j' k' else clear_price (entry ss i' j' k')) = snd (economy_keepSeen cat ss)"
    unfolding keepSeen_with_entries
  proof (rule with_entries_cong)
    fix i j k assume v: "valid_pos ss i j k"
    then have "k < length (commodities (planets (ss ! i) ! j))"
      using wf_save_planet [OF wf] by (auto simp: valid_pos_def wf_planet_def)
    with v show "(if i \<in> set [0..<length ss] \<and> j < length (planets (ss ! i)) \<and>
                    k < length (commodities (planets (ss ! i) ! j)) \<and> 0 < cnt (entry ss i j k)
                  then entry ss i j k else clear_price (entry ss i j k)) = keep_seen_entry (entry ss i j k)"
      by (simp add: valid_pos_def keep_seen_entry_def)
  qed
  have "economy_sysLoad (economy_sysSave cat ss) cat' ss' =
        sbind (fold_e load_econ_elem (concat (map save_last ?st)) (economy_clearKnown cat ss))
              (fold_e load_econ_elem (concat (map (save_system cat) ss)))"
    by (simp add: economy_sysLoad_def economy_sysSave_def cl fold_e_append sbind_fold_e_Nil)
  also have "\<dots> = Inr (economy_keepSeen cat ss)" by (simp only: A sbind_simps, simp only: B, simp only: K S prod.collapse)
  finally show ?thesis .
qed


subsection \<open>Faults of the load\<close>

lemma clearKnown_names:
  "map commodity_name (commodity_stack (fst (economy_clearKnown cat ss))) = map commodity_name (commodity_stack cat)"
  by (simp add: economy_clearKnown_def comp_def)

lemma planet_get_missing:
  assumes "\<forall>p\<in>set (concat (map planets ss)). planet_name p \<noteq> n"
  shows "planet_get ss (Some n) = None"
proof -
  have "\<forall>x\<in>set (planet_positions ss). \<not> (case x of (i, j) \<Rightarrow> planet_name (planets (ss ! i) ! j) = n)"
  proof
    fix x assume "x \<in> set (planet_positions ss)"
    moreover obtain i j where x: "x = (i, j)" by (cases x)
    ultimately have "i < length ss" "j < length (planets (ss ! i))" by (simp_all add: planet_positions_valid)
    then have "ss ! i \<in> set ss" "planets (ss ! i) ! j \<in> set (planets (ss ! i))" by simp_all
    then have "planets (ss ! i) ! j \<in> set (concat (map planets ss))" by auto
    with assms x show "\<not> (case x of (i, j) \<Rightarrow> planet_name (planets (ss ! i) ! j) = n)" by auto
  qed
  then show ?thesis by (simp add: planet_get_def find_idx_None_iff)
qed

text \<open>
  C25: Loading a save whose \<open><lastPurchase>\<close> names a commodity the catalog
  does not have dereferences the \<open>NULL\<close> that \<open>commodity_get\<close> returns.
\<close>
theorem sysLoad_lastPurchase_unknown:
  assumes "\<forall>c\<in>set (commodity_stack cat). commodity_name c \<noteq> None \<and> commodity_name c \<noteq> Some s"
  shows "economy_sysLoad (EconomyElem (LastPurchaseElem (Some s) v # es) # doc) cat ss = Inl NullDeref"
proof -
  let ?C = "fst (economy_clearKnown cat ss)"
  have "None \<notin> set (map commodity_name (commodity_stack ?C))" "Some s \<notin> set (map commodity_name (commodity_stack ?C))"
    unfolding clearKnown_names using assms by auto
  then have nn: "\<forall>c\<in>set (commodity_stack ?C). commodity_name c \<noteq> None"
    and ns: "\<forall>c\<in>set (commodity_stack ?C). commodity_name c \<noteq> Some s" by (metis image_eqI set_map)+
  have "commodity_get ?C s = Inr None"
    using commodity_getW_from_named [OF nn, of s 0] ns
    by (simp add: commodity_get_def commodity_getW_def find_idx_None_iff)
  moreover obtain C S where cs: "economy_clearKnown cat ss = (C, S)" by (cases "economy_clearKnown cat ss")
  ultimately show ?thesis by (simp add: economy_sysLoad_def)
qed

text \<open>
  C26: Loading a save with a \<open><commodity>\<close> under a \<open><planet>\<close> that no planet
  of the universe is called dereferences the \<open>NULL\<close> that \<open>planet_get\<close>
  returns.
\<close>
theorem sysLoad_unknown_planet:
  assumes "\<forall>p\<in>set (concat (map planets ss)). planet_name p \<noteq> n"
  shows "economy_sysLoad (EconomyElem (SystemElem sn (PlanetElem (Some n) (CommodityElem cn su su2 c t # cs) # as) # es) # doc)
           cat ss = Inl NullDeref"
proof -
  have "planet_get (snd (economy_clearKnown cat ss)) (Some n) = None"
    by (simp add: clearKnown_with_entries planet_get_with_entries planet_get_missing [OF assms])
  moreover obtain C S where cs: "economy_clearKnown cat ss = (C, S)" by (cases "economy_clearKnown cat ss")
  ultimately show ?thesis by (simp add: economy_sysLoad_def)
qed

subsection \<open>What a load can change\<close>

lemma clear_price_load_fields [simp]: "clear_price (load_fields su su2 c t cp) = clear_price cp"
  by (simp add: clear_price_def load_fields_def)

lemma clearKnown_upd_entry:
  "snd (economy_clearKnown cat (upd_entry ss i j k (load_fields su su2 c t))) = snd (economy_clearKnown cat ss)"
proof -
  have p: "map clear_price (cps[k := load_fields su su2 c t (cps ! k)]) = map clear_price cps" for cps
    by (cases "k < length cps") (auto intro!: nth_equalityI simp: nth_list_update)
  have q: "map (\<lambda>p. p\<lparr>commodityPrice := map clear_price (commodityPrice p)\<rparr>)
             (ps[j := (ps ! j)\<lparr>commodityPrice := (commodityPrice (ps ! j))[k := load_fields su su2 c t (commodityPrice (ps ! j) ! k)]\<rparr>]) =
           map (\<lambda>p. p\<lparr>commodityPrice := map clear_price (commodityPrice p)\<rparr>) ps" for ps :: "Planet list"
    by (cases "j < length ps") (auto intro!: nth_equalityI simp: nth_list_update p)
  show ?thesis
    unfolding economy_clearKnown_def upd_entry_def snd_conv
    by (cases "i < length ss") (auto intro!: nth_equalityI simp: nth_list_update q)
qed


lemma load_commodity_clear:
  "load_commodity cat pos x ss = Inr ss' \<Longrightarrow> snd (economy_clearKnown C ss') = snd (economy_clearKnown C ss)"
proof (cases x)
  case (CommodityElem n su su2 c t)
  assume r: "load_commodity cat pos x ss = Inr ss'"
  show ?thesis
  proof (cases pos)
    case (Some ij)
    obtain i j where ij: "ij = (i, j)" by (cases ij)
    show ?thesis
      using r by (cases "find_idx_e (\<lambda>k. c_streq n (commodity_name (commodity_stack cat ! k))) (commodities (planets (ss ! i) ! j))")
        (auto simp: CommodityElem Some ij clearKnown_upd_entry split: option.splits)
  qed (use r CommodityElem in simp)
qed simp

lemma load_asset_clear:
  "load_asset cat x ss = Inr ss' \<Longrightarrow> snd (economy_clearKnown C ss') = snd (economy_clearKnown C ss)"
  by (cases x) (auto elim!: fold_e_inv [rotated] intro: load_commodity_clear)

lemma load_econ_elem_clear:
  "load_econ_elem x st = Inr st' \<Longrightarrow> economy_clearKnown (fst st') (snd st') = economy_clearKnown (fst st) (snd st)"
proof (cases x)
  case (SystemElem n as)
  assume r: "load_econ_elem x st = Inr st'"
  obtain cat ss where st: "st = (cat, ss)" by (cases st)
  from r obtain ss' where f: "fold_e (load_asset cat) as ss = Inr ss'" and st': "st' = (cat, ss')"
    by (cases "fold_e (load_asset cat) as ss") (auto simp: SystemElem st)
  have "snd (economy_clearKnown cat ss') = snd (economy_clearKnown cat ss)"
    using f by (rule fold_e_inv [rotated]) (rule load_asset_clear)
  then show ?thesis by (simp add: st st' economy_clearKnown_def)
next
  case (LastPurchaseElem n v)
  assume r: "load_econ_elem x st = Inr st'"
  obtain cat ss where st: "st = (cat, ss)" by (cases st)
  have m: "map (\<lambda>c. c\<lparr>lastPurchasePrice := 0\<rparr>) (cs[k := (cs ! k)\<lparr>lastPurchasePrice := w\<rparr>]) =
           map (\<lambda>c. c\<lparr>lastPurchasePrice := 0\<rparr>) cs" for cs :: "commodity list" and k w
    by (cases "k < length cs") (auto intro!: nth_equalityI simp: nth_list_update)
  show ?thesis
    using r by (cases n; cases "commodity_get cat (the n)")
      (auto simp: LastPurchaseElem st economy_clearKnown_def m split: option.splits)
qed auto

lemma clearKnown_idem: "economy_clearKnown (fst (economy_clearKnown cat ss)) (snd (economy_clearKnown cat ss)) = economy_clearKnown cat ss"
  by (simp add: economy_clearKnown_def comp_def clear_price_idem)

text \<open>
  C31: Whatever the document, a load that does not fault changes nothing but
  the observations and purchase prices: the loaded state and the state
  before have the same image under economy_clearKnown, so the universe and
  catalog keep their shape, names, commodities and price parameters.
\<close>
theorem economy_sysLoad_frame:
  assumes "economy_sysLoad doc cat ss = Inr (cat', ss')"
  shows "economy_clearKnown cat' ss' = economy_clearKnown cat ss"
proof -
  have "economy_clearKnown (fst (cat', ss')) (snd (cat', ss')) =
        economy_clearKnown (fst (economy_clearKnown cat ss)) (snd (economy_clearKnown cat ss))"
  proof (rule fold_e_inv [of doc load_save_elem "\<lambda>st. economy_clearKnown (fst st) (snd st)"])
    fix x st st' assume "load_save_elem x st = Inr st'"
    then show "economy_clearKnown (fst st') (snd st') = economy_clearKnown (fst st) (snd st)"
      by (cases x) (auto elim!: fold_e_inv [rotated] intro: load_econ_elem_clear)
  qed (use assms in \<open>simp add: economy_sysLoad_def\<close>)
  then show ?thesis by (simp add: clearKnown_idem)
qed

end
