(* ===== verification/Gatherables.thy ===== *)
theory Gatherables
  imports Econ_Prelude "HOL-Library.Signed_Division"
begin

text \<open>
  The pool of floating cargo pickups (src/src/economy.c, \<open>gatherable_*\<close>):
  \<open>gatherable_stack\<close> with \<open>gatherable_nstack\<close> elements and the message timer
  \<open>noscoop_timer\<close>. \<open>gatherable_init\<close> appends, \<open>gatherable_update\<close> moves every
  object and removes the expired ones in place (\<open>memmove\<close> and \<open>i--\<close>),
  \<open>gatherable_getClosest\<close> and \<open>gatherable_getPos\<close> query the pool, and
  \<open>gatherable_gather\<close> hands the objects near a pilot to \<open>pilot_cargoAdd\<close> and
  removes them, also in place but without \<open>i--\<close>. \<open>commodity_Jettison\<close> adds
  cargo effects around a pilot. The lemmas show that the update loop is a
  filter, that the gather loop skips the object after each gathered one,
  what the closest query returns, and bounds on the jettison effects. The random draws (\<open>RNGF()\<close>, and \<open>RNG(1,5)\<close>
  inside the cargo call) and the pilot are parameters.
\<close>

subsection \<open>State\<close>

record Vector2d =
  vx :: real
  vy :: real

text \<open>\<open>vect_dist\<close> (physics.c): \<open>MOD(u->x - v->x, u->y - v->y)\<close>, the Euclidean distance.\<close>

definition vect_dist :: "Vector2d \<Rightarrow> Vector2d \<Rightarrow> real" where
  "vect_dist v u = sqrt ((vx u - vx v)\<^sup>2 + (vy u - vy v)\<^sup>2)"

definition vectnull :: Vector2d where
  "vectnull = \<lparr>vx = 0, vy = 0\<rparr>"

text \<open>The commodity pointer \<open>type\<close> is an index into the commodity stack.\<close>

record Gatherable =
  g_type :: nat
  g_pos :: Vector2d
  g_vel :: Vector2d
  g_timer :: real
  lifeleng :: real

record gath_state =
  gatherable_stack :: "Gatherable list"
  noscoop_timer :: real

definition GATHER_DIST :: real where
  "GATHER_DIST = 30"

text \<open>\<open>memmove\<close> of the tail over element \<open>i\<close>, then \<open>realloc\<close> to one element less.\<close>

definition remove_at :: "nat \<Rightarrow> 'a list \<Rightarrow> 'a list" where
  "remove_at i xs = take i xs @ drop (Suc i) xs"

subsection \<open>Operations\<close>

text \<open>\<open>r\<close> is the value of \<open>RNGF()\<close>, in \<open>[0, 1]\<close>.\<close>

definition gatherable_init :: "nat \<Rightarrow> Vector2d \<Rightarrow> Vector2d \<Rightarrow> real \<Rightarrow> gath_state \<Rightarrow> gath_state" where
  "gatherable_init com pos vel r st =
     st\<lparr>gatherable_stack := gatherable_stack st @
          [\<lparr>g_type = com, g_pos = pos, g_vel = vel, g_timer = 0, lifeleng = r * 100 + 50\<rparr>]\<rparr>"

definition gat_advance :: "real \<Rightarrow> Gatherable \<Rightarrow> Gatherable" where
  "gat_advance dt g =
     g\<lparr>g_timer := g_timer g + dt,
       g_pos := \<lparr>vx = vx (g_pos g) + dt * vx (g_vel g), vy = vy (g_pos g) + dt * vy (g_vel g)\<rparr>\<rparr>"

text \<open>
  The loop of \<open>gatherable_update\<close>: element \<open>i\<close> is advanced; if its timer
  exceeds its life it is removed and \<open>i--\<close> makes the next iteration look at
  the element moved into its place.
\<close>

function update_loop :: "real \<Rightarrow> nat \<Rightarrow> Gatherable list \<Rightarrow> Gatherable list" where
  "update_loop dt i gs =
     (if i < length gs then
        (let gs' = gs[i := gat_advance dt (gs ! i)] in
         if lifeleng (gs' ! i) < g_timer (gs' ! i) then update_loop dt i (remove_at i gs')
         else update_loop dt (Suc i) gs')
      else gs)"
  by auto
termination
  by (relation "measure (\<lambda>(dt, i, gs). length gs - i)") (auto simp: remove_at_def)

definition gatherable_update :: "real \<Rightarrow> gath_state \<Rightarrow> gath_state" where
  "gatherable_update dt st =
     st\<lparr>noscoop_timer := noscoop_timer st + dt, gatherable_stack := update_loop dt 0 (gatherable_stack st)\<rparr>"

definition gatherable_free :: "gath_state \<Rightarrow> gath_state" where
  "gatherable_free st = st\<lparr>gatherable_stack := []\<rparr>"

text \<open>
  \<open>gatherable_getClosest\<close>: \<open>curg = -1\<close>, \<open>mindist = INFINITY\<close> (\<open>None\<close>); an object
  replaces the current one when it is strictly closer and strictly within
  the radius.
\<close>

fun closest_from :: "Vector2d \<Rightarrow> real \<Rightarrow> nat \<Rightarrow> Gatherable list \<Rightarrow> int \<Rightarrow> real option \<Rightarrow> int" where
  "closest_from pos rad i [] curg mind = curg"
| "closest_from pos rad i (g # gs) curg mind =
     (let d = vect_dist pos (g_pos g) in
      if (case mind of None \<Rightarrow> True | Some m \<Rightarrow> d < m) \<and> d < rad
      then closest_from pos rad (Suc i) gs (int i) (Some d)
      else closest_from pos rad (Suc i) gs curg mind)"

definition gatherable_getClosest :: "Vector2d \<Rightarrow> real \<Rightarrow> gath_state \<Rightarrow> int" where
  "gatherable_getClosest pos rad st = closest_from pos rad 0 (gatherable_stack st) (-1) None"

text \<open>The bound a distance must be below to be taken: the current minimum and the radius.\<close>

definition closest_bound :: "real \<Rightarrow> real option \<Rightarrow> real" where
  "closest_bound rad mind = (case mind of None \<Rightarrow> rad | Some m \<Rightarrow> min m rad)"

definition gatherable_getPos :: "int \<Rightarrow> gath_state \<Rightarrow> Vector2d \<times> Vector2d \<times> int" where
  "gatherable_getPos gid st =
     (if gid < 0 \<or> gid > int (length (gatherable_stack st)) - 1 then (vectnull, vectnull, 0)
      else (g_pos (gatherable_stack st ! nat gid), g_vel (gatherable_stack st ! nat gid), 1))"

text \<open>The messages \<open>gatherable_gather\<close> shows the player.\<close>

datatype gather_msg = Gathered int nat | NoMoreSpace | CannotGather

text \<open>
  The loop of \<open>gatherable_gather\<close> for a pilot at \<open>ppos\<close>: \<open>add p c\<close> is
  \<open>pilot_cargoAdd(p, c, RNG(1,5), 0)\<close> (the pilot after the call and the
  quantity added), \<open>free\<close> is \<open>pilot_cargoFree\<close> and \<open>player\<close> is
  \<open>pilot_isPlayer\<close>. A gathered object is removed and the loop goes on with
  \<open>i + 1\<close>: there is no \<open>i--\<close>.
\<close>

function gather_loop ::
  "('p \<Rightarrow> nat \<Rightarrow> 'p \<times> int) \<Rightarrow> ('p \<Rightarrow> int) \<Rightarrow> bool \<Rightarrow> Vector2d \<Rightarrow> nat \<Rightarrow>
   gath_state \<times> 'p \<times> gather_msg list \<Rightarrow> gath_state \<times> 'p \<times> gather_msg list" where
  "gather_loop add free player ppos i (st, p, ms) =
     (if i < length (gatherable_stack st) then
        (let g = gatherable_stack st ! i in
         if vect_dist ppos (g_pos g) < GATHER_DIST then
           (case add p (g_type g) of (p', q) \<Rightarrow>
              if 0 < q then
                gather_loop add free player ppos (Suc i)
                  (st\<lparr>gatherable_stack := remove_at i (gatherable_stack st)\<rparr>, p',
                   ms @ (if player then [Gathered q (g_type g)] else [])
                      @ (if free p' < 1 \<and> player then [NoMoreSpace] else []))
              else if player \<and> 2 < noscoop_timer st then
                gather_loop add free player ppos (Suc i) (st\<lparr>noscoop_timer := 0\<rparr>, p', ms @ [CannotGather])
              else gather_loop add free player ppos (Suc i) (st, p', ms))
         else gather_loop add free player ppos (Suc i) (st, p, ms))
      else (st, p, ms))"
  by pat_completeness auto
termination
  by (relation "measure (\<lambda>(add, free, player, ppos, i, st, p, ms). length (gatherable_stack st) - i)")
     (auto simp: remove_at_def)

definition gatherable_gather ::
  "('p \<Rightarrow> nat \<Rightarrow> 'p \<times> int) \<Rightarrow> ('p \<Rightarrow> int) \<Rightarrow> bool \<Rightarrow> Vector2d \<Rightarrow> gath_state \<Rightarrow> 'p \<Rightarrow>
   gath_state \<times> 'p \<times> gather_msg list" where
  "gatherable_gather add free player ppos st p = gather_loop add free player ppos 0 (st, p, [])"

subsection \<open>Jettisoned cargo\<close>

text \<open>
  \<open>RNG(L,H)\<close> (rng.h): \<open>L + (int)((double)(H-L+1) * randfp())\<close>, with \<open>u\<close> the
  value of \<open>randfp()\<close> in \<open>[0, 1)\<close>.
\<close>

definition RNG :: "int \<Rightarrow> int \<Rightarrow> real \<Rightarrow> int" where
  "RNG L H u = L + c_trunc (real_of_int (H - L + 1) * u)"

text \<open>
  \<open>commodity_Jettison\<close> adds \<open>MAX(1, RNG(quantity/10, quantity/5))\<close> cargo
  effects at the pilot's position, each with the pilot's velocity plus a
  radial one of length \<open>r = RNGF()*25 - 12.5\<close> at angle \<open>a = 2*pi*RNGF()\<close>;
  \<open>draw i\<close> is the pair of \<open>RNGF()\<close> values of the \<open>i\<close>-th effect. The result is
  the list of \<open>spfx_add\<close> calls, as positions and velocities.
\<close>

definition commodity_Jettison ::
  "Vector2d \<Rightarrow> Vector2d \<Rightarrow> int \<Rightarrow> real \<Rightarrow> (nat \<Rightarrow> real \<times> real) \<Rightarrow> (Vector2d \<times> Vector2d) list" where
  "commodity_Jettison ppos pvel quantity u draw =
     (let n = max 1 (RNG (quantity sdiv 10) (quantity sdiv 5) u) in
      map (\<lambda>i. let r = fst (draw i) * 25 - 12.5; a = 2 * pi * snd (draw i)
               in (ppos, \<lparr>vx = vx pvel + r * cos a, vy = vy pvel + r * sin a\<rparr>))
        [0..<nat n])"

subsection \<open>The loops\<close>

declare update_loop.simps [simp del] gather_loop.simps [simp del]

lemma remove_at_length [simp]: "i < length xs \<Longrightarrow> length (remove_at i xs) = length xs - 1"
  by (simp add: remove_at_def)

lemma take_remove_at [simp]: "take i (remove_at i xs) = take i xs"
  by (cases "i \<le> length xs") (simp_all add: remove_at_def)

lemma drop_remove_at [simp]: "drop i (remove_at i xs) = drop (Suc i) xs"
  by (cases "i \<le> length xs") (simp_all add: remove_at_def)

lemma update_loop_filter:
  "i \<le> length gs \<Longrightarrow>
   update_loop dt i gs = take i gs @ filter (\<lambda>g. \<not> lifeleng g < g_timer g) (map (gat_advance dt) (drop i gs))"
proof (induction dt i gs rule: update_loop.induct)
  case (1 dt i gs)
  show ?case
  proof (cases "i < length gs")
    case True
    let ?g = "gat_advance dt (gs ! i)"
    let ?gs' = "gs[i := ?g]"
    have d: "drop i gs = gs ! i # drop (Suc i) gs" using True by (simp add: Cons_nth_drop_Suc)
    have nth: "?gs' ! i = ?g" using True by simp
    show ?thesis
    proof (cases "lifeleng ?g < g_timer ?g")
      case exp: True
      have "update_loop dt i gs = update_loop dt i (remove_at i ?gs')"
        using True exp by (subst update_loop.simps) (simp add: Let_def)
      also have "\<dots> = take i ?gs' @ filter (\<lambda>g. \<not> lifeleng g < g_timer g) (map (gat_advance dt) (drop (Suc i) ?gs'))"
        using 1(1) [OF True refl] exp True by simp
      finally show ?thesis using exp by (simp add: d)
    next
      case keep: False
      have "update_loop dt i gs = update_loop dt (Suc i) ?gs'"
        using True keep by (subst update_loop.simps) (simp add: Let_def)
      also have "\<dots> = take (Suc i) ?gs' @ filter (\<lambda>g. \<not> lifeleng g < g_timer g) (map (gat_advance dt) (drop (Suc i) ?gs'))"
        using 1(2) [OF True refl] keep True by simp
      finally show ?thesis using keep True by (simp add: d take_Suc_conv_app_nth)
    qed
  next
    case False
    with "1.prems" show ?thesis by (subst update_loop.simps) simp
  qed
qed


lemma set_remove_at: "set (remove_at i xs) \<subseteq> set xs"
  by (auto simp: remove_at_def dest: in_set_takeD in_set_dropD)

lemma every_second_Cons2:
  "map (\<lambda>k. (a # b # xs) ! (2 * k + 1)) [0..<length (a # b # xs) div 2] = b # map (\<lambda>k. xs ! (2 * k + 1)) [0..<length xs div 2]"
proof -
  have "[0..<length (a # b # xs) div 2] = 0 # map Suc [0..<length xs div 2]"
    by (simp add: upt_conv_Cons map_Suc_upt del: upt_Suc)
  then show ?thesis by simp
qed

lemma gather_loop_all_in_range:
  "\<forall>p c. 0 < snd (add p c) \<Longrightarrow> \<forall>g\<in>set (gatherable_stack st). vect_dist ppos (g_pos g) < GATHER_DIST \<Longrightarrow> i \<le> length (gatherable_stack st) \<Longrightarrow>
    gatherable_stack (fst (gather_loop add free player ppos i (st, p, ms))) =
    take i (gatherable_stack st) @
    map (\<lambda>k. drop i (gatherable_stack st) ! (2 * k + 1)) [0..<length (drop i (gatherable_stack st)) div 2]"
proof (induction add free player ppos i "(st, p, ms)" arbitrary: st p ms rule: gather_loop.induct)
  case (1 add free player ppos i st p ms)
  note ok = "1.prems"(1)
  let ?gs = "gatherable_stack st"
  show ?case
  proof (cases "i < length ?gs")
    case True
    let ?g = "?gs ! i"
    obtain p' q where pq: "add p (g_type ?g) = (p', q)" by (cases "add p (g_type ?g)")
    have q: "0 < q" using ok pq by (metis snd_conv)
    have near: "vect_dist ppos (g_pos ?g) < GATHER_DIST" using "1.prems"(2) True by simp
    let ?st' = "st\<lparr>gatherable_stack := remove_at i ?gs\<rparr>"
    let ?ms' = "ms @ (if player then [Gathered q (g_type ?g)] else []) @ (if free p' < 1 \<and> player then [NoMoreSpace] else [])"
    have step: "gather_loop add free player ppos i (st, p, ms) = gather_loop add free player ppos (Suc i) (?st', p', ?ms')"
      using True near pq q by (subst gather_loop.simps) (simp add: Let_def)
    show ?thesis
    proof (cases "Suc i < length ?gs")
      case more: True
      have IH: "gatherable_stack (fst (gather_loop add free player ppos (Suc i) (?st', p', ?ms'))) =
                take (Suc i) (remove_at i ?gs) @
                map (\<lambda>k. drop (Suc i) (remove_at i ?gs) ! (2 * k + 1)) [0..<length (drop (Suc i) (remove_at i ?gs)) div 2]"
      proof -
        have inr: "\<forall>g\<in>set (gatherable_stack ?st'). vect_dist ppos (g_pos g) < GATHER_DIST"
          using "1.prems"(2) set_remove_at [of i ?gs] by auto
        have len: "Suc i \<le> length (gatherable_stack ?st')" using more by simp
        show ?thesis using "1.hyps"(1) [OF True refl near pq [symmetric] q ok inr len] by simp
      qed
      have t: "take (Suc i) (remove_at i ?gs) = take i ?gs @ [?gs ! Suc i]"
        using more by (simp add: remove_at_def take_Suc_conv_app_nth min_def)
      have dr: "drop (Suc i) (remove_at i ?gs) = drop (Suc (Suc i)) ?gs"
        using more by (simp add: remove_at_def)
      have d: "drop i ?gs = ?gs ! i # ?gs ! Suc i # drop (Suc (Suc i)) ?gs"
        using more by (simp add: Cons_nth_drop_Suc)
      show ?thesis using step IH by (simp only: t dr d every_second_Cons2) simp
    next
      case last: False
      then have len: "length ?gs = Suc i" using True by simp
      have "gather_loop add free player ppos (Suc i) (?st', p', ?ms') = (?st', p', ?ms')"
        using len by (subst gather_loop.simps) (simp add: remove_at_def)
      moreover have "drop i ?gs = [?gs ! i]" using len True by (metis Cons_nth_drop_Suc drop_all order_refl)
      ultimately show ?thesis using step len by (simp add: remove_at_def)
    qed
  next
    case False
    with "1.prems"(3) show ?thesis by (subst gather_loop.simps) simp
  qed
qed


text \<open>
  C39: gatherable_update advances the message timer by dt and leaves exactly
  the objects whose timer, advanced by dt, does not exceed their life, each
  moved by dt times its velocity, in their order: the in-place removal loop
  computes a filter.
\<close>
theorem gatherable_update_spec:
  "gatherable_stack (gatherable_update dt st) =
     filter (\<lambda>g. g_timer g \<le> lifeleng g) (map (gat_advance dt) (gatherable_stack st)) \<and>
   noscoop_timer (gatherable_update dt st) = noscoop_timer st + dt"
  using update_loop_filter [of 0 "gatherable_stack st" dt] by (simp add: gatherable_update_def not_less)

text \<open>
  C40: gatherable_gather skips the object that follows each gathered one:
  when every object is within reach and the pilot takes every one, the pool
  left is the objects at odd positions, one in two, not the empty pool.
\<close>
theorem gatherable_gather_skips:
  assumes "\<forall>p c. 0 < snd (add p c)"
    and "\<forall>g\<in>set (gatherable_stack st). vect_dist ppos (g_pos g) < GATHER_DIST"
  shows "gatherable_stack (fst (gatherable_gather add free player ppos st p)) =
         map (\<lambda>k. gatherable_stack st ! (2 * k + 1)) [0..<length (gatherable_stack st) div 2]"
  using gather_loop_all_in_range [OF assms, of 0 free player p "[]"] by (simp add: gatherable_gather_def)

subsection \<open>The closest object\<close>

lemma find_idx_Min: "ds \<noteq> [] \<Longrightarrow> \<exists>k. find_idx (\<lambda>x. x = Min (set ds)) ds = Some k"
  using Min_in [of "set ds"] by (cases "find_idx (\<lambda>x. x = Min (set ds)) ds") (auto simp: find_idx_None_iff)

lemma closest_from_min:
  "closest_from pos rad i gs curg mind =
     (let ds = map (\<lambda>g. vect_dist pos (g_pos g)) gs in
      if ds \<noteq> [] \<and> Min (set ds) < closest_bound rad mind
      then int (i + the (find_idx (\<lambda>x. x = Min (set ds)) ds)) else curg)"
proof (induction gs arbitrary: i curg mind)
  case Nil
  then show ?case by simp
next
  case (Cons g gs)
  let ?d = "vect_dist pos (g_pos g)"
  let ?ds = "map (\<lambda>g. vect_dist pos (g_pos g)) gs"
  show ?case
  proof (cases "(case mind of None \<Rightarrow> True | Some m \<Rightarrow> ?d < m) \<and> ?d < rad")
    case sel: True
    then have b: "?d < closest_bound rad mind" by (auto simp: closest_bound_def split: option.splits)
    have dr: "?d < rad" using sel by simp
    have b': "closest_bound rad (Some ?d) = ?d" using dr by (simp add: closest_bound_def)
    show ?thesis
    proof (cases "?ds \<noteq> [] \<and> Min (set ?ds) < ?d")
      case True
      have "Min (insert ?d (set ?ds)) = min ?d (Min (set ?ds))"
        using True by (intro Min_insert) auto
      then have "Min (set (?d # ?ds)) = min ?d (Min (set ?ds))" by (simp only: list.set)
      with True have "Min (set (?d # ?ds)) = Min (set ?ds)" by simp
      moreover obtain k where "find_idx (\<lambda>x. x = Min (set ?ds)) ?ds = Some k"
        using find_idx_Min [of ?ds] True by blast
      ultimately show ?thesis using True b dr sel Cons.IH [of "Suc i" "int i" "Some ?d"]
        by (auto simp: Let_def b')
    next
      case False
      have m: "Min (set (?d # ?ds)) = ?d"
      proof (cases "?ds = []")
        case nil: False
        have mi: "Min (insert ?d (set ?ds)) = min ?d (Min (set ?ds))" using nil by (intro Min_insert) auto
        have le: "?d \<le> Min (set ?ds)" using False nil by (meson not_less)
        show ?thesis by (simp only: list.set mi min_absorb1 [OF le])
      qed simp
      show ?thesis using False b sel Cons.IH [of "Suc i" "int i" "Some ?d"] dr m
        by (auto simp: Let_def b')
    qed
  next
    case False
    then have nb: "closest_bound rad mind \<le> ?d" by (auto simp: closest_bound_def split: option.splits)
    have step: "closest_from pos rad i (g # gs) curg mind = closest_from pos rad (Suc i) gs curg mind"
      using False unfolding closest_from.simps(2) Let_def by (rule if_not_P)
    show ?thesis
    proof (cases "?ds \<noteq> [] \<and> Min (set ?ds) < closest_bound rad mind")
      case True
      have mi: "Min (insert ?d (set ?ds)) = min ?d (Min (set ?ds))" using True by (intro Min_insert) auto
      have lt: "Min (set ?ds) < ?d" using True nb by linarith
      then have md: "Min (set (?d # ?ds)) = Min (set ?ds)" by (simp only: list.set mi min_absorb2 [OF less_imp_le [OF lt]])
      obtain k where k: "find_idx (\<lambda>x. x = Min (set ?ds)) ?ds = Some k" using find_idx_Min [of ?ds] True by blast
      have ne: "?d \<noteq> Min (set ?ds)" using lt by simp
      have "find_idx (\<lambda>x. x = Min (set (?d # ?ds))) (?d # ?ds) = Some (Suc k)"
        using k ne by (simp only: md find_idx.simps if_False option.map)
      moreover have "Min (set (?d # ?ds)) < closest_bound rad mind" using True md by simp
      ultimately show ?thesis using step Cons.IH [of "Suc i" curg mind] True k
        by (simp only: Let_def list.map) simp
    next
      case False
      have "closest_bound rad mind \<le> Min (set (?d # ?ds))"
      proof (cases "?ds = []")
        case nil: False
        have mi: "Min (insert ?d (set ?ds)) = min ?d (Min (set ?ds))" using nil by (intro Min_insert) auto
        have "closest_bound rad mind \<le> Min (set ?ds)" using False nil by (meson not_less)
        with nb show ?thesis by (simp only: list.set mi min.bounded_iff)
      qed (simp add: nb)
      then have c: "\<not> (?d # ?ds \<noteq> [] \<and> Min (set (?d # ?ds)) < closest_bound rad mind)" by (simp only: not_less [symmetric]) simp
      have r: "closest_from pos rad (Suc i) gs curg mind = curg"
        using Cons.IH [of "Suc i" curg mind] by (simp only: Let_def if_not_P [OF False])
      show ?thesis unfolding Let_def list.map if_not_P [OF c] using step r by simp
    qed
  qed
qed

text \<open>The index returned is that of the first object at the least distance, when that distance is below \<open>rad\<close>.\<close>

lemma gatherable_getClosest_min:
  "gatherable_getClosest pos rad st =
     (let ds = map (\<lambda>g. vect_dist pos (g_pos g)) (gatherable_stack st) in
      if ds \<noteq> [] \<and> Min (set ds) < rad then int (the (find_idx (\<lambda>x. x = Min (set ds)) ds)) else -1)"
  by (simp only: gatherable_getClosest_def closest_from_min) (simp add: closest_bound_def Let_def)

subsection \<open>Jettisoned cargo: count and speed\<close>

lemma RNG_range:
  assumes "L \<le> H" and "0 \<le> u" and "u < 1"
  shows "L \<le> RNG L H u \<and> RNG L H u \<le> H"
proof -
  define x where "x = real_of_int (H - L + 1) * u"
  have x0: "0 \<le> x" using assms by (simp add: x_def)
  have x1: "x < real_of_int (H - L + 1)" using assms by (simp add: x_def mult_less_cancel_left1)
  have "\<lfloor>x\<rfloor> < H - L + 1" using x1 by (simp only: floor_less_iff)
  moreover have "0 \<le> \<lfloor>x\<rfloor>" using x0 by simp
  moreover have "RNG L H u = L + \<lfloor>x\<rfloor>" unfolding RNG_def c_trunc_def x_def [symmetric] using x0 by simp
  ultimately show ?thesis by simp
qed

lemma commodity_Jettison_count:
  assumes "0 \<le> quantity" and "0 \<le> u" and "u < 1"
  shows "max 1 (nat (quantity div 10)) \<le> length (commodity_Jettison ppos pvel quantity u draw) \<and>
         length (commodity_Jettison ppos pvel quantity u draw) \<le> max 1 (nat (quantity div 5))"
proof -
  have s: "quantity sdiv 10 = quantity div 10" "quantity sdiv 5 = quantity div 5"
    using assms(1) by (simp_all add: signed_divide_int_def sgn_if)
  have "quantity div 10 \<le> quantity div 5" using assms(1) by (simp add: zdiv_mono2)
  with RNG_range [OF this assms(2,3)] show ?thesis
    by (simp add: commodity_Jettison_def Let_def s) linarith
qed

lemma commodity_Jettison_speed:
  assumes "\<forall>i. 0 \<le> fst (draw i) \<and> fst (draw i) \<le> 1"
  shows "\<forall>e\<in>set (commodity_Jettison ppos pvel quantity u draw). fst e = ppos \<and> vect_dist pvel (snd e) \<le> 12.5"
proof
  fix e assume "e \<in> set (commodity_Jettison ppos pvel quantity u draw)"
  then obtain i where e: "e = (ppos, \<lparr>vx = vx pvel + (fst (draw i) * 25 - 12.5) * cos (2 * pi * snd (draw i)),
                                       vy = vy pvel + (fst (draw i) * 25 - 12.5) * sin (2 * pi * snd (draw i))\<rparr>)"
    by (auto simp: commodity_Jettison_def Let_def)
  let ?r = "fst (draw i) * 25 - 12.5" and ?a = "2 * pi * snd (draw i)"
  have "(?r * cos ?a)\<^sup>2 + (?r * sin ?a)\<^sup>2 = ?r\<^sup>2"
    by (simp add: power_mult_distrib distrib_left [symmetric])
  then have "vect_dist pvel (snd e) = \<bar>?r\<bar>" by (simp add: e vect_dist_def)
  moreover have "0 \<le> fst (draw i)" "fst (draw i) \<le> 1" using assms by auto
  then have "- 12.5 \<le> ?r" "?r \<le> 12.5" by simp_all
  then have "\<bar>?r\<bar> \<le> 12.5" by (intro abs_leI) simp_all
  ultimately show "fst e = ppos \<and> vect_dist pvel (snd e) \<le> 12.5" by (simp add: e)
qed

end
