(* ===== verification/Credits_Format.thy ===== *)
theory Credits_Format
  imports Econ_Prelude
begin

text \<open>
  Currency formatting (src/src/economy.c, \<open>credits2str\<close> and \<open>price2str\<close>).
  Both write a string with \<open>nsnprintf\<close>; the model keeps what is printed as
  the format and its arguments: the plain integer of \<open>CREDITS_PRI\<close>, or a
  value printed with \<open>%.*f\<close> at a number of decimals followed by a unit
  letter, and for a price the colour escape \<open>\ar...\a0\<close> around it. The
  lemmas show which unit is chosen and that the printed value lies in
  \<open>[1, 1000)\<close> below the largest unit.
\<close>

datatype cred_str = CredPlain credits | CredScaled int real char

datatype price_str = PricePlain cred_str | PriceRed cred_str

definition credits2str :: "credits \<Rightarrow> int \<Rightarrow> cred_str" where
  "credits2str c d =
     (if d < 0 then CredPlain c
      else if 1000000000000000 \<le> c then CredScaled d (real_of_int c / 1000000000000000) (CHR ''Q'')
      else if 1000000000000 \<le> c then CredScaled d (real_of_int c / 1000000000000) (CHR ''T'')
      else if 1000000000 \<le> c then CredScaled d (real_of_int c / 1000000000) (CHR ''B'')
      else if 1000000 \<le> c then CredScaled d (real_of_int c / 1000000) (CHR ''M'')
      else if 1000 \<le> c then CredScaled d (real_of_int c / 1000) (CHR ''K'')
      else CredPlain c)"

text \<open>A price above the credits on hand is shown in red.\<close>

definition price2str :: "credits \<Rightarrow> credits \<Rightarrow> int \<Rightarrow> price_str" where
  "price2str p c d = (if p \<le> c then PricePlain (credits2str p d) else PriceRed (credits2str p d))"

text \<open>The unit \<open>credits2str\<close> uses for an amount: its power of 1000 and its letter.\<close>

definition cred_unit :: "credits \<Rightarrow> nat \<times> char" where
  "cred_unit c =
     (if 1000000000000000 \<le> c then (5, CHR ''Q'') else if 1000000000000 \<le> c then (4, CHR ''T'')
      else if 1000000000 \<le> c then (3, CHR ''B'') else if 1000000 \<le> c then (2, CHR ''M'')
      else (1, CHR ''K''))"

lemma credits2str_plain:
  "credits2str c d = CredPlain c' \<longleftrightarrow> c' = c \<and> (d < 0 \<or> c < 1000)"
  by (auto simp: credits2str_def)

lemma credits2str_scaled:
  assumes "0 \<le> d" and "1000 \<le> c"
  shows "credits2str c d = CredScaled d (real_of_int c / 1000 ^ fst (cred_unit c)) (snd (cred_unit c))"
  using assms by (simp add: credits2str_def cred_unit_def)

lemma credits2str_scaled_range:
  assumes "credits2str c d = CredScaled d' v u"
  shows "d' = d \<and> 0 \<le> d \<and> 1 \<le> v \<and> (u \<noteq> CHR ''Q'' \<longrightarrow> v < 1000)"
  using assms by (auto simp: credits2str_def split: if_splits)

lemma price2str_red: "(\<exists>s. price2str p c d = PriceRed s) \<longleftrightarrow> c < p"
  by (simp add: price2str_def)

end
