(* ===== verification/Spec2Isabelle.thy ===== *)
theory Spec2Isabelle
  imports Observation Economy_State Initializer Persistence Gatherables Credits_Format
begin

text \<open>
  \<^bold>\<open>A verification model of the naev economy (src/src/economy.c).\<close>

  \<^emph>\<open>The program.\<close> economy.c holds five cooperating parts around global
  state: the commodity catalog (\<open>commodity_stack\<close>, \<open>econ_comm\<close>), loaded from
  XML; the price initializer, which derives the parameters of every planet's
  \<open>CommodityPrice\<close> entries in four passes over \<open>systems_stack\<close>; the price
  evaluator, a closed form in the simulated time; the observation tracker,
  which accumulates the prices the player has seen and reports means and
  deviations, and is saved and restored with the game (\<open>economy_sysSave\<close>,
  \<open>economy_sysLoad\<close>); and the network
  model with its lifecycle (\<open>econ_initialized\<close>, \<open>econ_queued\<close>, \<open>econ_G\<close>),
  which builds an admittance matrix over the jump graph and solves it with
  CSparse into per-system \<open>prices\<close> arrays. Beside them it keeps the pool
  of floating cargo a pilot can scoop up (the gatherables) and formats
  amounts of credits for display.

  \<^emph>\<open>The theories.\<close>
  \<^item> Econ_Prelude: C conversions (\<open>c_trunc\<close>, the rounding idiom
    \<open>econ_round\<close>, wrapping \<open>int64_mul\<close>/\<open>int32_mul\<close> over \<open>64 word\<close>/\<open>32 word\<close>),
    the fault type \<open>c_fault\<close> (\<open>NullDeref\<close> for \<open>strcmp\<close> on \<open>NULL\<close>, \<open>NonFinite\<close>
    for a double division by zero), the first-match loops \<open>find_idx\<close> and
    \<open>find_idx_e\<close>, and the fallible loops \<open>sbind\<close>, \<open>fold_e\<close>, \<open>map_e\<close>.
  \<^item> Commodity: the catalog (\<open>commodity_parse\<close>, \<open>commodity_load\<close>,
    \<open>commodity_free\<close>, \<open>commodity_get\<close>/\<open>commodity_getW\<close>,
    \<open>commodity_compareTech\<close>, with glibc's \<open>strcmp\<close> as \<open>c_strcmp\<close>). Lemmas:
    the loaded stack and priced set, the lookup with its \<open>NULL\<close> fault, the
    comparator laws (the sign of the byte difference on a name tie).
  \<^item> Universe: the records \<open>CommodityPrice\<close>, \<open>Planet\<close>, \<open>StarSystem\<close> of the
    headers (planets inside their system, commodity and jump pointers as
    indices), \<open>ntime_convertSTU\<close>, and the well-formedness of planets and systems.
  \<^item> Price_Eval: \<open>economy_getPriceAtTime\<close>/\<open>economy_getPrice\<close>; the formula
    \<open>price_at\<close> is NaN (\<open>None\<close>) when a period is 0, and the cast
    \<open>credits_of_price\<close> turns NaN into \<open>INT64_MIN\<close>, as x86-64 code does. Lemmas:
    the found/miss results, bounds, periodicity, the rounding of negative
    prices, the \<open>INT64_MIN\<close> price of a zero period.
  \<^item> Observation: \<open>economy_averageSeenPricesAtTime\<close>, \<open>economy_averageSeenPrices\<close>,
    \<open>economy_getAveragePlanetPrice\<close>, \<open>economy_getAveragePrice\<close>,
    \<open>economy_clearKnown\<close>, against a reference semantics of one recorded
    observation (\<open>record_obs\<close>). Lemmas: the effect of recording, its idempotence
    per instant, the mean and the population deviation, the \<open>int\<close> overflow of
    \<open>cnt*cnt\<close>, the unobserved case, the reset.
  \<^item> Network: \<open>econ_calcJumpR\<close> and \<open>econ_createGMatrix\<close> as the triplet list given
    to \<open>cs_entry\<close>, in which every jump fills its position twice. Two readings:
    duplicates summed (\<open>coo_entry\<close>, the matrix the triplets denote) and the
    last duplicate kept (\<open>coo_last\<close>, what \<open>cs_qr\<close> reads from the compressed
    matrix, since the code never calls \<open>cs_dupl\<close>). Lemmas for the first:
    symmetry, exact entries (a two-way jump counts twice), isolated rows, strict
    diagonal dominance when the conductance into every system is below 1/3,
    hence uniqueness of solutions (a maximum-row argument). For the second: a
    network of two-way jumps gets the specified entries and is strictly
    diagonally dominant whatever its degree.
  \<^item> Economy_State: the lifecycle (\<open>economy_init\<close>, \<open>economy_addQueuedUpdate\<close>,
    \<open>economy_execQueued\<close>, \<open>economy_refresh\<close>, \<open>economy_update\<close>,
    \<open>economy_destroy\<close>) on the explicit state \<open>econ \<times> StarSystem list\<close>, with the
    solver \<open>cs_qrsol\<close> as a parameter and its contract \<open>solver_sound\<close>; the
    inductive step relation \<open>econ_step\<close> (every entry point, plus changes of the
    universe that keep the price arrays) and \<open>econ_reach\<close>. Lemmas: the
    invariant of reachable states by rule induction, the exact effect of an
    update (also on solver failure), the equilibrium of refresh and init, the
    draining of the queue, and that one step always reaches a settled economy.
  \<^item> Initializer: \<open>economy_calcPrice\<close>, \<open>economy_modifySystemCommodityPrice\<close>,
    \<open>economy_smoothCommodityPrice\<close>, \<open>economy_calcUpdatedCommodityPrice\<close> and
    \<open>economy_initialiseCommodityPrices\<close>, each pass an in-place loop over the
    systems (\<open>systems_pass\<close>). Lemmas: the closed form of \<open>economy_calcPrice\<close>
    (the faction scale is read from the planet modifiers) and hence that no
    faction modifier reaches any price of the initialiser, its \<open>NULL\<close> faction
    fault, its bounds, the 64-bit wrap of the exterior-name scale, and the
    equality of the in-place smoothing loop with smoothing against a snapshot.
  \<^item> Persistence: \<open>economy_sysSave\<close> as the list of elements it writes and
    \<open>economy_sysLoad\<close> as folds over the elements of a document (\<open>load_save_elem\<close>,
    \<open>load_econ_elem\<close>, \<open>load_asset\<close>, \<open>load_commodity\<close>) after \<open>economy_clearKnown\<close>;
    an attribute is the number \<open>printf\<close> writes and \<open>atof\<close>/\<open>atoi\<close>/\<open>atol\<close> read
    (\<open>c_fmt_f\<close>, \<open>c_fmt_u64\<close>, \<open>c_atol\<close>). The proof views the universe as a
    function of positions (\<open>with_entries\<close>) and follows the loops entry by
    entry, planet by planet, system by system. Lemmas: the round trip (what is
    read back is \<open>economy_keepSeen\<close> of what was saved, under \<open>wf_save\<close>: unique,
    non-\<open>NULL\<close> names and exactly printed values, which whole-credit sums
    are), that any load which does not fault changes only what
    \<open>economy_clearKnown\<close> clears, and the \<open>NULL\<close> dereferences on an unknown
    commodity or planet.
  \<^item> Gatherables: the pool of floating cargo (\<open>gatherable_stack\<close>,
    \<open>noscoop_timer\<close>) and \<open>gatherable_init\<close>, \<open>gatherable_update\<close>, \<open>gatherable_free\<close>,
    \<open>gatherable_getClosest\<close>, \<open>gatherable_getPos\<close>, \<open>gatherable_gather\<close>; the two
    in-place removal loops are \<open>function\<close>s whose termination measure is the
    number of elements left to visit. The pilot, \<open>pilot_cargoAdd\<close> with its
    random quantity, and \<open>RNGF()\<close> are parameters; \<open>commodity_Jettison\<close> is the
    list of cargo effects it adds. Lemmas: the update loop is a filter; the
    gather loop skips the object after each gathered one; the closest query
    returns the first object at the least distance below the radius; the number of
    jettison effects and their speed relative to the pilot are bounded.
  \<^item> Credits_Format: \<open>credits2str\<close> and \<open>price2str\<close>, with what \<open>nsnprintf\<close>
    prints kept as its format and arguments. Lemmas: when the plain integer
    is printed, the unit chosen, the printed value in \<open>[1, 1000)\<close> below the
    largest unit, and when a price is shown in red.
  \<^item> Spec2Isabelle (this theory): concrete fixtures, the witnesses of the
    conditional properties, the counterexample to unconditional diagonal
    dominance in both readings (ten one-way jumps into one system), and the
    end-to-end property that
    a commodity loaded with a non-positive price is never priced.

  \<^emph>\<open>Modelling choices.\<close> Doubles are reals: rounding is not modelled, and a
  NaN or infinity is an error value (\<open>None\<close> in Observation and Price_Eval,
  \<open>NonFinite\<close> in Initializer); where the code casts a NaN price to
  \<open>credits_t\<close>, undefined in C, the model returns \<open>INT64_MIN\<close>, what the
  \<open>cvttsd2si\<close> instruction gives on x86-64. Integers the code keeps at a width where overflow happens are
  words or explicit \<open>signed_take_bit\<close>: the 64-bit squares of prices, the 32-bit
  \<open>cnt*cnt\<close> (exact up to 46340 observations, wrong from 46341), the \<open>size_t\<close>
  length difference of the exterior name. The current time \<open>ntime_get()\<close>,
  \<open>faction_name\<close>, \<open>areEnemies\<close>/\<open>areAllies\<close> and \<open>cs_qrsol\<close> are parameters. No loop
  of the code can run forever (all are bounded by array lengths), so every
  operation is a total, executable function and no fuel is needed.

  \<^emph>\<open>Not modelled.\<close> The XML framing of the save (\<open>xmlw_*\<close>, \<open>xmlr_attr\<close>:
  the document is its elements), and with it two faults of \<open>economy_sysLoad\<close>
  on malformed saves: \<open>system_get(NULL)\<close> for a \<open><system>\<close> without a name
  (its result is otherwise unused, line 1501) and \<open>xml_raw\<close> of an empty
  \<open><lastPurchase>\<close>, whose text node is \<open>NULL\<close> (line 1551). The whitespace text
  nodes of the catalog are not elements of the model (\<open>xml_onlyNodes\<close>
  skips them). The freed \<open>econ_comm\<close> after \<open>commodity_free\<close> has no value in
  the model: no modelled operation reads it, and reloading the catalog
  afterwards (a \<open>realloc\<close> of the freed block) is undefined behaviour.
  \<open>gatherable_render\<close> and the drawing of effects (graphics only),
  \<open>commodity_freeOne\<close> (deallocation), the digits \<open>printf\<close> produces,
  textures and descriptions,
  allocation failures, and the unused \<open>gfx_spaceName\<close> period of
  \<open>economy_calcPrice\<close>.
\<close>

definition ex_food :: commodity where
  "ex_food = commodity_init\<lparr>commodity_name := Some ''Food'', commodity_price := 100\<rparr>"

definition ex_ore :: commodity where
  "ex_ore = commodity_init\<lparr>commodity_name := Some ''Ore'', commodity_price := 50\<rparr>"

definition ex_gold :: commodity where
  "ex_gold = commodity_init\<lparr>commodity_name := Some ''Gold''\<rparr>"

definition ex_catalog :: catalog where
  "ex_catalog = \<lparr>commodity_stack = [ex_food, ex_ore, ex_gold], econ_comm = [0, 1]\<rparr>"

definition ex_cp :: CommodityPrice where
  "ex_cp = \<lparr>cp_name = None, price = 100, planetPeriod = 1, sysPeriod = 1, planetVariation = 10,
     sysVariation = 5, updateTime = 0, cp_sum = 0, cp_sum2 = 0, cnt = 0\<rparr>"

definition ex_planet :: Planet where
  "ex_planet = \<lparr>planet_name = ''Earth'', planet_class = ''M'', planet_faction = 0, population = 0,
     presenceRange = 0, gfx_exterior = [], commodities = [0], commodityPrice = [ex_cp]\<rparr>"

definition ex_planet_neg :: Planet where
  "ex_planet_neg = ex_planet\<lparr>commodityPrice := [ex_cp\<lparr>price := -3, planetVariation := 0, sysVariation := 0\<rparr>]\<rparr>"

definition ex_planet_flat :: Planet where
  "ex_planet_flat = ex_planet\<lparr>commodityPrice := [ex_cp\<lparr>planetPeriod := 0\<rparr>]\<rparr>"

definition ex_system :: StarSystem where
  "ex_system = \<lparr>sys_name = ''Sol'', sys_id = 0, nebu_density = 0, nebu_volatility = 0, interference = 0,
     radius = 0, sys_faction = -1, jumps = [], planets = [ex_planet], prices = None, averagePrice = []\<rparr>"

definition ex_seen :: Planet where
  "ex_seen = ex_planet\<lparr>commodityPrice := [ex_cp\<lparr>updateTime := 1, cnt := 1, cp_sum := 100, cp_sum2 := 10000\<rparr>]\<rparr>"

text \<open>A two-system network, a hub, and two solvers: one that solves only the zero system exactly, one that always fails.\<close>

definition ex_fr :: faction_rel where
  "ex_fr = \<lparr>areEnemies = (\<lambda>a b. False), areAllies = (\<lambda>a b. a = b)\<rparr>"

definition ex_sysA :: StarSystem where
  "ex_sysA = ex_system\<lparr>sys_name := ''A'', nebu_density := 100, jumps := [1], planets := []\<rparr>"

definition ex_sysB :: StarSystem where
  "ex_sysB = ex_system\<lparr>sys_name := ''B'', sys_id := 1, nebu_volatility := 50, jumps := [0], planets := []\<rparr>"

definition ex_net :: "StarSystem list" where
  "ex_net = [ex_system\<lparr>jumps := [1], planets := []\<rparr>, ex_system\<lparr>sys_id := 1, jumps := [0], planets := []\<rparr>]"

definition ex_net3 :: "StarSystem list" where
  "ex_net3 = ex_net @ [ex_system\<lparr>sys_id := 2, planets := []\<rparr>]"

definition ex_net_p :: "StarSystem list" where
  "ex_net_p = map (\<lambda>s. s\<lparr>prices := Some [5]\<rparr>) ex_net"

definition ex_leaf :: "nat \<Rightarrow> StarSystem" where
  "ex_leaf k = ex_system\<lparr>sys_id := k, sys_faction := 0, jumps := [0], planets := []\<rparr>"

definition ex_hub :: "StarSystem list" where
  "ex_hub = ex_system\<lparr>sys_faction := 0, jumps := [1..<11], planets := []\<rparr> # map ex_leaf [1..<11]"

definition ex_inbound :: "StarSystem list" where
  "ex_inbound = ex_system\<lparr>sys_faction := 0, planets := []\<rparr> # map ex_leaf [1..<11]"

definition ex_zero_solver :: solver where
  "ex_zero_solver g b = (list_all (\<lambda>x. x = 0) b, b)"

definition ex_fail_solver :: solver where
  "ex_fail_solver g b = (False, map (\<lambda>_. 7) b)"

definition ex_live :: econ where
  "ex_live = \<lparr>econ_initialized = True, econ_queued = 2, econ_G = Some []\<rparr>"

text \<open>A commodity with planet and faction modifiers, a faction naming, and two systems with averages.\<close>

definition ex_fname :: "int \<Rightarrow> string option" where
  "ex_fname f = (if f = 0 then Some ''Empire'' else None)"

definition ex_mod_comm :: commodity where
  "ex_mod_comm = ex_food\<lparr>planet_modifier := [(Some ''Empire'', 2), (Some ''M'', 3)],
     faction_modifier := [(Some ''Empire'', 5)]\<rparr>"

definition ex_net_av :: "StarSystem list" where
  "ex_net_av = [(ex_net ! 0)\<lparr>averagePrice := [ex_cp\<lparr>cp_name := Some ''Food''\<rparr>]\<rparr>,
                (ex_net ! 1)\<lparr>averagePrice := [ex_cp\<lparr>cp_name := Some ''Food'', price := 50\<rparr>]\<rparr>]"

text \<open>A catalog document, the empty catalog, and a catalog with an unnamed commodity.\<close>

definition ex_doc :: catalog_doc where
  "ex_doc = CatalogDoc ''Commodities'' [XCommodity [XName ''Food'', XPrice 100], XUnknown ''note'', XCommodity [XName ''Gold'']]"

definition ex_empty_catalog :: catalog where
  "ex_empty_catalog = \<lparr>commodity_stack = [], econ_comm = []\<rparr>"

definition ex_unnamed :: catalog where
  "ex_unnamed = \<lparr>commodity_stack = [ex_food, commodity_init, ex_ore], econ_comm = [0, 2]\<rparr>"

text \<open>A played game to save: a purchase of Food at 120 and one observation on Earth.\<close>

definition ex_sv_cat :: catalog where
  "ex_sv_cat = ex_catalog\<lparr>commodity_stack := [ex_food\<lparr>lastPurchasePrice := 120\<rparr>, ex_ore, ex_gold]\<rparr>"

definition ex_saved :: "StarSystem list" where
  "ex_saved = [ex_system\<lparr>planets := [ex_seen]\<rparr>]"

text \<open>A floating cargo object at the origin.\<close>

definition ex_gat :: "nat \<Rightarrow> Gatherable" where
  "ex_gat c = \<lparr>g_type = c, g_pos = vectnull, g_vel = vectnull, g_timer = 0, lifeleng = 60\<rparr>"

lemmas ex_defs = ex_food_def ex_ore_def ex_gold_def ex_catalog_def ex_cp_def ex_planet_def
  ex_planet_neg_def ex_planet_flat_def commodity_init_def ex_system_def ex_seen_def

lemma ex_planet_wf: "wf_planet ex_catalog ex_planet"
  by (simp add: wf_planet_def ex_defs)

lemma ex_planet_flat_wf: "wf_planet ex_catalog ex_planet_flat"
  by (simp add: wf_planet_def ex_defs)

lemma ex_planet_neg_wf: "wf_planet ex_catalog ex_planet_neg"
  by (simp add: wf_planet_def ex_defs)

lemma ex_find_food: "find_idx (\<lambda>j. commodity_name (commodity_stack ex_catalog ! j) =
    commodity_name (commodity_stack ex_catalog ! 0)) [0] = Some 0"
  by simp

lemma ex_price_at_0: "price_at ex_cp 0 = Some 100"
  by (simp add: price_at_def ex_cp_def)

lemma ex_price_food: "economy_getPriceAtTime ex_catalog 0 ex_planet 0 = Inr 100"
  by (simp add: economy_getPriceAtTime_def economy_commIndex_def planet_commodityIndex_def
      ex_defs price_at_def credits_of_price_def econ_round_def c_trunc_def ntime_convertSTU_def NT_STU_DIV_def NT_STP_STU_def)

lemma ex_seen_price: "seen_price ex_catalog ex_planet 0 0 = 100"
  using ex_price_food by (simp add: seen_price_def ex_planet_def)

lemma ex_averageSeen: "economy_averageSeenPricesAtTime ex_catalog 1 ex_planet 0 = Inr ex_seen"
  using averageSeen_eq [OF ex_planet_wf, of 1 0] ex_seen_price
  by (simp add: ex_defs record_obs_def int64_mul_eq)

theorem economy_getPriceAtTime_found_witness:
  "wf_planet ex_catalog ex_planet \<and> 0 \<in> set (econ_comm ex_catalog) \<and>
   commodity_name (commodity_stack ex_catalog ! 0) \<noteq> None \<and>
   sysPeriod ex_cp \<noteq> 0 \<and> planetPeriod ex_cp \<noteq> 0 \<and>
   economy_getPriceAtTime ex_catalog 0 ex_planet 0 = Inr 100"
  using economy_getPriceAtTime_found [of ex_catalog ex_planet 0 0 0] ex_planet_wf
  by (simp add: ex_defs econ_round_def c_trunc_def)

theorem economy_getPriceAtTime_miss_witness:
  "2 \<notin> set (econ_comm ex_catalog) \<and> economy_getPriceAtTime ex_catalog 2 ex_planet 0 = Inr 0 \<and>
   wf_planet ex_catalog ex_planet \<and> commodity_name (commodity_stack ex_catalog ! 1) \<noteq> None \<and>
   commodities ex_planet = [0] \<and>
   commodity_name (commodity_stack ex_catalog ! 0) \<noteq> commodity_name (commodity_stack ex_catalog ! 1) \<and>
   economy_getPriceAtTime ex_catalog 1 ex_planet 0 = Inr 0"
  using economy_getPriceAtTime_miss [of 2 ex_catalog ex_planet 0]
    economy_getPriceAtTime_miss [of 1 ex_catalog ex_planet 0] ex_planet_wf
  by (simp add: ex_defs)

theorem economy_getPriceAtTime_bounds_witness:
  "economy_getPriceAtTime ex_catalog 0 ex_planet 0 = Inr 100 \<and> wf_planet ex_catalog ex_planet \<and>
   sysPeriod ex_cp \<noteq> 0 \<and> planetPeriod ex_cp \<noteq> 0 \<and>
   0 \<le> planetVariation ex_cp \<and> 0 \<le> sysVariation ex_cp \<and>
   planetVariation ex_cp + sysVariation ex_cp \<le> price ex_cp \<and>
   0 \<le> (100::int) \<and> \<bar>of_int (100::int) - price ex_cp\<bar> \<le> planetVariation ex_cp + sysVariation ex_cp + 1/2"
proof -
  have eq: "economy_getPriceAtTime ex_catalog 0 ex_planet 0 = Inr 100"
    by (rule ex_price_food)
  show ?thesis
    using economy_getPriceAtTime_bounds [OF eq, of 0] ex_planet_wf eq
    by (simp add: ex_defs)
qed

theorem economy_getPriceAtTime_periodic_witness:
  "0 < planetPeriod ex_cp \<and> 0 < sysPeriod ex_cp \<and>
   real_of_int 10000000 / 10000000 = of_int 1 * planetPeriod ex_cp \<and>
   real_of_int 10000000 / 10000000 = of_int 1 * sysPeriod ex_cp \<and>
   economy_getPriceAtTime ex_catalog 0 ex_planet (0 + 10000000) = economy_getPriceAtTime ex_catalog 0 ex_planet 0"
  using economy_getPriceAtTime_periodic [of ex_catalog ex_planet 0 0 10000000 1 1 0] ex_planet_wf
  by (simp add: ex_defs)

theorem economy_getPriceAtTime_negative_rounding_witness:
  "price_at (ex_cp\<lparr>price := -3, planetVariation := 0, sysVariation := 0\<rparr>) (real_of_int 0 / 10000000) = Some (of_int (-3)) \<and>
   economy_getPriceAtTime ex_catalog 0 ex_planet_neg 0 = Inr (-2)"
  using economy_getPriceAtTime_negative_rounding [of ex_catalog ex_planet_neg 0 0 0 "-3"] ex_planet_neg_wf
  by (simp add: ex_defs price_at_def)

theorem economy_getPriceAtTime_zero_period_witness:
  "wf_planet ex_catalog ex_planet_flat \<and> planetPeriod (commodityPrice ex_planet_flat ! 0) = 0 \<and>
   economy_getPriceAtTime ex_catalog 0 ex_planet_flat 5 = Inr (- 9223372036854775808)"
  using economy_getPriceAtTime_zero_period [of ex_catalog ex_planet_flat 0 0 5] ex_planet_flat_wf
  by (simp add: ex_defs)

theorem economy_averageSeenPricesAtTime_result_witness:
  "wf_planet ex_catalog ex_planet \<and> economy_averageSeenPricesAtTime ex_catalog 1 ex_planet 0 =
     Inr (ex_planet\<lparr>commodityPrice := [ex_cp\<lparr>updateTime := 1, cnt := 1, cp_sum := 100, cp_sum2 := 10000\<rparr>]\<rparr>)"
  using economy_averageSeenPricesAtTime_result [OF ex_planet_wf, of 1 0] ex_planet_wf ex_seen_price
  by (simp add: ex_defs record_obs_def int64_mul_eq)

theorem economy_averageSeenPricesAtTime_idem_witness:
  "wf_planet ex_catalog ex_planet \<and> economy_averageSeenPricesAtTime ex_catalog 1 ex_planet 0 = Inr ex_seen \<and>
   economy_averageSeenPricesAtTime ex_catalog 1 ex_seen 5 = Inr ex_seen"
  using economy_averageSeenPricesAtTime_idem [OF ex_planet_wf ex_averageSeen, of 5] ex_planet_wf ex_averageSeen
  by simp

theorem obs_std_correct_witness:
  "obs_inv (ex_cp\<lparr>cnt := 2, cp_sum := 200, cp_sum2 := 40000\<rparr>) \<and>
   obs_std (ex_cp\<lparr>cnt := 2, cp_sum := 200, cp_sum2 := 40000\<rparr>) = Some 100"
proof -
  have inv: "obs_inv (ex_cp\<lparr>cnt := 2, cp_sum := 200, cp_sum2 := 40000\<rparr>)"
    by (simp add: obs_inv_def)
  have "sqrt 10000 = (100::real)"
    by (rule real_sqrt_unique) simp_all
  then show ?thesis
    using obs_std_correct [OF inv] inv by simp
qed

theorem economy_getAveragePlanetPrice_one_observation_witness:
  "wf_planet ex_catalog ex_planet \<and> economy_averageSeenPricesAtTime ex_catalog 1 ex_planet 0 = Inr ex_seen \<and>
   economy_getPriceAtTime ex_catalog 0 ex_planet 0 = Inr 100 \<and>
   economy_getAveragePlanetPrice ex_catalog 0 ex_seen = Inr (0, 100, Some 0)"
  using economy_getAveragePlanetPrice_one_observation [OF ex_planet_wf, of 0 0 1 0 100 ex_seen]
    ex_planet_wf ex_averageSeen ex_price_food
  by (simp add: ex_defs)

theorem economy_getAveragePlanetPrice_unobserved_witness:
  "wf_planet ex_catalog ex_planet \<and> cnt ex_cp = 0 \<and>
   economy_getAveragePlanetPrice ex_catalog 0 ex_planet = Inr (0, 0, Some 0)"
  using economy_getAveragePlanetPrice_unobserved [OF ex_planet_wf, of 0 0] ex_planet_wf
  by (simp add: ex_defs)

theorem economy_clearKnown_resets_witness:
  "economy_clearKnown ex_catalog [ex_system] = (fst (economy_clearKnown ex_catalog [ex_system]),
     snd (economy_clearKnown ex_catalog [ex_system])) \<and>
   econ_comm (fst (economy_clearKnown ex_catalog [ex_system])) = [0, 1]"
  using economy_clearKnown_resets [of ex_catalog "[ex_system]" "fst (economy_clearKnown ex_catalog [ex_system])"
      "snd (economy_clearKnown ex_catalog [ex_system])"]
  by (simp add: ex_catalog_def)

subsection \<open>The network and the lifecycle\<close>

lemmas net_defs = ex_fr_def ex_sysA_def ex_sysB_def ex_net_def ex_net3_def ex_net_p_def ex_system_def
  ex_planet_def econ_calcJumpR_def ECON_BASE_RES_def ECON_FACTION_MOD_def ECON_SELF_RES_def

lemma ex_zero_solver_sound: "solver_sound ex_zero_solver"
  by (auto simp: solver_sound_def ex_zero_solver_def mat_vec_row_def list_all_length)

lemma ex_net_wf: "wf_network ex_net"
  by (simp add: wf_network_def net_defs less_Suc_eq numeral_eq_Suc)

lemma ex_net_incoming: "\<forall>i<length ex_net. incoming_conductance ex_fr ex_net i < 1 / ECON_SELF_RES"
  by (simp add: incoming_conductance_def jump_conductances_def net_defs less_Suc_eq numeral_eq_Suc)

theorem econ_calcJumpR_symmetric_witness:
  "(\<forall>a b. areEnemies ex_fr a b = areEnemies ex_fr b a) \<and> (\<forall>a b. areAllies ex_fr a b = areAllies ex_fr b a) \<and>
   econ_calcJumpR ex_fr ex_sysA ex_sysB = econ_calcJumpR ex_fr ex_sysB ex_sysA"
  using econ_calcJumpR_symmetric [of ex_fr ex_sysA ex_sysB] by (auto simp: ex_fr_def)

theorem econ_calcJumpR_positive_witness:
  "0 \<le> nebu_density ex_sysA \<and> 0 \<le> nebu_density ex_sysB \<and> 0 \<le> nebu_volatility ex_sysA \<and>
   0 \<le> nebu_volatility ex_sysB \<and> 27 \<le> econ_calcJumpR ex_fr ex_sysA ex_sysB \<and> econ_calcJumpR ex_fr ex_sysA ex_sysB = 30.6"
  using econ_calcJumpR_positive [of ex_sysA ex_sysB ex_fr] by (simp add: net_defs)

theorem econ_createGMatrix_entries_witness:
  "wf_network ex_net \<and> 0 < length ex_net \<and> 1 < length ex_net \<and>
   coo_entry (econ_createGMatrix ex_fr ex_net) 0 1 = - 1 / 15 \<and>
   coo_entry (econ_createGMatrix ex_fr ex_net) 0 0 = 11 / 30"
  using econ_createGMatrix_entries [OF ex_net_wf, of 0 1 ex_fr] econ_createGMatrix_entries [OF ex_net_wf, of 0 0 ex_fr]
    ex_net_wf
  by (simp add: net_defs jump_conductances_def out_to_def)

theorem econ_createGMatrix_isolated_witness:
  "wf_network ex_net3 \<and> 2 < length ex_net3 \<and> jumps (ex_net3 ! 2) = [] \<and>
   2 \<notin> set (jumps (ex_net3 ! 0)) \<and> 2 \<notin> set (jumps (ex_net3 ! 1)) \<and> 2 \<notin> set (jumps (ex_net3 ! 2)) \<and>
   coo_entry (econ_createGMatrix ex_fr ex_net3) 2 2 = 1 / 3 \<and>
   off_diag_sum (coo_entry (econ_createGMatrix ex_fr ex_net3)) (length ex_net3) 2 = 0"
proof -
  have wf: "wf_network ex_net3" by (simp add: wf_network_def net_defs less_Suc_eq numeral_eq_Suc)
  have "\<forall>k<length ex_net3. 2 \<notin> set (jumps (ex_net3 ! k))"
    by (simp add: net_defs less_Suc_eq numeral_eq_Suc)
  with econ_createGMatrix_isolated [OF wf, of 2 ex_fr] wf show ?thesis by (simp add: net_defs)
qed

theorem econ_createGMatrix_dominant_witness:
  "wf_network ex_net \<and> incoming_conductance ex_fr ex_net 0 < 1 / 3 \<and>
   incoming_conductance ex_fr ex_net 1 < 1 / 3 \<and> length ex_net = 2 \<and>
   diag_dominant (coo_entry (econ_createGMatrix ex_fr ex_net)) (length ex_net)"
  using econ_createGMatrix_dominant [OF ex_net_wf ex_net_incoming] ex_net_wf ex_net_incoming
  by (simp add: net_defs)

theorem econ_createGMatrix_unique_solution_witness:
  "mat_vec_row (coo_entry (econ_createGMatrix ex_fr ex_net)) 2 (\<lambda>_. 1) 0 = 3 / 10 \<and>
   mat_vec_row (coo_entry (econ_createGMatrix ex_fr ex_net)) 2 (\<lambda>_. 1) 1 = 3 / 10 \<and>
   (\<lambda>_::nat. 1::real) 0 = (\<lambda>j::nat. if j < 2 then 1 else 0 :: real) 0 \<and>
   (\<lambda>_::nat. 1::real) 1 = (\<lambda>j::nat. if j < 2 then 1 else 0 :: real) 1"
proof -
  have row: "\<forall>i<length ex_net. mat_vec_row (coo_entry (econ_createGMatrix ex_fr ex_net)) (length ex_net)
      (\<lambda>j. if j < 2 then 1 else 0) i = (\<lambda>_. 3 / 10) i"
    by (simp add: mat_vec_row_def coo_entry_def econ_createGMatrix_def econ_row_entries_def jump_conductances_def
        net_defs less_Suc_eq numeral_eq_Suc)
  have row1: "\<forall>i<length ex_net. mat_vec_row (coo_entry (econ_createGMatrix ex_fr ex_net)) (length ex_net)
      (\<lambda>_. 1) i = (\<lambda>_. 3 / 10) i"
    by (simp add: mat_vec_row_def coo_entry_def econ_createGMatrix_def econ_row_entries_def jump_conductances_def
        net_defs less_Suc_eq numeral_eq_Suc)
  have len: "length ex_net = 2" by (simp add: ex_net_def)
  from econ_createGMatrix_unique_solution [OF ex_net_wf ex_net_incoming row1 row]
  have "\<forall>i<2. (\<lambda>_::nat. 1::real) i = (\<lambda>j::nat. if j < 2 then 1 else 0 :: real) i" by (simp only: len)
  with row1 [rule_format, of 0] row1 [rule_format, of 1]
  show ?thesis by (simp add: len)
qed

text \<open>
  Ten allied systems with a one-way jump into a system that has no jump back:
  in both readings of the triplets (summed, or the last one wins) that
  system's row has off-diagonal entries summing to 10/27 against a diagonal of
  1/3, so the self conductance does not make the matrix diagonally dominant.
\<close>

lemma ex_inbound_not_dominant:
  "\<not> diag_dominant (coo_last (econ_createGMatrix ex_fr ex_inbound)) (length ex_inbound) \<and>
   \<not> diag_dominant (coo_entry (econ_createGMatrix ex_fr ex_inbound)) (length ex_inbound)"
proof -
  have "off_diag_sum (coo_last (econ_createGMatrix ex_fr ex_inbound)) (length ex_inbound) 0 = 10 / 27"
    by (simp add: off_diag_sum_def coo_last_def econ_createGMatrix_def econ_row_entries_def
      jump_conductances_def ex_inbound_def ex_leaf_def net_defs upt_rec)
  moreover have "coo_last (econ_createGMatrix ex_fr ex_inbound) 0 0 = 1 / 3"
    by (simp add: coo_last_def econ_createGMatrix_def econ_row_entries_def
      jump_conductances_def ex_inbound_def ex_leaf_def net_defs upt_rec)
  moreover have "off_diag_sum (coo_entry (econ_createGMatrix ex_fr ex_inbound)) (length ex_inbound) 0 = 10 / 27"
    by (simp add: off_diag_sum_def coo_entry_def econ_createGMatrix_def econ_row_entries_def
      jump_conductances_def ex_inbound_def ex_leaf_def net_defs upt_rec)
  moreover have "coo_entry (econ_createGMatrix ex_fr ex_inbound) 0 0 = 1 / 3"
    by (simp add: coo_entry_def econ_createGMatrix_def econ_row_entries_def
      jump_conductances_def ex_inbound_def ex_leaf_def net_defs upt_rec)
  moreover have "0 < length ex_inbound" by (simp add: ex_inbound_def)
  ultimately show ?thesis unfolding diag_dominant_def by force
qed

theorem econ_createGMatrix_qr_dominant_witness:
  "diag_dominant (coo_last (econ_createGMatrix ex_fr ex_hub)) (length ex_hub) \<and>
   coo_last (econ_createGMatrix ex_fr ex_hub) 0 1 = - (1 / 27)"
proof -
  have wf: "wf_network ex_hub"
    by (simp add: wf_network_def ex_hub_def ex_leaf_def ex_system_def less_Suc_eq numeral_eq_Suc)
  have tw: "\<forall>i<length ex_hub. \<forall>t\<in>set (jumps (ex_hub ! i)). i \<in> set (jumps (ex_hub ! t))"
    by (simp add: ex_hub_def ex_leaf_def ex_system_def less_Suc_eq numeral_eq_Suc)
  have s: "\<forall>a b. areEnemies ex_fr a b = areEnemies ex_fr b a" "\<forall>a b. areAllies ex_fr a b = areAllies ex_fr b a"
    by (auto simp: ex_fr_def)
  have l: "0 < length ex_hub" "1 < length ex_hub" by (simp_all add: ex_hub_def)
  from econ_createGMatrix_qr_dominant [OF wf tw s] l show ?thesis
    by (simp add: ex_hub_def ex_leaf_def net_defs)
qed

lemma ex_net_G: "econ_createGMatrix ex_fr ex_net_p = econ_createGMatrix ex_fr ex_net"
  by (simp add: ex_net_p_def econ_createGMatrix_prices [OF ex_net_wf])

theorem econ_reach_inv_witness:
  "econ_reach ex_fr ex_zero_solver 1 (snd (economy_init ex_fr ex_zero_solver 1 (econ_start, ex_net))) \<and>
   econ_inv 1 (snd (economy_init ex_fr ex_zero_solver 1 (econ_start, ex_net)))"
proof -
  have "econ_reach ex_fr ex_zero_solver 1 (econ_start, ex_net)"
    by (rule reach_start) (simp add: net_defs)
  then have r: "econ_reach ex_fr ex_zero_solver 1 (snd (economy_init ex_fr ex_zero_solver 1 (econ_start, ex_net)))"
    by (rule reach_step) (rule step_init)
  from r econ_reach_inv [OF r] show ?thesis by simp
qed

theorem economy_update_overwrites_witness:
  "econ_inv 1 (ex_live, ex_net_p) \<and> econ_initialized ex_live \<and> econ_G ex_live = Some [] \<and>
   ex_fail_solver [] (replicate (length ex_net_p) 0) = (False, [7, 7]) \<and>
   prices (ex_net_p ! 0) = Some [5] \<and>
   prices (snd (snd (economy_update ex_fail_solver 1 0 (ex_live, ex_net_p))) ! 0) = Some [8]"
proof -
  have inv: "econ_inv 1 (ex_live, ex_net_p)" by (simp add: econ_inv_def ex_live_def net_defs)
  have sol: "ex_fail_solver [] (replicate (length ex_net_p) 0) = (False, [7, 7])"
    by (simp add: ex_fail_solver_def net_defs numeral_eq_Suc)
  have "length ex_net_p = 2" by (simp add: net_defs)
  with economy_update_overwrites [where qrsol = ex_fail_solver and n = 1 and e = ex_live and ss = ex_net_p
      and dt = 0 and r = "fst (economy_update ex_fail_solver 1 0 (ex_live, ex_net_p))"
      and e' = "fst (snd (economy_update ex_fail_solver 1 0 (ex_live, ex_net_p)))"
      and ss' = "snd (snd (economy_update ex_fail_solver 1 0 (ex_live, ex_net_p)))", OF inv _ _ sol]
    inv sol
  show ?thesis by (simp add: ex_live_def net_defs)
qed

theorem economy_refresh_equilibrium_witness:
  "solver_sound ex_zero_solver \<and> wf_network ex_net_p \<and> incoming_conductance ex_fr ex_net_p 0 < 1 / 3 \<and>
   incoming_conductance ex_fr ex_net_p 1 < 1 / 3 \<and> econ_inv 1 (ex_live, ex_net_p) \<and>
   ex_zero_solver (econ_createGMatrix ex_fr ex_net_p) (replicate 2 0) = (True, [0, 0]) \<and>
   prices (ex_net_p ! 0) = Some [5] \<and>
   econ_G (fst (snd (economy_refresh ex_fr ex_zero_solver 1 (ex_live, ex_net_p)))) = Some (econ_createGMatrix ex_fr ex_net) \<and>
   prices (snd (snd (economy_refresh ex_fr ex_zero_solver 1 (ex_live, ex_net_p))) ! 0) = Some [1] \<and>
   prices (snd (snd (economy_refresh ex_fr ex_zero_solver 1 (ex_live, ex_net_p))) ! 1) = Some [1]"
proof -
  have wf: "wf_network ex_net_p" by (simp add: wf_network_def net_defs less_Suc_eq numeral_eq_Suc)
  have inc: "\<forall>i<length ex_net_p. incoming_conductance ex_fr ex_net_p i < 1 / ECON_SELF_RES"
    by (simp add: incoming_conductance_def jump_conductances_def net_defs less_Suc_eq numeral_eq_Suc)
  have inv: "econ_inv 1 (ex_live, ex_net_p)" by (simp add: econ_inv_def ex_live_def net_defs)
  have sol: "ex_zero_solver (econ_createGMatrix ex_fr ex_net_p) (replicate (length ex_net_p) 0) = (True, [0, 0])"
    by (simp add: ex_zero_solver_def net_defs numeral_eq_Suc)
  let ?R = "economy_refresh ex_fr ex_zero_solver 1 (ex_live, ex_net_p)"
  have len: "length ex_net_p = 2" by (simp add: net_defs)
  have init: "econ_initialized ex_live" by (simp add: ex_live_def)
  note res = economy_refresh_equilibrium [where qrsol = ex_zero_solver and n = 1 and e = ex_live and ss = ex_net_p
      and r = "fst ?R" and e' = "fst (snd ?R)" and ss' = "snd (snd ?R)",
      OF ex_zero_solver_sound wf inc inv init sol]
  have A: "\<forall>i<2. prices (snd (snd ?R) ! i) = Some [1]" and B: "econ_G (fst (snd ?R)) = Some (econ_createGMatrix ex_fr ex_net_p)"
    using res by (simp_all add: len)
  have p0: "prices (ex_net_p ! 0) = Some [5]" by (simp add: net_defs)
  show ?thesis
    using A [rule_format, of 0] A [rule_format, of 1] B ex_zero_solver_sound wf inc [rule_format, of 0]
      inc [rule_format, of 1] inv sol p0 ex_net_G
    by (simp add: len ECON_SELF_RES_def)
qed

theorem economy_init_equilibrium_witness:
  "solver_sound ex_zero_solver \<and> wf_network ex_net \<and> incoming_conductance ex_fr ex_net 0 < 1 / 3 \<and>
   incoming_conductance ex_fr ex_net 1 < 1 / 3 \<and>
   ex_zero_solver (econ_createGMatrix ex_fr ex_net) (replicate 2 0) = (True, [0, 0]) \<and>
   prices (ex_net ! 0) = None \<and>
   econ_initialized (fst (snd (economy_init ex_fr ex_zero_solver 1 (econ_start, ex_net)))) \<and>
   prices (snd (snd (economy_init ex_fr ex_zero_solver 1 (econ_start, ex_net))) ! 0) = Some [1] \<and>
   prices (snd (snd (economy_init ex_fr ex_zero_solver 1 (econ_start, ex_net))) ! 1) = Some [1]"
proof -
  have sol: "ex_zero_solver (econ_createGMatrix ex_fr ex_net) (replicate (length ex_net) 0) = (True, [0, 0])"
    by (simp add: ex_zero_solver_def net_defs numeral_eq_Suc)
  let ?R = "economy_init ex_fr ex_zero_solver 1 (econ_start, ex_net)"
  have len: "length ex_net = 2" by (simp add: net_defs)
  note res = economy_init_equilibrium [where qrsol = ex_zero_solver and n = 1 and ss = ex_net
      and r = "fst ?R" and e' = "fst (snd ?R)" and ss' = "snd (snd ?R)",
      OF ex_zero_solver_sound ex_net_wf ex_net_incoming sol]
  have A: "\<forall>i<2. prices (snd (snd ?R) ! i) = Some [1]" and B: "econ_initialized (fst (snd ?R))"
    using res by (simp_all add: len)
  have p0: "prices (ex_net ! 0) = None" by (simp add: net_defs)
  show ?thesis
    using A [rule_format, of 0] A [rule_format, of 1] B ex_zero_solver_sound ex_net_wf
      ex_net_incoming [rule_format, of 0] ex_net_incoming [rule_format, of 1] sol p0
    by (simp add: len ECON_SELF_RES_def)
qed

theorem economy_execQueued_drains_witness:
  "econ_initialized ex_live \<and> econ_queued ex_live = 2 \<and>
   econ_queued (fst (snd (economy_execQueued ex_fr ex_zero_solver 1 (ex_live, ex_net_p)))) = 0 \<and>
   econ_G (fst (snd (economy_execQueued ex_fr ex_zero_solver 1 (ex_live, ex_net_p)))) =
     Some (econ_createGMatrix ex_fr ex_net)"
proof -
  let ?R = "economy_execQueued ex_fr ex_zero_solver 1 (ex_live, ex_net_p)"
  have init: "econ_initialized ex_live" by (simp add: ex_live_def)
  from economy_execQueued_drains [where qrsol = ex_zero_solver and n = 1 and ss = ex_net_p and fr = ex_fr
      and r = "fst ?R" and e' = "fst (snd ?R)" and ss' = "snd (snd ?R)", OF init] init
  show ?thesis by (simp add: ex_net_G ex_live_def)
qed

subsection \<open>The price initializer\<close>

text \<open>The faction scale 2 of the price 600 is the planet modifier named Empire; the faction modifier 5 is not read.\<close>

lemma ex_calcPrice_faction_scale:
  "fst (planet_modifier ex_mod_comm ! 0) \<noteq> None \<and> fst (planet_modifier ex_mod_comm ! 1) \<noteq> None \<and>
   length (planet_modifier ex_mod_comm) = 2 \<and>
   ex_fname (planet_faction ex_planet) = Some ''Empire'' \<and> presenceRange ex_planet \<noteq> 30 \<and>
   economy_calcPrice ex_fname ex_planet ex_mod_comm ex_cp =
     Inr (ex_cp\<lparr>price := 600, planetVariation := 3 / 8, sysVariation := 0, planetPeriod := 150 * ext_scale ex_planet\<rparr>)"
proof -
  have m: "\<forall>cm\<in>set (planet_modifier ex_mod_comm). fst cm \<noteq> None" by (simp add: ex_mod_comm_def)
  have f: "ex_fname (planet_faction ex_planet) = Some ''Empire''" by (simp add: ex_fname_def ex_planet_def)
  have r: "presenceRange ex_planet \<noteq> 30" by (simp add: ex_planet_def)
  have pf: "pop_factor ex_planet = -1" by (simp add: pop_factor_def ex_planet_def)
  show ?thesis
    using economy_calcPrice_result [where fname = ex_fname and p = ex_planet and c = ex_mod_comm, OF m f r, of ex_cp] f r pf
    by (simp add: ex_mod_comm_def mod_lookup_def ex_planet_def ex_cp_def ex_food_def commodity_init_def)
qed

theorem economy_initialiseCommodityPrices_faction_modifier_unused_witness:
  "economy_initialiseCommodityPrices ex_fname (ex_catalog\<lparr>commodity_stack := [ex_mod_comm]\<rparr>) ex_net =
   economy_initialiseCommodityPrices ex_fname (ex_catalog\<lparr>commodity_stack := [ex_mod_comm\<lparr>faction_modifier := []\<rparr>]\<rparr>) ex_net"
  using economy_initialiseCommodityPrices_faction_modifier_unused
    [where fname = ex_fname and cat = "ex_catalog\<lparr>commodity_stack := [ex_mod_comm\<lparr>faction_modifier := []\<rparr>]\<rparr>"
       and fm = "\<lambda>_. faction_modifier ex_mod_comm" and ss = ex_net]
  by (simp add: ex_mod_comm_def)

theorem economy_calcPrice_null_faction_witness:
  "fst (planet_modifier ex_mod_comm ! 0) \<noteq> None \<and> fst (planet_modifier ex_mod_comm ! 1) \<noteq> None \<and>
   planet_modifier ex_mod_comm \<noteq> [] \<and> ex_fname (planet_faction (ex_planet\<lparr>planet_faction := 3\<rparr>)) = None \<and>
   economy_calcPrice ex_fname (ex_planet\<lparr>planet_faction := 3\<rparr>) ex_mod_comm ex_cp = Inl NullDeref"
proof -
  have m: "\<forall>cm\<in>set (planet_modifier ex_mod_comm). fst cm \<noteq> None" by (simp add: ex_mod_comm_def)
  have ne: "planet_modifier ex_mod_comm \<noteq> []" by (simp add: ex_mod_comm_def)
  have f: "ex_fname (planet_faction (ex_planet\<lparr>planet_faction := 3\<rparr>)) = None" by (simp add: ex_fname_def)
  show ?thesis
    using economy_calcPrice_null_faction [where fname = ex_fname and c = ex_mod_comm, OF m ne f, of ex_cp] ne f
    by (simp add: ex_mod_comm_def)
qed

lemma ex_calcPrice: "economy_calcPrice ex_fname ex_planet ex_mod_comm ex_cp =
     Inr (ex_cp\<lparr>price := 600, planetVariation := 3 / 8, sysVariation := 0, planetPeriod := 150 * ext_scale ex_planet\<rparr>)"
  by (simp add: economy_calcPrice_def modifier_scale_def ex_mod_comm_def ex_fname_def ex_planet_def pop_factor_def
      ex_cp_def ex_food_def commodity_init_def)

theorem economy_calcPrice_bounds_witness:
  "economy_calcPrice ex_fname ex_planet ex_mod_comm ex_cp =
     Inr (ex_cp\<lparr>price := 600, planetVariation := 3 / 8, sysVariation := 0, planetPeriod := 150 * ext_scale ex_planet\<rparr>) \<and>
   -100 < period ex_mod_comm \<and> presenceRange ex_planet < 30 \<and>
   planetVariation (ex_cp\<lparr>price := 600, planetVariation := 3 / 8, sysVariation := 0, planetPeriod := 150 * ext_scale ex_planet\<rparr>) = 3 / 8 \<and>
   0 < planetPeriod (ex_cp\<lparr>price := 600, planetVariation := 3 / 8, sysVariation := 0, planetPeriod := 150 * ext_scale ex_planet\<rparr>)"
proof -
  have p: "-100 < period ex_mod_comm" by (simp add: ex_mod_comm_def ex_food_def commodity_init_def)
  have r: "presenceRange ex_planet < 30" by (simp add: ex_planet_def)
  show ?thesis using economy_calcPrice_bounds [OF ex_calcPrice p r] ex_calcPrice p r by simp
qed

theorem ext_scale_wrap_witness:
  "length (gfx_exterior ex_planet) = 0 \<and> 184467440737095516 < ext_scale ex_planet \<and>
   ext_scale ex_planet = 1 + real_of_int ((0 - 39) mod 2 ^ 64) / 100"
proof -
  have l: "length (gfx_exterior ex_planet) = 0" by (simp add: ex_planet_def)
  show ?thesis using ext_scale_wrap [of ex_planet] l by simp
qed

theorem economy_smoothCommodityPrice_pass_parallel_witness:
  "jumps (ex_net_av ! 0) = [1] \<and> jumps (ex_net_av ! 1) = [0] \<and> length ex_net_av = 2 \<and>
   systems_pass economy_smoothCommodityPrice ex_net_av = map_e (economy_smoothCommodityPrice ex_net_av) ex_net_av \<and>
   map (\<lambda>s. map cp_sum (averagePrice s)) (projr (systems_pass economy_smoothCommodityPrice ex_net_av)) = [[50], [100]]"
proof -
  have t: "\<forall>s\<in>set ex_net_av. \<forall>t\<in>set (jumps s). t < length ex_net_av"
    by (simp add: ex_net_av_def ex_net_def)
  have m: "map_e (economy_smoothCommodityPrice ex_net_av) ex_net_av =
      Inr [(ex_net_av ! 0)\<lparr>averagePrice := [ex_cp\<lparr>cp_name := Some ''Food'', cp_sum := 50\<rparr>]\<rparr>,
           (ex_net_av ! 1)\<lparr>averagePrice := [ex_cp\<lparr>cp_name := Some ''Food'', price := 50, cp_sum := 100\<rparr>]\<rparr>]"
    by (simp add: economy_smoothCommodityPrice_def smooth_entry_def ex_net_av_def ex_net_def ex_cp_def)
  show ?thesis
    using economy_smoothCommodityPrice_pass_parallel [OF t] m by (simp add: ex_net_av_def ex_net_def ex_cp_def)
qed

subsection \<open>The catalog\<close>

theorem commodity_load_result_witness:
  "catalog_inv ex_empty_catalog \<and> root_children ex_doc \<noteq> [] \<and>
   commodity_load ex_empty_catalog (Some (Some ex_doc)) =
     Inr \<lparr>commodity_stack = [commodity_init\<lparr>commodity_name := Some ''Food'', commodity_price := 100\<rparr>,
                             commodity_init\<lparr>commodity_name := Some ''Gold''\<rparr>], econ_comm = [0]\<rparr>"
proof -
  have inv: "catalog_inv ex_empty_catalog" by (simp add: catalog_inv_def ex_empty_catalog_def)
  have ne: "root_children ex_doc \<noteq> []" by (simp add: ex_doc_def)
  obtain cat' where c: "commodity_load ex_empty_catalog (Some (Some ex_doc)) = Inr cat'"
    "commodity_stack cat' = commodity_stack ex_empty_catalog @ map commodity_parse (commodity_elems (root_children ex_doc))"
    "econ_comm cat' = filter (\<lambda>k. 0 < commodity_price (commodity_stack cat' ! k)) [0..<length (commodity_stack cat')]"
    using commodity_load_result [OF inv ne] by (auto simp: ex_doc_def)
  have st: "commodity_stack cat' = [commodity_init\<lparr>commodity_name := Some ''Food'', commodity_price := 100\<rparr>,
                             commodity_init\<lparr>commodity_name := Some ''Gold''\<rparr>]"
    using c(2) by (simp add: ex_doc_def ex_empty_catalog_def commodity_parse_def)
  have "econ_comm cat' = [0]" using c(3) st by (simp add: commodity_init_def)
  with st c(1) inv ne show ?thesis by simp
qed

theorem commodity_getW_spec_witness:
  "commodity_getW ex_catalog ''Ore'' = Inr (Some 1) \<and> commodity_getW ex_unnamed ''Ore'' = Inl NullDeref \<and>
   1 < length (commodity_stack ex_unnamed) \<and> commodity_name (commodity_stack ex_unnamed ! 1) = None \<and>
   commodity_name (commodity_stack ex_unnamed ! 0) = Some ''Food''"
proof -
  have n: "\<forall>c\<in>set (commodity_stack ex_catalog). commodity_name c \<noteq> None" by (simp add: ex_defs)
  have u: "1 < length (commodity_stack ex_unnamed) \<and> commodity_name (commodity_stack ex_unnamed ! 1) = None \<and>
    (\<forall>i<1. commodity_name (commodity_stack ex_unnamed ! i) \<noteq> None \<and> commodity_name (commodity_stack ex_unnamed ! i) \<noteq> Some ''Ore'')"
    by (simp add: ex_unnamed_def ex_defs)
  show ?thesis
    using commodity_getW_spec [of ex_catalog "''Ore''" 1] commodity_getW_spec [of ex_unnamed "''Ore''" 1] n u
    by (simp add: ex_defs ex_unnamed_def)
qed

theorem commodity_compareTech_comparator_witness:
  "commodity_compareTech ex_food (ex_food\<lparr>commodity_name := Some ''Fuel''\<rparr>) = Inr (-6) \<and>
   commodity_compareTech (ex_food\<lparr>commodity_name := Some ''Fuel''\<rparr>) ex_food = Inr 6 \<and>
   commodity_compareTech ex_food ex_ore = Inr (-1) \<and> commodity_compareTech ex_ore ex_food = Inr 1"
proof -
  have n: "commodity_name ex_food = Some ''Food''"
    "commodity_name (ex_food\<lparr>commodity_name := Some ''Fuel''\<rparr>) = Some ''Fuel''"
    "commodity_name ex_ore = Some ''Ore''"
    by (simp_all add: ex_defs)
  have z: "CHR 0x00 \<notin> set ''Food''" "CHR 0x00 \<notin> set ''Fuel''" "CHR 0x00 \<notin> set ''Ore''"
    by simp_all
  have ab: "commodity_compareTech ex_food (ex_food\<lparr>commodity_name := Some ''Fuel''\<rparr>) = Inr (-6)"
    "commodity_compareTech ex_food ex_ore = Inr (-1)" "commodity_compareTech ex_ore ex_food = Inr 1"
    by (simp_all add: commodity_compareTech_def ex_defs)
  from commodity_compareTech_comparator [OF n z] ab show ?thesis
    by auto
qed

text \<open>
  C15: A commodity that the catalog loads with a price of 0 or less is never
  priced: for every planet and time, its price is the lookup-miss value 0.
\<close>

theorem zero_price_lookup_miss:
  assumes "catalog_inv cat0" and "commodity_load cat0 f = Inr cat"
    and "k < length (commodity_stack cat)" and "commodity_price (commodity_stack cat ! k) \<le> 0"
  shows "economy_getPriceAtTime cat k p t = Inr 0"
proof -
  from commodity_load_priced [OF assms(1,2)] assms(3,4)
  have "k \<notin> set (econ_comm cat)" by auto
  then have "economy_commIndex cat k = None" by (simp add: economy_commIndex_None)
  then show ?thesis by (simp add: economy_getPriceAtTime_def)
qed

theorem zero_price_lookup_miss_witness:
  "catalog_inv ex_empty_catalog \<and> commodity_load ex_empty_catalog (Some (Some ex_doc)) =
     Inr \<lparr>commodity_stack = [commodity_init\<lparr>commodity_name := Some ''Food'', commodity_price := 100\<rparr>,
                             commodity_init\<lparr>commodity_name := Some ''Gold''\<rparr>], econ_comm = [0]\<rparr> \<and>
   commodity_price (commodity_init\<lparr>commodity_name := Some ''Gold''\<rparr>) \<le> 0 \<and>
   economy_getPriceAtTime \<lparr>commodity_stack = [commodity_init\<lparr>commodity_name := Some ''Food'', commodity_price := 100\<rparr>,
                             commodity_init\<lparr>commodity_name := Some ''Gold''\<rparr>], econ_comm = [0]\<rparr> 1 ex_planet 5 = Inr 0"
proof -
  let ?c = "\<lparr>commodity_stack = [commodity_init\<lparr>commodity_name := Some ''Food'', commodity_price := 100\<rparr>,
                             commodity_init\<lparr>commodity_name := Some ''Gold''\<rparr>], econ_comm = [0::nat]\<rparr>"
  have l: "commodity_load ex_empty_catalog (Some (Some ex_doc)) = Inr ?c"
    by (simp add: commodity_load_def ex_doc_def ex_empty_catalog_def commodity_parse_def commodity_init_def)
  have k: "1 < length (commodity_stack ?c)" "commodity_price (commodity_stack ?c ! 1) \<le> 0"
    by (simp_all add: commodity_init_def)
  have i: "catalog_inv ex_empty_catalog" by (simp add: catalog_inv_def ex_empty_catalog_def)
  from zero_price_lookup_miss [OF i l k] i l k show ?thesis by simp
qed

theorem economy_sysLoad_sysSave_witness:
  "wf_save ex_sv_cat ex_saved \<and>
   economy_clearKnown ex_catalog [ex_system] = economy_clearKnown ex_sv_cat ex_saved \<and>
   economy_sysLoad (economy_sysSave ex_sv_cat ex_saved) ex_catalog [ex_system] = Inr (economy_keepSeen ex_sv_cat ex_saved) \<and>
   economy_keepSeen ex_sv_cat ex_saved = (ex_sv_cat, ex_saved)"
proof -
  have wf: "wf_save ex_sv_cat ex_saved"
    using c_fmt_f_of_int [of 100] c_fmt_f_of_int [of 10000]
    by (simp add: wf_save_def ex_sv_cat_def ex_saved_def ex_defs wf_planet_def)
  have cl: "economy_clearKnown ex_catalog [ex_system] = economy_clearKnown ex_sv_cat ex_saved"
    by (simp add: economy_clearKnown_def ex_sv_cat_def ex_saved_def ex_defs clear_price_def)
  have ks: "economy_keepSeen ex_sv_cat ex_saved = (ex_sv_cat, ex_saved)"
    by (simp add: economy_keepSeen_def keep_seen_entry_def ex_sv_cat_def ex_saved_def ex_defs)
  show ?thesis using Persistence.economy_sysLoad_sysSave [OF wf cl] wf cl ks by simp
qed

theorem sysLoad_lastPurchase_unknown_witness:
  "economy_sysLoad [EconomyElem [LastPurchaseElem (Some ''Water'') 7]] ex_catalog [ex_system] = Inl NullDeref"
  using Persistence.sysLoad_lastPurchase_unknown [of ex_catalog "''Water''" 7 "[]" "[]" "[ex_system]"]
  by (simp add: ex_defs)

theorem sysLoad_unknown_planet_witness:
  "economy_sysLoad [EconomyElem [SystemElem (Some ''Sol'')
      [PlanetElem (Some ''Mars'') [CommodityElem (Some ''Food'') (Some 1) (Some 1) (Some 1) (Some 1)]]]]
     ex_catalog [ex_system] = Inl NullDeref"
  using Persistence.sysLoad_unknown_planet [of "[ex_system]" "''Mars''"] by (simp add: ex_defs)

theorem gatherable_gather_skips_witness:
  "gatherable_stack (fst (gatherable_gather (\<lambda>p c. (p, 1)) (\<lambda>p. 10) True vectnull
      \<lparr>gatherable_stack = [ex_gat 0, ex_gat 1], noscoop_timer = 1\<rparr> ())) = [ex_gat 1]"
proof -
  have d: "vect_dist vectnull vectnull = 0" by (simp add: vect_dist_def)
  have r: "\<forall>g\<in>set [ex_gat 0, ex_gat 1]. vect_dist vectnull (g_pos g) < GATHER_DIST"
    by (simp add: ex_gat_def d GATHER_DIST_def)
  show ?thesis
    using gatherable_gather_skips [of "\<lambda>(p::unit) c. (p, 1::int)" "\<lparr>gatherable_stack = [ex_gat 0, ex_gat 1], noscoop_timer = 1\<rparr>"
        vectnull "\<lambda>p. 10" True "()"] r
    by simp
qed

theorem econ_step_settles_witness:
  "\<exists>e' ss'. econ_step ex_fr ex_zero_solver 1 (econ_start, ex_net) (e', ss') \<and> econ_initialized e' \<and>
     econ_queued e' = 0 \<and> econ_G e' = Some (econ_createGMatrix ex_fr ex_net) \<and>
     map (\<lambda>s. s\<lparr>prices := None\<rparr>) ss' = map (\<lambda>s. s\<lparr>prices := None\<rparr>) ex_net"
  using Economy_State.econ_step_settles [OF ex_net_wf] by blast

theorem economy_sysLoad_frame_witness:
  "economy_sysLoad [EconomyElem [LastPurchaseElem (Some ''Food'') 7]] ex_catalog [ex_system] =
     Inr (ex_catalog\<lparr>commodity_stack := [ex_food\<lparr>lastPurchasePrice := 7\<rparr>, ex_ore, ex_gold]\<rparr>, [ex_system]) \<and>
   economy_clearKnown (ex_catalog\<lparr>commodity_stack := [ex_food\<lparr>lastPurchasePrice := 7\<rparr>, ex_ore, ex_gold]\<rparr>) [ex_system] =
     economy_clearKnown ex_catalog [ex_system]"
proof -
  have l: "economy_sysLoad [EconomyElem [LastPurchaseElem (Some ''Food'') 7]] ex_catalog [ex_system] =
     Inr (ex_catalog\<lparr>commodity_stack := [ex_food\<lparr>lastPurchasePrice := 7\<rparr>, ex_ore, ex_gold]\<rparr>, [ex_system])"
    by (simp add: economy_sysLoad_def economy_clearKnown_def ex_defs clear_price_def commodity_get_def
        commodity_getW_def c_atol_def)
  show ?thesis using l Persistence.economy_sysLoad_frame [OF l] by simp
qed

end
